(* ===== verification/Prelude.thy ===== *)
theory Prelude
  imports
    Main
    "HOL-Library.AList"
    "HOL-Library.Word"
    "HOL-Library.List_Lexorder"
    "HOL-Library.Char_ord"
begin

text \<open>
  Shared vocabulary of the development: Go maps as association lists with distinct keys, times and
  durations as integers of nanoseconds, the purge pattern every manager's cleanup loop uses, the
  interface of a key-value table as a locale, and reachability of a step relation with its
  invariant rule.
\<close>

named_theorems gomap_simps "lookup and well-formedness of Go maps"
named_theorems frame_simps "what an operation leaves unchanged"
named_theorems inv_intros "an operation keeps an invariant"

section \<open>Time\<close>

text \<open>
  A \<open>time.Time\<close> is an instant in nanoseconds since the Unix epoch and a \<open>time.Duration\<close> a number
  of nanoseconds. The current time is an argument of the operations that read the clock. The zero
  value of \<open>time.Time\<close> is January 1 of year 1.
\<close>

type_synonym time = int
type_synonym duration = int

abbreviation second :: duration where
  "second \<equiv> 1000000000"

abbreviation minute :: duration where
  "minute \<equiv> 60 * second"

definition zero_time :: time where
  "zero_time = - 62135596800 * second"

definition time_unix :: "int \<Rightarrow> time" where
  "time_unix s = s * second"

definition unix_of :: "time \<Rightarrow> int" where
  "unix_of t = t div second"

section \<open>Go maps\<close>

text \<open>
  A Go \<open>map\<close> and the \<open>cmap.ConcurrentMap\<close> the managers use are association lists with distinct
  keys. The order of the list stands for the iteration order, which Go leaves unspecified; no
  property of the development depends on it.
\<close>

type_synonym ('k, 'v) gomap = "('k \<times> 'v) list"

definition gm_wf :: "('k, 'v) gomap \<Rightarrow> bool" where
  "gm_wf m \<longleftrightarrow> distinct (map fst m)"

abbreviation gm_get :: "('k, 'v) gomap \<Rightarrow> 'k \<Rightarrow> 'v option" where
  "gm_get \<equiv> map_of"

abbreviation gm_set :: "'k \<Rightarrow> 'v \<Rightarrow> ('k, 'v) gomap \<Rightarrow> ('k, 'v) gomap" where
  "gm_set \<equiv> AList.update"

abbreviation gm_del :: "'k \<Rightarrow> ('k, 'v) gomap \<Rightarrow> ('k, 'v) gomap" where
  "gm_del \<equiv> AList.delete"

abbreviation gm_keys :: "('k, 'v) gomap \<Rightarrow> 'k set" where
  "gm_keys m \<equiv> fst ` set m"

text \<open>The second half of every purge: remove the keys collected in the first half.\<close>

definition gm_remove_all :: "'k list \<Rightarrow> ('k, 'v) gomap \<Rightarrow> ('k, 'v) gomap" where
  "gm_remove_all ks m = fold gm_del ks m"

lemma gm_wf_Nil [simp, gomap_simps]: "gm_wf []"
  by (simp add: gm_wf_def)

lemma gm_wf_set [simp, gomap_simps]: "gm_wf m \<Longrightarrow> gm_wf (gm_set k v m)"
  by (simp add: gm_wf_def distinct_update)

lemma gm_wf_del [simp, gomap_simps]: "gm_wf m \<Longrightarrow> gm_wf (gm_del k m)"
  by (simp add: gm_wf_def distinct_delete)

lemma gm_wf_filter [simp, gomap_simps]: "gm_wf m \<Longrightarrow> gm_wf (filter P m)"
  by (simp add: gm_wf_def distinct_map_filter)

lemma gm_get_set [simp, gomap_simps]:
  "gm_get (gm_set k v m) k' = (if k' = k then Some v else gm_get m k')"
  by (simp add: update_conv)

lemma gm_get_del [simp, gomap_simps]:
  "gm_get (gm_del k m) k' = (if k' = k then None else gm_get m k')"
  by (simp add: delete_conv)

lemma gm_keys_set [simp, gomap_simps]: "gm_keys (gm_set k v m) = insert k (gm_keys m)"
  using dom_update [of k v m] by (simp add: dom_map_of_conv_image_fst)

lemma gm_keys_del [simp, gomap_simps]: "gm_keys (gm_del k m) = gm_keys m - {k}"
  by (force simp: AList.delete_eq image_iff)

lemma gm_get_in_set: "gm_wf m \<Longrightarrow> gm_get m k = Some v \<longleftrightarrow> (k, v) \<in> set m"
  by (auto simp: gm_wf_def dest: map_of_SomeD intro: map_of_is_SomeI)

lemma gm_get_None_iff: "gm_get m k = None \<longleftrightarrow> k \<notin> gm_keys m"
  by (rule map_of_eq_None_iff)

lemma length_gm_del:
  "gm_wf m \<Longrightarrow> length (gm_del k m) = (if k \<in> gm_keys m then length m - 1 else length m)"
proof (induction m)
  case (Cons e m)
  then have "fst e \<notin> gm_keys m" and "gm_wf m"
    by (auto simp: gm_wf_def)
  moreover have "m \<noteq> []" if "k \<in> gm_keys m"
    using that by auto
  ultimately show ?case
    using Cons.IH by (cases e) (auto simp: AList.delete_eq filter_id_conv image_iff)
qed simp

lemma length_gm_set:
  "length (gm_set k v m) = (if k \<in> gm_keys m then length m else Suc (length m))"
  by (induction m) auto

lemma gm_remove_all_filter:
  "gm_remove_all ks m = filter (\<lambda>e. fst e \<notin> set ks) m"
proof (induction ks arbitrary: m)
  case (Cons k ks)
  have "gm_remove_all (k # ks) m = gm_remove_all ks (gm_del k m)"
    by (simp add: gm_remove_all_def)
  also have "\<dots> = filter (\<lambda>e. fst e \<notin> set ks) (filter (\<lambda>e. k \<noteq> fst e) m)"
    by (simp add: Cons.IH AList.delete_eq case_prod_beta')
  finally show ?case
    by (auto intro: filter_cong)
qed (simp add: gm_remove_all_def)

lemma gm_wf_remove_all [simp, gomap_simps]: "gm_wf m \<Longrightarrow> gm_wf (gm_remove_all ks m)"
  by (simp add: gm_remove_all_filter)

text \<open>Collecting the keys of the entries that satisfy \<open>P\<close> and removing them is a filter.\<close>

lemma gm_purge_filter:
  assumes "gm_wf m"
  shows "gm_remove_all (map fst (filter P m)) m = filter (\<lambda>e. \<not> P e) m"
proof -
  have "fst e \<in> fst ` (set m \<inter> Collect P) \<longleftrightarrow> P e" if "e \<in> set m" for e
    using assms that by (cases e) (force simp: gm_wf_def dest: eq_key_imp_eq_value)
  then show ?thesis
    unfolding gm_remove_all_filter by (intro filter_cong) (auto simp: Int_def image_iff)
qed

lemma gm_get_filter:
  assumes "gm_wf m"
  shows "gm_get (filter P m) k =
    (case gm_get m k of Some v \<Rightarrow> if P (k, v) then Some v else None | None \<Rightarrow> None)"
  using assms
proof (induction m)
  case (Cons e m)
  then have "fst e \<notin> gm_keys m" and "gm_wf m"
    by (auto simp: gm_wf_def)
  then show ?case
    using Cons.IH by (cases e) (force split: option.splits dest: map_of_SomeD simp: image_iff)
qed simp

section \<open>The interface of a key-value table\<close>

text \<open>
  What the managers rely on of a table: a lookup returns the last value stored under its key, and
  storing or removing one key does not disturb another. Removing a list of keys one after the other
  is then a restriction of the table, whatever the representation.
\<close>

locale kv_table =
  fixes get :: "'t \<Rightarrow> 'k \<Rightarrow> 'v option"
    and put :: "'k \<Rightarrow> 'v \<Rightarrow> 't \<Rightarrow> 't"
    and del :: "'k \<Rightarrow> 't \<Rightarrow> 't"
    and wf :: "'t \<Rightarrow> bool"
  assumes get_put: "get (put k v t) k' = (if k' = k then Some v else get t k')"
    and get_del: "get (del k t) k' = (if k' = k then None else get t k')"
    and wf_put: "wf t \<Longrightarrow> wf (put k v t)"
    and wf_del: "wf t \<Longrightarrow> wf (del k t)"
begin

lemma get_del_all: "get (fold del ks t) k = (if k \<in> set ks then None else get t k)"
  by (induction ks arbitrary: t) (auto simp: get_del)

lemma wf_del_all: "wf t \<Longrightarrow> wf (fold del ks t)"
  by (induction ks arbitrary: t) (auto simp: wf_del)

lemma put_then_pop: "get (del k (put k v t)) k' = get (del k t) k'"
  by (simp add: get_put get_del)

end

interpretation gm: kv_table map_of AList.update AList.delete gm_wf
  by unfold_locales simp_all

lemma gm_get_remove_all [simp, gomap_simps]:
  "gm_get (gm_remove_all ks m) k = (if k \<in> set ks then None else gm_get m k)"
  unfolding gm_remove_all_def by (rule gm.get_del_all)

section \<open>Step relations\<close>

text \<open>
  The states a step relation reaches from an initial state, and the rule that an inductive
  invariant holds in all of them.
\<close>

inductive reach :: "('s \<Rightarrow> bool) \<Rightarrow> ('s \<Rightarrow> 's \<Rightarrow> bool) \<Rightarrow> 's \<Rightarrow> bool"
  for init :: "'s \<Rightarrow> bool" and step :: "'s \<Rightarrow> 's \<Rightarrow> bool" where
  start: "init s \<Longrightarrow> reach init step s"
| next_step: "reach init step s \<Longrightarrow> step s t \<Longrightarrow> reach init step t"

lemma reach_steps: "step\<^sup>*\<^sup>* s t \<Longrightarrow> reach init step s \<Longrightarrow> reach init step t"
  by (induction rule: rtranclp_induct) (auto intro: reach.next_step)

locale invariant_system =
  fixes init :: "'s \<Rightarrow> bool"
    and step :: "'s \<Rightarrow> 's \<Rightarrow> bool"
    and inv :: "'s \<Rightarrow> bool"
  assumes inv_init: "init s \<Longrightarrow> inv s"
    and inv_step: "inv s \<Longrightarrow> step s t \<Longrightarrow> inv t"
begin

lemma reach_inv: "reach init step s \<Longrightarrow> inv s"
  by (induction rule: reach.induct) (auto intro: inv_init inv_step)

lemma steps_inv: "step\<^sup>*\<^sup>* s t \<Longrightarrow> inv s \<Longrightarrow> inv t"
  by (induction rule: rtranclp_induct) (auto intro: inv_step)

end

section \<open>Strings\<close>

text \<open>
  \<open>strings.SplitN(s, sep, 2)\<close> for a separator of one character, and \<open>strings.TrimSpace\<close>.
\<close>

fun split_n2 :: "char \<Rightarrow> string \<Rightarrow> string list" where
  "split_n2 sep s =
     (let pre = takeWhile (\<lambda>c. c \<noteq> sep) s; post = dropWhile (\<lambda>c. c \<noteq> sep) s
      in if post = [] then [s] else [pre, tl post])"

definition has_prefix :: "string \<Rightarrow> string \<Rightarrow> bool" where
  "has_prefix s p \<longleftrightarrow> take (length p) s = p"

text \<open>
  \<open>unicode.IsSpace\<close>: the white space characters in UTF-8. Trimming a string of bytes takes them off as
  long as one of them is at its front, and then at its end.
\<close>

definition space_runes :: "string list" where
  "space_runes = [[CHR 0x09], [CHR 0x0A], [CHR 0x0B], [CHR 0x0C], [CHR 0x0D], [CHR 0x20], [CHR 0xC2, CHR 0x85], [CHR 0xC2, CHR 0xA0],
     [CHR 0xE1, CHR 0x9A, CHR 0x80],
     [CHR 0xE2, CHR 0x80, CHR 0x80], [CHR 0xE2, CHR 0x80, CHR 0x81], [CHR 0xE2, CHR 0x80, CHR 0x82], [CHR 0xE2, CHR 0x80, CHR 0x83],
     [CHR 0xE2, CHR 0x80, CHR 0x84], [CHR 0xE2, CHR 0x80, CHR 0x85], [CHR 0xE2, CHR 0x80, CHR 0x86], [CHR 0xE2, CHR 0x80, CHR 0x87],
     [CHR 0xE2, CHR 0x80, CHR 0x88], [CHR 0xE2, CHR 0x80, CHR 0x89], [CHR 0xE2, CHR 0x80, CHR 0x8A], [CHR 0xE2, CHR 0x80, CHR 0xA8],
     [CHR 0xE2, CHR 0x80, CHR 0xA9], [CHR 0xE2, CHR 0x80, CHR 0xAF],
     [CHR 0xE2, CHR 0x81, CHR 0x9F], [CHR 0xE3, CHR 0x80, CHR 0x80]]"

definition leading_rune :: "string list \<Rightarrow> string \<Rightarrow> string option" where
  "leading_rune runes s = find (\<lambda>r. r \<noteq> [] \<and> has_prefix s r) runes"

lemma leading_rune_shorter: "leading_rune runes s = Some r \<Longrightarrow> length (drop (length r) s) < length s"
  by (cases s) (auto simp: leading_rune_def find_Some_iff has_prefix_def)

function drop_runes :: "string list \<Rightarrow> string \<Rightarrow> string" where
  "drop_runes runes s = (case leading_rune runes s of None \<Rightarrow> s | Some r \<Rightarrow> drop_runes runes (drop (length r) s))"
  by auto
termination
  by (relation "measure (\<lambda>(runes, s). length s)") (auto dest: leading_rune_shorter simp del: length_drop)

declare drop_runes.simps [simp del]

definition trim_space :: "string \<Rightarrow> string" where
  "trim_space s = rev (drop_runes (map rev space_runes) (rev (drop_runes space_runes s)))"

lemma drop_runes_split: "\<exists>pre. s = pre @ drop_runes runes s"
proof (induction runes s rule: drop_runes.induct)
  case (1 runes s)
  show ?case
  proof (cases "leading_rune runes s")
    case (Some r)
    from 1 [OF Some] obtain pre where "drop (length r) s = pre @ drop_runes runes (drop (length r) s)" ..
    then have "s = (take (length r) s @ pre) @ drop_runes runes s"
      using Some append_take_drop_id [of "length r" s] by (simp add: drop_runes.simps [of runes s])
    then show ?thesis ..
  qed (simp add: drop_runes.simps)
qed

lemma drop_runes_none: "leading_rune runes (drop_runes runes s) = None"
  by (induction runes s rule: drop_runes.induct) (subst drop_runes.simps, simp split: option.splits)

lemma length_drop_runes: "length (drop_runes runes s) \<le> length s"
  using drop_runes_split [of s runes] by (metis length_append le_add2)

lemma length_trim_space: "length (trim_space s) \<le> length s"
  using length_drop_runes [of "map rev space_runes" "rev (drop_runes space_runes s)"] length_drop_runes [of space_runes s]
  by (simp add: trim_space_def)

text \<open>A trimmed string neither begins nor ends with a white space character.\<close>

lemma trim_space_ends:
  assumes "r \<in> set space_runes"
  shows "\<not> has_prefix (trim_space s) r" and "\<not> has_prefix (rev (trim_space s)) (rev r)"
proof -
  define d where "d = drop_runes space_runes s"
  define e where "e = drop_runes (map rev space_runes) (rev d)"
  have r: "r \<noteq> []" using assms by (auto simp: space_runes_def)
  have ts: "trim_space s = rev e" by (simp add: trim_space_def d_def e_def)
  have none: "leading_rune space_runes d = None" "leading_rune (map rev space_runes) e = None"
    by (simp_all add: d_def e_def drop_runes_none)
  show "\<not> has_prefix (rev (trim_space s)) (rev r)"
    using none(2) assms r by (auto simp: ts leading_rune_def find_None_iff)
  obtain pre where "rev d = pre @ e" using drop_runes_split [of "rev d" "map rev space_runes"] by (auto simp: e_def)
  then have "d = rev e @ rev pre" by (metis rev_append rev_rev_ident)
  moreover have "\<not> has_prefix d r" using none(1) assms r by (auto simp: leading_rune_def find_None_iff)
  ultimately show "\<not> has_prefix (trim_space s) r"
    by (auto simp: ts has_prefix_def take_append)
qed

text \<open>A carriage return at the end does not matter: it is white space by itself and part of no other character.\<close>

lemma find_cong_on: "(\<And>x. x \<in> set xs \<Longrightarrow> P x = Q x) \<Longrightarrow> find P xs = find Q xs"
  by (induction xs) auto

lemma space_runes_cr: "r \<in> set space_runes \<Longrightarrow> CHR 0x0D \<in> set r \<longleftrightarrow> r = [CHR 0x0D]"
  by (auto simp: space_runes_def)

lemma leading_rune_cr:
  assumes "t \<noteq> []"
  shows "leading_rune space_runes (t @ [CHR 0x0D]) = leading_rune space_runes t"
proof -
  have "has_prefix (t @ [CHR 0x0D]) r = has_prefix t r" if r: "r \<in> set space_runes" for r
  proof (cases "length r \<le> length t")
    case False
    have "\<not> has_prefix (t @ [CHR 0x0D]) r"
    proof
      assume "has_prefix (t @ [CHR 0x0D]) r"
      then have "r = t @ [CHR 0x0D]" using False by (auto simp: has_prefix_def)
      with space_runes_cr [OF r] assms show False by simp
    qed
    moreover have "\<not> has_prefix t r" using False by (auto simp: has_prefix_def)
    ultimately show ?thesis by simp
  qed (simp add: has_prefix_def)
  then show ?thesis unfolding leading_rune_def by (intro find_cong_on) simp
qed

lemma drop_runes_cr:
  "drop_runes space_runes (t @ [CHR 0x0D]) =
     (if drop_runes space_runes t = [] then [] else drop_runes space_runes t @ [CHR 0x0D])"
proof (induction "length t" arbitrary: t rule: less_induct)
  case less
  have nil: "drop_runes space_runes [] = []" "drop_runes space_runes [CHR 0x0D] = []" by code_simp+
  show ?case
  proof (cases "t = []")
    case False
    note lead = leading_rune_cr [OF False]
    show ?thesis
    proof (cases "leading_rune space_runes t")
      case None
      then show ?thesis using lead False by (simp add: drop_runes.simps)
    next
      case (Some r)
      have len: "length r \<le> length t" using Some by (auto simp: leading_rune_def find_Some_iff has_prefix_def) (metis length_take min.cobounded1)
      have "drop_runes space_runes (t @ [CHR 0x0D]) = drop_runes space_runes (drop (length r) t @ [CHR 0x0D])"
        using lead Some len by (subst drop_runes.simps) simp
      also have "\<dots> = (if drop_runes space_runes (drop (length r) t) = [] then []
          else drop_runes space_runes (drop (length r) t) @ [CHR 0x0D])"
        by (rule less) (rule leading_rune_shorter [OF Some])
      also have "drop_runes space_runes (drop (length r) t) = drop_runes space_runes t"
        using Some by (simp add: drop_runes.simps [of space_runes t])
      finally show ?thesis .
    qed
  qed (simp add: nil)
qed

lemma drop_runes_rev_cr: "drop_runes (map rev space_runes) (CHR 0x0D # s) = drop_runes (map rev space_runes) s"
proof -
  have "leading_rune (map rev space_runes) (CHR 0x0D # s) = Some [CHR 0x0D]"
    by (simp add: leading_rune_def has_prefix_def space_runes_def)
  then show ?thesis by (subst drop_runes.simps) simp
qed

lemma trim_space_cr: "trim_space (t @ [CHR 0x0D]) = trim_space t"
proof -
  have nil: "drop_runes (map rev space_runes) [] = []" by code_simp
  show ?thesis by (simp add: trim_space_def drop_runes_cr drop_runes_rev_cr nil)
qed

section \<open>Decimal numbers\<close>

text \<open>\<open>strconv.FormatUint(n, 10)\<close> and the \<open>%d\<close> verb, and reading a decimal number back.\<close>

fun show_nat :: "nat \<Rightarrow> string" where
  "show_nat n = (if n < 10 then [char_of (48 + n)] else show_nat (n div 10) @ [char_of (48 + n mod 10)])"

declare show_nat.simps [simp del]

definition show_int :: "int \<Rightarrow> string" where
  "show_int i = (if i < 0 then CHR ''-'' # show_nat (nat (- i)) else show_nat (nat i))"

definition is_digit :: "char \<Rightarrow> bool" where
  "is_digit c \<longleftrightarrow> 48 \<le> (of_char c :: nat) \<and> (of_char c :: nat) \<le> 57"

definition read_nat :: "string \<Rightarrow> nat" where
  "read_nat s = foldl (\<lambda>n c. 10 * n + (of_char c - 48)) 0 s"

lemma is_digit_char_of: "d < 10 \<Longrightarrow> is_digit (char_of (48 + d :: nat))"
  by (simp add: is_digit_def)

lemma show_nat_digits: "\<forall>c \<in> set (show_nat n). is_digit c"
proof (induction n rule: show_nat.induct)
  case (1 n)
  then show ?case
    by (cases "n < 10") (simp_all add: show_nat.simps [of n] is_digit_char_of)
qed

lemma show_nat_nonempty: "show_nat n \<noteq> []"
  by (subst show_nat.simps) simp

lemma read_show_nat: "read_nat (show_nat n) = n"
proof (induction n rule: show_nat.induct)
  case (1 n)
  show ?case
  proof (cases "n < 10")
    case True
    then show ?thesis by (simp add: show_nat.simps [of n] read_nat_def)
  next
    case False
    with 1 have "foldl (\<lambda>n c. 10 * n + (of_char c - 48)) 0 (show_nat (n div 10)) = n div 10"
      by (simp add: read_nat_def)
    with False show ?thesis
      by (simp add: show_nat.simps [of n] read_nat_def)
  qed
qed

lemma show_nat_inject: "show_nat m = show_nat n \<longleftrightarrow> m = n"
  by (metis read_show_nat)

section \<open>Signed 64-bit integers\<close>

text \<open>An \<open>int64\<close> is an integer in range; arithmetic wraps around.\<close>

definition i64_wrap :: "int \<Rightarrow> int" where
  "i64_wrap n = (n + 2 ^ 63) mod 2 ^ 64 - 2 ^ 63"

lemma i64_wrap_id: "- (2 ^ 63) \<le> n \<Longrightarrow> n < 2 ^ 63 \<Longrightarrow> i64_wrap n = n"
  by (simp add: i64_wrap_def)

section \<open>Tables whose entries expire\<close>

text \<open>
  The managers keep time-stamped tables and purge them on a timer: an entry goes when its stamp is
  before the current time minus the expiration. What follows for a client that stores an entry and
  looks it up later is proved once for any such table.
\<close>

locale expiring_table = kv_table get put del wf
  for get :: "'t \<Rightarrow> 'k \<Rightarrow> 'v option"
    and put :: "'k \<Rightarrow> 'v \<Rightarrow> 't \<Rightarrow> 't"
    and del :: "'k \<Rightarrow> 't \<Rightarrow> 't"
    and wf :: "'t \<Rightarrow> bool" +
  fixes stamp :: "'v \<Rightarrow> time"
    and expiration :: duration
    and purge :: "time \<Rightarrow> 't \<Rightarrow> 't"
  assumes get_purge: "wf t \<Longrightarrow> get (purge now t) k =
      (case get t k of None \<Rightarrow> None | Some v \<Rightarrow> if stamp v < now - expiration then None else Some v)"
    and wf_purge: "wf t \<Longrightarrow> wf (purge now t)"
begin

lemma purge_keeps_fresh:
  "wf t \<Longrightarrow> get t k = Some v \<Longrightarrow> now \<le> stamp v + expiration \<Longrightarrow> get (purge now t) k = Some v"
  by (simp add: get_purge)

lemma purge_drops_old:
  "wf t \<Longrightarrow> get t k = Some v \<Longrightarrow> stamp v + expiration < now \<Longrightarrow> get (purge now t) k = None"
  by (simp add: get_purge)

lemma purge_only_removes: "wf t \<Longrightarrow> get (purge now t) k = Some v \<Longrightarrow> get t k = Some v"
  by (simp add: get_purge split: option.splits if_splits)

lemma put_survives_purge:
  "wf t \<Longrightarrow> now \<le> stamp v + expiration \<Longrightarrow> get (purge now (put k v t)) k = Some v"
  by (simp add: get_purge wf_put get_put)

lemma purge_purge:
  "wf t \<Longrightarrow> now \<le> later \<Longrightarrow> get (purge later (purge now t)) k = get (purge later t) k"
  by (simp add: get_purge wf_purge split: option.splits)

end

end
