(* ===== verification/Json.thy ===== *)
theory Json
  imports Prelude
begin

text \<open>
  What the program uses of \<open>encoding/json\<close>: a text message is modelled by the value it denotes
  (\<open>None\<close> for a text that is not JSON), \<open>json.Unmarshal\<close> into a struct walks the members of an
  object and stores each member into the field it names, and \<open>json.Marshal\<close> of a struct emits its
  fields in order, without the empty ones that carry \<open>omitempty\<close>.
\<close>

datatype json =
    JNull
  | JBool bool
  | JNum int
  | JFloat string
  | JStr string
  | JArr "json list"
  | JObj "(string \<times> json) list"

section \<open>Decoding into structs\<close>

text \<open>
  A member stores into the field with its name, or else into the first field whose name differs in
  the case of ASCII letters only. A member that no field takes is ignored. A value of the wrong
  kind makes the whole call fail; \<open>null\<close> leaves a string, number or boolean field as it is.
\<close>

definition to_lower :: "char \<Rightarrow> char" where
  "to_lower c = (if CHR ''A'' \<le> c \<and> c \<le> CHR ''Z'' then char_of (of_char c + 32 :: nat) else c)"

definition equal_fold :: "string \<Rightarrow> string \<Rightarrow> bool" where
  "equal_fold a b \<longleftrightarrow> map to_lower a = map to_lower b"

definition match_field :: "string list \<Rightarrow> string \<Rightarrow> string option" where
  "match_field names k = (if k \<in> set names then Some k else find (equal_fold k) names)"

fun decode_fields ::
  "string list \<Rightarrow> (string \<Rightarrow> json \<Rightarrow> 'r \<Rightarrow> 'r option) \<Rightarrow> (string \<times> json) list \<Rightarrow> 'r \<Rightarrow> 'r option" where
  "decode_fields names st [] r = Some r"
| "decode_fields names st ((k, v) # kvs) r =
     (case match_field names k of
        None \<Rightarrow> decode_fields names st kvs r
      | Some n \<Rightarrow> (case st n v r of None \<Rightarrow> None | Some r' \<Rightarrow> decode_fields names st kvs r'))"

definition decode_struct ::
  "string list \<Rightarrow> (string \<Rightarrow> json \<Rightarrow> 'r \<Rightarrow> 'r option) \<Rightarrow> 'r \<Rightarrow> json \<Rightarrow> 'r option" where
  "decode_struct names st zero j =
     (case j of JObj kvs \<Rightarrow> decode_fields names st kvs zero | JNull \<Rightarrow> Some zero | _ \<Rightarrow> None)"

text \<open>Unmarshalling into a pointer: \<open>null\<close> stores the nil pointer, anything else a new struct.\<close>

definition decode_ptr :: "(json \<Rightarrow> 'r option) \<Rightarrow> json \<Rightarrow> 'r option option" where
  "decode_ptr dec j = (case j of JNull \<Rightarrow> Some None | _ \<Rightarrow> map_option Some (dec j))"

definition set_str :: "(string \<Rightarrow> 'r \<Rightarrow> 'r) \<Rightarrow> json \<Rightarrow> 'r \<Rightarrow> 'r option" where
  "set_str f j r = (case j of JStr s \<Rightarrow> Some (f s r) | JNull \<Rightarrow> Some r | _ \<Rightarrow> None)"

definition set_bool :: "(bool \<Rightarrow> 'r \<Rightarrow> 'r) \<Rightarrow> json \<Rightarrow> 'r \<Rightarrow> 'r option" where
  "set_bool f j r = (case j of JBool b \<Rightarrow> Some (f b r) | JNull \<Rightarrow> Some r | _ \<Rightarrow> None)"

definition set_u64 :: "(64 word \<Rightarrow> 'r \<Rightarrow> 'r) \<Rightarrow> json \<Rightarrow> 'r \<Rightarrow> 'r option" where
  "set_u64 f j r =
     (case j of
        JNum n \<Rightarrow> if 0 \<le> n \<and> n < 2 ^ 64 then Some (f (word_of_int n) r) else None
      | JNull \<Rightarrow> Some r
      | _ \<Rightarrow> None)"

definition set_i64 :: "(int \<Rightarrow> 'r \<Rightarrow> 'r) \<Rightarrow> json \<Rightarrow> 'r \<Rightarrow> 'r option" where
  "set_i64 f j r =
     (case j of
        JNum n \<Rightarrow> if - (2 ^ 63) \<le> n \<and> n < 2 ^ 63 then Some (f n r) else None
      | JNull \<Rightarrow> Some r
      | _ \<Rightarrow> None)"

text \<open>A \<open>json.RawMessage\<close> field takes the member's value whatever its kind, \<open>null\<close> included.\<close>

definition set_raw :: "(json option \<Rightarrow> 'r \<Rightarrow> 'r) \<Rightarrow> json \<Rightarrow> 'r \<Rightarrow> 'r option" where
  "set_raw f j r = Some (f (Some j) r)"

text \<open>A \<open>map[string]interface{}\<close>: the last of several members with one name wins.\<close>

definition decode_map :: "json \<Rightarrow> (string, json) gomap option option" where
  "decode_map j =
     (case j of
        JObj kvs \<Rightarrow> Some (Some (fold (\<lambda>(k, v) m. gm_set k v m) kvs []))
      | JNull \<Rightarrow> Some None
      | _ \<Rightarrow> None)"

definition set_map :: "((string, json) gomap option \<Rightarrow> 'r \<Rightarrow> 'r) \<Rightarrow> json \<Rightarrow> 'r \<Rightarrow> 'r option" where
  "set_map f j r = map_option (\<lambda>m. f m r) (decode_map j)"

section \<open>Encoding structs\<close>

definition fld :: "string \<Rightarrow> json \<Rightarrow> (string \<times> json) list" where
  "fld k v = [(k, v)]"

definition fld_str :: "string \<Rightarrow> string \<Rightarrow> (string \<times> json) list" where
  "fld_str k s = (if s = [] then [] else [(k, JStr s)])"

definition fld_u64 :: "string \<Rightarrow> 64 word \<Rightarrow> (string \<times> json) list" where
  "fld_u64 k n = (if n = 0 then [] else [(k, JNum (uint n))])"

definition fld_bool :: "string \<Rightarrow> bool \<Rightarrow> (string \<times> json) list" where
  "fld_bool k b = (if b then [(k, JBool True)] else [])"

definition fld_opt :: "string \<Rightarrow> json option \<Rightarrow> (string \<times> json) list" where
  "fld_opt k v = (case v of None \<Rightarrow> [] | Some j \<Rightarrow> [(k, j)])"

section \<open>Lemmas\<close>

lemmas json_set_defs = set_str_def set_bool_def set_u64_def set_i64_def set_raw_def set_map_def
lemmas json_fld_defs = fld_def fld_str_def fld_u64_def fld_bool_def fld_opt_def

lemma match_field_exact [simp]: "k \<in> set names \<Longrightarrow> match_field names k = Some k"
  by (simp add: match_field_def)

lemma decode_fields_append:
  "decode_fields names st (xs @ ys) r =
     (case decode_fields names st xs r of None \<Rightarrow> None | Some r' \<Rightarrow> decode_fields names st ys r')"
  by (induction names st xs r rule: decode_fields.induct) (auto split: option.splits)

text \<open>
  Storing one emitted field: decoding what \<open>fld\<close> and its variants emit is the setter's effect. A
  field that was omitted because it is empty has no effect, which is the setter's effect too when
  the field still holds its zero value.
\<close>

lemma decode_fld:
  assumes "k \<in> set names" and "st k v r = Some r'"
  shows "decode_fields names st (fld k v) r = Some r'"
  using assms by (simp add: fld_def)

lemma decode_fld_str:
  assumes "k \<in> set names" and "st k (JStr s) r = Some (f s r)" and "f [] r = r"
  shows "decode_fields names st (fld_str k s) r = Some (f s r)"
  using assms by (simp add: fld_str_def)

lemma decode_fld_u64:
  assumes "k \<in> set names" and "st k (JNum (uint n)) r = Some (f n r)" and "f 0 r = r"
  shows "decode_fields names st (fld_u64 k n) r = Some (f n r)"
  using assms by (simp add: fld_u64_def)

lemma decode_fld_bool:
  assumes "k \<in> set names" and "st k (JBool True) r = Some (f True r)" and "f False r = r"
  shows "decode_fields names st (fld_bool k b) r = Some (f b r)"
  using assms by (cases b) (simp_all add: fld_bool_def)

lemma decode_fld_opt:
  assumes "k \<in> set names" and "\<And>j. st k (enc j) r = Some (f (Some j) r)" and "f None r = r"
  shows "decode_fields names st (fld_opt k (map_option enc v)) r = Some (f v r)"
  using assms by (cases v) (simp_all add: fld_opt_def)

lemma set_u64_uint [simp]: "set_u64 f (JNum (uint n)) r = Some (f n r)"
  using uint_bounded [of n] by (simp add: set_u64_def)

lemma decode_ptr_null [simp]: "decode_ptr dec JNull = Some None"
  by (simp add: decode_ptr_def)

lemma decode_ptr_obj [simp]: "decode_ptr dec (JObj kvs) = map_option Some (dec (JObj kvs))"
  by (simp add: decode_ptr_def)

end
