(* ===== verification/Api.thy ===== *)
theory Api
  imports Json
begin

text \<open>
  The payload types of \<open>src/signaling/api-v1\<close>: the RTM messages that travel over the websocket, the
  error reply, the auth token and the server status, each struct as a record with the struct's
  fields in its order, with its JSON encoding and, for what the server receives, its decoding.
  Embedded envelopes are written out as fields. The decoder allocates an embedded pointer when one of
  its members is present, also when the member is null. Of a client's message the \<open>type\<close> member was
  read before, so that the pointer of a chat message is never nil; a text of an MCU is decoded as a
  WebRTC message without that check, so that \<open>RTMTypeWebRTC\<close> has a field that tells whether its
  envelope was allocated.
\<close>

type_synonym u64 = "64 word"

section \<open>Constants\<close>

definition RTMTypeNameHello :: string where "RTMTypeNameHello = ''hello''"
definition RTMTypeNameError :: string where "RTMTypeNameError = ''error''"
definition RTMTypeNamePing :: string where "RTMTypeNamePing = ''ping''"
definition RTMTypeNamePong :: string where "RTMTypeNamePong = ''pong''"
definition RTMTypeNameGoodbye :: string where "RTMTypeNameGoodbye = ''goodbye''"
definition RTMTypeNameServer :: string where "RTMTypeNameServer = ''server''"
definition RTMTypeNameWebRTC :: string where "RTMTypeNameWebRTC = ''webrtc''"
definition RTMTypeNameChats :: string where "RTMTypeNameChats = ''chats''"
definition RTMSubtypeNameWebRTCCall :: string where "RTMSubtypeNameWebRTCCall = ''webrtc_call''"
definition RTMSubtypeNameWebRTCChannel :: string where
  "RTMSubtypeNameWebRTCChannel = ''webrtc_channel''"
definition RTMSubtypeNameWebRTCHangup :: string where "RTMSubtypeNameWebRTCHangup = ''webrtc_hangup''"
definition RTMSubtypeNameWebRTCSignal :: string where "RTMSubtypeNameWebRTCSignal = ''webrtc_signal''"
definition RTMSubtypeNameWebRTCGroup :: string where "RTMSubtypeNameWebRTCGroup = ''webrtc_group''"
definition RTMSubtypeNameChatsMessage :: string where "RTMSubtypeNameChatsMessage = ''chats_message''"
definition RTMSubtypeNameChatsSystem :: string where "RTMSubtypeNameChatsSystem = ''chats_system''"
definition RTMErrorIDServerError :: string where "RTMErrorIDServerError = ''server_error''"
definition RTMErrorIDBadMessage :: string where "RTMErrorIDBadMessage = ''bad_message''"
definition RTMErrorIDNoSessionForUser :: string where
  "RTMErrorIDNoSessionForUser = ''no_session_for_user''"
definition RTMErrorIDAccessRestricted :: string where
  "RTMErrorIDAccessRestricted = ''access_restricted''"
definition RTMErrorIDCreateRestricted :: string where
  "RTMErrorIDCreateRestricted = ''create_restricted''"
definition RTMChatsMessageKindMessageUserText :: string where
  "RTMChatsMessageKindMessageUserText = ''''"
definition RTMChatsMessageKindMessageQueued :: string where
  "RTMChatsMessageKindMessageQueued = ''delivery_queued''"
definition RTMChatsMessageKindSystemText :: string where "RTMChatsMessageKindSystemText = ''system''"

lemmas rtm_type_defs = RTMTypeNameHello_def RTMTypeNameError_def RTMTypeNamePing_def
  RTMTypeNamePong_def RTMTypeNameGoodbye_def RTMTypeNameServer_def RTMTypeNameWebRTC_def
  RTMTypeNameChats_def
lemmas rtm_subtype_defs = RTMSubtypeNameWebRTCCall_def RTMSubtypeNameWebRTCChannel_def
  RTMSubtypeNameWebRTCHangup_def RTMSubtypeNameWebRTCSignal_def RTMSubtypeNameWebRTCGroup_def
  RTMSubtypeNameChatsMessage_def RTMSubtypeNameChatsSystem_def
lemmas rtm_error_defs = RTMErrorIDServerError_def RTMErrorIDBadMessage_def
  RTMErrorIDNoSessionForUser_def RTMErrorIDAccessRestricted_def RTMErrorIDCreateRestricted_def
lemmas rtm_kind_defs = RTMChatsMessageKindMessageUserText_def RTMChatsMessageKindMessageQueued_def
  RTMChatsMessageKindSystemText_def

text \<open>Token types and claims (\<open>const.go\<close>).\<close>

definition AdminAuthTokenTypeToken :: string where "AdminAuthTokenTypeToken = ''Token''"
definition BearerAuthTypeToken :: string where "BearerAuthTypeToken = ''Bearer''"
definition BasicAuthTypeToken :: string where "BasicAuthTypeToken = ''Basic''"
definition NameClaim :: string where "NameClaim = ''name''"

lemmas auth_type_defs = AdminAuthTokenTypeToken_def BearerAuthTypeToken_def BasicAuthTypeToken_def

section \<open>Auth token (\<open>admin.go\<close>)\<close>

record AdminAuthToken =
  at_Subject :: string
  at_Type :: string
  at_Value :: string
  at_ExpiresAt :: int
  at_Claims :: "(string, json) gomap option"
  at_Auth :: string
  at_GroupRestriction :: "(string, bool) gomap option"
  at_CanCreateChannels :: bool

definition zero_auth_token :: AdminAuthToken where
  "zero_auth_token = \<lparr>at_Subject = [], at_Type = [], at_Value = [], at_ExpiresAt = 0,
     at_Claims = None, at_Auth = [], at_GroupRestriction = None, at_CanCreateChannels = False\<rparr>"

definition token_Name :: "AdminAuthToken \<Rightarrow> string" where
  "token_Name aat =
     (case at_Claims aat of
        None \<Rightarrow> []
      | Some claims \<Rightarrow> (case gm_get claims NameClaim of Some (JStr name) \<Rightarrow> name | _ \<Rightarrow> []))"

definition auth_token_fields :: "string list" where
  "auth_token_fields = [''sub'', ''type'', ''value'', ''exp'', ''claims'']"

definition set_auth_token_field :: "string \<Rightarrow> json \<Rightarrow> AdminAuthToken \<Rightarrow> AdminAuthToken option" where
  "set_auth_token_field k j t =
     (if k = ''sub'' then set_str (\<lambda>s. at_Subject_update (\<lambda>_. s)) j t
      else if k = ''type'' then set_str (\<lambda>s. at_Type_update (\<lambda>_. s)) j t
      else if k = ''value'' then set_str (\<lambda>s. at_Value_update (\<lambda>_. s)) j t
      else if k = ''exp'' then set_i64 (\<lambda>n. at_ExpiresAt_update (\<lambda>_. n)) j t
      else if k = ''claims'' then set_map (\<lambda>m. at_Claims_update (\<lambda>_. m)) j t
      else None)"

definition decode_auth_token :: "json \<Rightarrow> AdminAuthToken option" where
  "decode_auth_token = decode_struct auth_token_fields set_auth_token_field zero_auth_token"

section \<open>Server status, self (\<open>common.go\<close>)\<close>

text \<open>
  \<open>ServerStatus.Kustomer\<close> is a \<open>*uint64\<close>. A pointer is its address with the value stored there;
  Go's \<open>==\<close> on pointers compares addresses.
\<close>

record u64ptr =
  ptr_addr :: nat
  ptr_val :: u64

record ServerStatus =
  ss_Kustomer :: "u64ptr option"

definition ServerStatus_Equal :: "ServerStatus \<Rightarrow> ServerStatus \<Rightarrow> bool" where
  "ServerStatus_Equal s t \<longleftrightarrow>
     map_option ptr_addr (ss_Kustomer s) = map_option ptr_addr (ss_Kustomer t)"

record Self =
  self_ID :: string
  self_Name :: string
  self_Auth :: string

section \<open>Errors\<close>

record RTMDataError =
  ed_Code :: string
  ed_Msg :: string

record RTMTypeError =
  er_Type :: string
  er_ReplyTo :: u64
  er_ErrorData :: "RTMDataError option"

definition NewRTMTypeError :: "string \<Rightarrow> string \<Rightarrow> u64 \<Rightarrow> RTMTypeError" where
  "NewRTMTypeError code msg replyTo =
     \<lparr>er_Type = RTMTypeNameError, er_ReplyTo = replyTo,
      er_ErrorData = Some \<lparr>ed_Code = code, ed_Msg = msg\<rparr>\<rparr>"

definition RTMTypeError_Error :: "RTMTypeError \<Rightarrow> string" where
  "RTMTypeError_Error err =
     (case er_ErrorData err of None \<Rightarrow> RTMErrorIDServerError | Some d \<Rightarrow> ed_Code d)"

text \<open>An \<open>error\<close> value: an RTM error, which is sent to the client, or any other.\<close>

datatype go_error = RTMErr RTMTypeError | GoErr string

section \<open>Messages (\<open>rtm.go\<close>)\<close>

record RTMTypeTransaction =
  tr_Type :: string
  tr_Transaction :: string

record RTMTypeHello =
  he_Type :: string
  he_Self :: "Self option"
  he_ServerStatus :: "ServerStatus option"

record RTMDataProfile =
  pr_Name :: string

record RTMTypeWebRTC =
  wm_Envelope :: bool
  wm_ID :: u64
  wm_Type :: string
  wm_Subtype :: string
  wm_Target :: string
  wm_Source :: string
  wm_Profile :: "RTMDataProfile option"
  wm_Initiator :: bool
  wm_State :: string
  wm_Channel :: string
  wm_Group :: string
  wm_Hash :: string
  wm_Version :: u64
  wm_Transaction :: string
  wm_Pcid :: string
  wm_Data :: "json option"

record RTMTypeWebRTCReply =
  wy_Type :: string
  wy_Subtype :: string
  wy_ReplyTo :: u64
  wy_State :: string
  wy_Channel :: string
  wy_Hash :: string
  wy_Version :: u64
  wy_Data :: "json option"

record RTMTypeChats =
  cm_ID :: u64
  cm_Type :: string
  cm_Subtype :: string
  cm_Channel :: string
  cm_Profile :: "RTMDataProfile option"
  cm_Group :: string
  cm_Version :: u64
  cm_Data :: "json option"

record RTMTypeChatsReply =
  cy_Type :: string
  cy_Subtype :: string
  cy_ReplyTo :: u64
  cy_Channel :: string
  cy_Group :: string
  cy_Version :: u64
  cy_Data :: "json option"

record RTMDataWebRTCAccept =
  ac_Accept :: bool
  ac_State :: string
  ac_Reason :: string

record RTMTDataWebRTCChannelGroup =
  cg_Group :: string
  cg_Members :: "string list"
  cg_Reset :: bool

record RTMDataWebRTCChannelPipeline =
  cp_Pipeline :: string
  cp_Mode :: string

record RTMDataWebRTCChannelExtra =
  ce_Group :: "RTMTDataWebRTCChannelGroup option"
  ce_Pipeline :: "RTMDataWebRTCChannelPipeline option"
  ce_Replaced :: bool

record RTMDataChatsMessage =
  cd_Kind :: string
  cd_Sender :: string
  cd_Target :: string
  cd_TS :: int
  cd_Text :: string
  cd_RichText :: string
  cd_ID :: string
  cd_Extra :: "(string, json) gomap option"

text \<open>A ping is a map of anything; the server answers with the same map.\<close>

type_synonym RTMTypePingPong = "(string, json) gomap"

section \<open>Decoding what clients send\<close>

definition zero_transaction :: RTMTypeTransaction where
  "zero_transaction = \<lparr>tr_Type = [], tr_Transaction = []\<rparr>"

definition set_transaction_field :: "string \<Rightarrow> json \<Rightarrow> RTMTypeTransaction \<Rightarrow> RTMTypeTransaction option" where
  "set_transaction_field k j t =
     (if k = ''type'' then set_str (\<lambda>s. tr_Type_update (\<lambda>_. s)) j t
      else if k = ''transaction'' then set_str (\<lambda>s. tr_Transaction_update (\<lambda>_. s)) j t
      else None)"

definition decode_transaction :: "json \<Rightarrow> RTMTypeTransaction option" where
  "decode_transaction =
     decode_struct [''type'', ''transaction''] set_transaction_field zero_transaction"

definition zero_profile :: RTMDataProfile where
  "zero_profile = \<lparr>pr_Name = []\<rparr>"

definition decode_profile :: "json \<Rightarrow> RTMDataProfile option" where
  "decode_profile =
     decode_struct [''name''] (\<lambda>_. set_str (\<lambda>s. pr_Name_update (\<lambda>_. s))) zero_profile"

definition zero_webrtc :: RTMTypeWebRTC where
  "zero_webrtc = \<lparr>wm_Envelope = False, wm_ID = 0, wm_Type = [], wm_Subtype = [], wm_Target = [], wm_Source = [],
     wm_Profile = None, wm_Initiator = False, wm_State = [], wm_Channel = [], wm_Group = [],
     wm_Hash = [], wm_Version = 0, wm_Transaction = [], wm_Pcid = [], wm_Data = None\<rparr>"

definition webrtc_fields :: "string list" where
  "webrtc_fields = [''id'', ''type'', ''subtype'', ''target'', ''source'', ''profile'', ''initiator'',
     ''state'', ''channel'', ''group'', ''hash'', ''v'', ''transaction'', ''pcid'', ''data'']"

definition set_webrtc_field :: "string \<Rightarrow> json \<Rightarrow> RTMTypeWebRTC \<Rightarrow> RTMTypeWebRTC option" where
  "set_webrtc_field k j m =
     (if k = ''id'' then set_u64 (\<lambda>n. wm_ID_update (\<lambda>_. n)) j (m\<lparr>wm_Envelope := True\<rparr>)
      else if k = ''type'' then set_str (\<lambda>s. wm_Type_update (\<lambda>_. s)) j (m\<lparr>wm_Envelope := True\<rparr>)
      else if k = ''subtype'' then set_str (\<lambda>s. wm_Subtype_update (\<lambda>_. s)) j (m\<lparr>wm_Envelope := True\<rparr>)
      else if k = ''target'' then set_str (\<lambda>s. wm_Target_update (\<lambda>_. s)) j m
      else if k = ''source'' then set_str (\<lambda>s. wm_Source_update (\<lambda>_. s)) j m
      else if k = ''profile'' then
        map_option (\<lambda>p. m\<lparr>wm_Profile := p\<rparr>) (decode_ptr decode_profile j)
      else if k = ''initiator'' then set_bool (\<lambda>b. wm_Initiator_update (\<lambda>_. b)) j m
      else if k = ''state'' then set_str (\<lambda>s. wm_State_update (\<lambda>_. s)) j m
      else if k = ''channel'' then set_str (\<lambda>s. wm_Channel_update (\<lambda>_. s)) j m
      else if k = ''group'' then set_str (\<lambda>s. wm_Group_update (\<lambda>_. s)) j m
      else if k = ''hash'' then set_str (\<lambda>s. wm_Hash_update (\<lambda>_. s)) j m
      else if k = ''v'' then set_u64 (\<lambda>n. wm_Version_update (\<lambda>_. n)) j m
      else if k = ''transaction'' then set_str (\<lambda>s. wm_Transaction_update (\<lambda>_. s)) j m
      else if k = ''pcid'' then set_str (\<lambda>s. wm_Pcid_update (\<lambda>_. s)) j m
      else if k = ''data'' then set_raw (\<lambda>d. wm_Data_update (\<lambda>_. d)) j m
      else None)"

definition decode_webrtc :: "json \<Rightarrow> RTMTypeWebRTC option" where
  "decode_webrtc = decode_struct webrtc_fields set_webrtc_field zero_webrtc"

definition zero_chats :: RTMTypeChats where
  "zero_chats = \<lparr>cm_ID = 0, cm_Type = [], cm_Subtype = [], cm_Channel = [], cm_Profile = None,
     cm_Group = [], cm_Version = 0, cm_Data = None\<rparr>"

definition chats_fields :: "string list" where
  "chats_fields = [''id'', ''type'', ''subtype'', ''channel'', ''profile'', ''group'', ''v'', ''data'']"

definition set_chats_field :: "string \<Rightarrow> json \<Rightarrow> RTMTypeChats \<Rightarrow> RTMTypeChats option" where
  "set_chats_field k j m =
     (if k = ''id'' then set_u64 (\<lambda>n. cm_ID_update (\<lambda>_. n)) j m
      else if k = ''type'' then set_str (\<lambda>s. cm_Type_update (\<lambda>_. s)) j m
      else if k = ''subtype'' then set_str (\<lambda>s. cm_Subtype_update (\<lambda>_. s)) j m
      else if k = ''channel'' then set_str (\<lambda>s. cm_Channel_update (\<lambda>_. s)) j m
      else if k = ''profile'' then
        map_option (\<lambda>p. m\<lparr>cm_Profile := p\<rparr>) (decode_ptr decode_profile j)
      else if k = ''group'' then set_str (\<lambda>s. cm_Group_update (\<lambda>_. s)) j m
      else if k = ''v'' then set_u64 (\<lambda>n. cm_Version_update (\<lambda>_. n)) j m
      else if k = ''data'' then set_raw (\<lambda>d. cm_Data_update (\<lambda>_. d)) j m
      else None)"

definition decode_chats :: "json \<Rightarrow> RTMTypeChats option" where
  "decode_chats = decode_struct chats_fields set_chats_field zero_chats"

definition zero_accept :: RTMDataWebRTCAccept where
  "zero_accept = \<lparr>ac_Accept = False, ac_State = [], ac_Reason = []\<rparr>"

definition set_accept_field :: "string \<Rightarrow> json \<Rightarrow> RTMDataWebRTCAccept \<Rightarrow> RTMDataWebRTCAccept option" where
  "set_accept_field k j m =
     (if k = ''accept'' then set_bool (\<lambda>b. ac_Accept_update (\<lambda>_. b)) j m
      else if k = ''state'' then set_str (\<lambda>s. ac_State_update (\<lambda>_. s)) j m
      else if k = ''reason'' then set_str (\<lambda>s. ac_Reason_update (\<lambda>_. s)) j m
      else None)"

text \<open>Decoded into a pointer, so that \<open>null\<close> gives the nil pointer \<open>Some None\<close>.\<close>

definition decode_accept :: "json \<Rightarrow> RTMDataWebRTCAccept option option" where
  "decode_accept =
     decode_ptr (decode_struct [''accept'', ''state'', ''reason''] set_accept_field zero_accept)"

definition zero_chats_message :: RTMDataChatsMessage where
  "zero_chats_message = \<lparr>cd_Kind = [], cd_Sender = [], cd_Target = [], cd_TS = 0, cd_Text = [],
     cd_RichText = [], cd_ID = [], cd_Extra = None\<rparr>"

definition chats_message_fields :: "string list" where
  "chats_message_fields =
     [''kind'', ''sender'', ''target'', ''ts'', ''text'', ''richText'', ''id'', ''extra'']"

definition set_chats_message_field ::
  "string \<Rightarrow> json \<Rightarrow> RTMDataChatsMessage \<Rightarrow> RTMDataChatsMessage option" where
  "set_chats_message_field k j m =
     (if k = ''kind'' then set_str (\<lambda>s. cd_Kind_update (\<lambda>_. s)) j m
      else if k = ''sender'' then set_str (\<lambda>s. cd_Sender_update (\<lambda>_. s)) j m
      else if k = ''target'' then set_str (\<lambda>s. cd_Target_update (\<lambda>_. s)) j m
      else if k = ''ts'' then set_i64 (\<lambda>n. cd_TS_update (\<lambda>_. n)) j m
      else if k = ''text'' then set_str (\<lambda>s. cd_Text_update (\<lambda>_. s)) j m
      else if k = ''richText'' then set_str (\<lambda>s. cd_RichText_update (\<lambda>_. s)) j m
      else if k = ''id'' then set_str (\<lambda>s. cd_ID_update (\<lambda>_. s)) j m
      else if k = ''extra'' then set_map (\<lambda>e. cd_Extra_update (\<lambda>_. e)) j m
      else None)"

definition decode_chats_message :: "json \<Rightarrow> RTMDataChatsMessage option option" where
  "decode_chats_message =
     decode_ptr (decode_struct chats_message_fields set_chats_message_field zero_chats_message)"

section \<open>Encoding what the server sends\<close>

definition json_of_profile :: "RTMDataProfile \<Rightarrow> json" where
  "json_of_profile p = JObj (fld_str ''name'' (pr_Name p))"

definition json_of_webrtc :: "RTMTypeWebRTC \<Rightarrow> json" where
  "json_of_webrtc m = JObj (
     (if wm_Envelope m
      then fld_u64 ''id'' (wm_ID m) @ fld ''type'' (JStr (wm_Type m)) @ fld ''subtype'' (JStr (wm_Subtype m)) else []) @
     fld ''target'' (JStr (wm_Target m)) @ fld ''source'' (JStr (wm_Source m)) @
     fld_opt ''profile'' (map_option json_of_profile (wm_Profile m)) @
     fld_bool ''initiator'' (wm_Initiator m) @ fld_str ''state'' (wm_State m) @
     fld_str ''channel'' (wm_Channel m) @ fld_str ''group'' (wm_Group m) @ fld_str ''hash'' (wm_Hash m) @
     fld ''v'' (JNum (uint (wm_Version m))) @ fld_str ''transaction'' (wm_Transaction m) @
     fld_str ''pcid'' (wm_Pcid m) @ fld_opt ''data'' (map_option (\<lambda>j. j) (wm_Data m)))"

definition json_of_webrtc_reply :: "RTMTypeWebRTCReply \<Rightarrow> json" where
  "json_of_webrtc_reply m = JObj (
     fld ''type'' (JStr (wy_Type m)) @ fld ''subtype'' (JStr (wy_Subtype m)) @
     fld_u64 ''reply_to'' (wy_ReplyTo m) @ fld_str ''state'' (wy_State m) @
     fld_str ''channel'' (wy_Channel m) @ fld_str ''hash'' (wy_Hash m) @
     fld ''v'' (JNum (uint (wy_Version m))) @ fld_opt ''data'' (wy_Data m))"

definition json_of_chats :: "RTMTypeChats \<Rightarrow> json" where
  "json_of_chats m = JObj (
     fld_u64 ''id'' (cm_ID m) @ fld ''type'' (JStr (cm_Type m)) @ fld ''subtype'' (JStr (cm_Subtype m)) @
     fld ''channel'' (JStr (cm_Channel m)) @
     fld_opt ''profile'' (map_option json_of_profile (cm_Profile m)) @ fld_str ''group'' (cm_Group m) @
     fld ''v'' (JNum (uint (cm_Version m))) @ fld_opt ''data'' (map_option (\<lambda>j. j) (cm_Data m)))"

definition json_of_chats_reply :: "RTMTypeChatsReply \<Rightarrow> json" where
  "json_of_chats_reply m = JObj (
     fld ''type'' (JStr (cy_Type m)) @ fld ''subtype'' (JStr (cy_Subtype m)) @
     fld_u64 ''reply_to'' (cy_ReplyTo m) @ fld_str ''channel'' (cy_Channel m) @
     fld_str ''group'' (cy_Group m) @ fld ''v'' (JNum (uint (cy_Version m))) @ fld_opt ''data'' (cy_Data m))"

definition json_of_channel_group :: "RTMTDataWebRTCChannelGroup \<Rightarrow> json" where
  "json_of_channel_group g = JObj (
     fld ''group'' (JStr (cg_Group g)) @ fld ''members'' (JArr (map JStr (cg_Members g))) @
     fld ''reset'' (JBool (cg_Reset g)))"

definition json_of_channel_pipeline :: "RTMDataWebRTCChannelPipeline \<Rightarrow> json" where
  "json_of_channel_pipeline p = JObj (
     fld ''pipeline'' (JStr (cp_Pipeline p)) @ fld ''mode'' (JStr (cp_Mode p)))"

definition json_of_channel_extra :: "RTMDataWebRTCChannelExtra \<Rightarrow> json" where
  "json_of_channel_extra e = JObj (
     fld_opt ''group'' (map_option json_of_channel_group (ce_Group e)) @
     fld_opt ''pipeline'' (map_option json_of_channel_pipeline (ce_Pipeline e)) @
     fld_bool ''replaced'' (ce_Replaced e))"

definition json_of_chats_message :: "RTMDataChatsMessage \<Rightarrow> json" where
  "json_of_chats_message m = JObj (
     fld ''kind'' (JStr (cd_Kind m)) @ fld ''sender'' (JStr (cd_Sender m)) @
     fld ''target'' (JStr (cd_Target m)) @ fld ''ts'' (JNum (cd_TS m)) @ fld ''text'' (JStr (cd_Text m)) @
     fld_str ''richText'' (cd_RichText m) @ fld ''id'' (JStr (cd_ID m)) @
     (case cd_Extra m of None \<Rightarrow> [] | Some e \<Rightarrow> if e = [] then [] else fld ''extra'' (JObj e)))"

definition json_of_error :: "RTMTypeError \<Rightarrow> json" where
  "json_of_error e = JObj (
     fld ''type'' (JStr (er_Type e)) @ fld_u64 ''reply_to'' (er_ReplyTo e) @
     fld ''error'' (case er_ErrorData e of None \<Rightarrow> JNull
       | Some d \<Rightarrow> JObj (fld ''code'' (JStr (ed_Code d)) @ fld ''msg'' (JStr (ed_Msg d)))))"

definition json_of_status :: "ServerStatus \<Rightarrow> json" where
  "json_of_status s =
     JObj (fld_opt ''kustomer'' (map_option (\<lambda>p. JNum (uint (ptr_val p))) (ss_Kustomer s)))"

definition json_of_self :: "Self \<Rightarrow> json" where
  "json_of_self s = JObj (
     fld ''id'' (JStr (self_ID s)) @ fld ''name'' (JStr (self_Name s)) @ fld ''auth'' (JStr (self_Auth s)))"

text \<open>
  The tag of \<open>ServerStatus\<close> in the hello message reads \<open>omitempt\<close>, which is no option of
  \<open>encoding/json\<close>, so the member is always emitted.
\<close>

definition json_of_hello :: "RTMTypeHello \<Rightarrow> json" where
  "json_of_hello h = JObj (
     fld ''type'' (JStr (he_Type h)) @ fld_opt ''self'' (map_option json_of_self (he_Self h)) @
     fld ''server_status'' (case he_ServerStatus h of None \<Rightarrow> JNull | Some s \<Rightarrow> json_of_status s))"

section \<open>Lemmas\<close>

lemma decode_profile_of_json: "decode_profile (json_of_profile p) = Some p"
  by (cases p)
    (simp add: decode_profile_def json_of_profile_def decode_struct_def fld_str_def set_str_def
      zero_profile_def)

text \<open>
  The fields of a message are stored one after the other; each fact below decodes one emitted
  field into a record that still holds the field's zero value, so that a round trip is a chain of
  record updates.
\<close>

lemma set_webrtc_field_simps:
  "set_webrtc_field ''id'' j m = set_u64 (\<lambda>n. wm_ID_update (\<lambda>_. n)) j (m\<lparr>wm_Envelope := True\<rparr>)"
  "set_webrtc_field ''type'' j m = set_str (\<lambda>s. wm_Type_update (\<lambda>_. s)) j (m\<lparr>wm_Envelope := True\<rparr>)"
  "set_webrtc_field ''subtype'' j m = set_str (\<lambda>s. wm_Subtype_update (\<lambda>_. s)) j (m\<lparr>wm_Envelope := True\<rparr>)"
  "set_webrtc_field ''target'' j m = set_str (\<lambda>s. wm_Target_update (\<lambda>_. s)) j m"
  "set_webrtc_field ''source'' j m = set_str (\<lambda>s. wm_Source_update (\<lambda>_. s)) j m"
  "set_webrtc_field ''profile'' j m =
     map_option (\<lambda>p. m\<lparr>wm_Profile := p\<rparr>) (decode_ptr decode_profile j)"
  "set_webrtc_field ''initiator'' j m = set_bool (\<lambda>b. wm_Initiator_update (\<lambda>_. b)) j m"
  "set_webrtc_field ''state'' j m = set_str (\<lambda>s. wm_State_update (\<lambda>_. s)) j m"
  "set_webrtc_field ''channel'' j m = set_str (\<lambda>s. wm_Channel_update (\<lambda>_. s)) j m"
  "set_webrtc_field ''group'' j m = set_str (\<lambda>s. wm_Group_update (\<lambda>_. s)) j m"
  "set_webrtc_field ''hash'' j m = set_str (\<lambda>s. wm_Hash_update (\<lambda>_. s)) j m"
  "set_webrtc_field ''v'' j m = set_u64 (\<lambda>n. wm_Version_update (\<lambda>_. n)) j m"
  "set_webrtc_field ''transaction'' j m = set_str (\<lambda>s. wm_Transaction_update (\<lambda>_. s)) j m"
  "set_webrtc_field ''pcid'' j m = set_str (\<lambda>s. wm_Pcid_update (\<lambda>_. s)) j m"
  "set_webrtc_field ''data'' j m = set_raw (\<lambda>d. wm_Data_update (\<lambda>_. d)) j m"
  by (simp_all add: set_webrtc_field_def)

lemma decode_ptr_profile: "decode_ptr decode_profile (json_of_profile p) = Some (Some p)"
  using decode_profile_of_json [of p] by (simp add: json_of_profile_def)

abbreviation webrtc_dec :: "(string \<times> json) list \<Rightarrow> RTMTypeWebRTC \<Rightarrow> RTMTypeWebRTC option" where
  "webrtc_dec \<equiv> decode_fields webrtc_fields set_webrtc_field"

lemma in_webrtc_fields:
  "''id'' \<in> set webrtc_fields" "''type'' \<in> set webrtc_fields" "''subtype'' \<in> set webrtc_fields"
  "''target'' \<in> set webrtc_fields" "''source'' \<in> set webrtc_fields" "''profile'' \<in> set webrtc_fields"
  "''initiator'' \<in> set webrtc_fields" "''state'' \<in> set webrtc_fields" "''channel'' \<in> set webrtc_fields"
  "''group'' \<in> set webrtc_fields" "''hash'' \<in> set webrtc_fields" "''v'' \<in> set webrtc_fields"
  "''transaction'' \<in> set webrtc_fields" "''pcid'' \<in> set webrtc_fields" "''data'' \<in> set webrtc_fields"
  by (simp_all add: webrtc_fields_def)

lemma webrtc_dec_steps:
  "webrtc_dec (fld ''type'' (JStr s)) r = Some (r\<lparr>wm_Envelope := True, wm_Type := s\<rparr>)"
  "webrtc_dec (fld ''subtype'' (JStr s)) r = Some (r\<lparr>wm_Envelope := True, wm_Subtype := s\<rparr>)"
  "webrtc_dec (fld ''target'' (JStr s)) r = Some (r\<lparr>wm_Target := s\<rparr>)"
  "webrtc_dec (fld ''source'' (JStr s)) r = Some (r\<lparr>wm_Source := s\<rparr>)"
  "wm_Profile r = None \<Longrightarrow>
     webrtc_dec (fld_opt ''profile'' (map_option json_of_profile p)) r = Some (r\<lparr>wm_Profile := p\<rparr>)"
  "wm_Initiator r = False \<Longrightarrow> webrtc_dec (fld_bool ''initiator'' b) r = Some (r\<lparr>wm_Initiator := b\<rparr>)"
  "wm_State r = [] \<Longrightarrow> webrtc_dec (fld_str ''state'' s) r = Some (r\<lparr>wm_State := s\<rparr>)"
  "wm_Channel r = [] \<Longrightarrow> webrtc_dec (fld_str ''channel'' s) r = Some (r\<lparr>wm_Channel := s\<rparr>)"
  "wm_Group r = [] \<Longrightarrow> webrtc_dec (fld_str ''group'' s) r = Some (r\<lparr>wm_Group := s\<rparr>)"
  "wm_Hash r = [] \<Longrightarrow> webrtc_dec (fld_str ''hash'' s) r = Some (r\<lparr>wm_Hash := s\<rparr>)"
  "webrtc_dec (fld ''v'' (JNum (uint n))) r = Some (r\<lparr>wm_Version := n\<rparr>)"
  "wm_Transaction r = [] \<Longrightarrow> webrtc_dec (fld_str ''transaction'' s) r = Some (r\<lparr>wm_Transaction := s\<rparr>)"
  "wm_Pcid r = [] \<Longrightarrow> webrtc_dec (fld_str ''pcid'' s) r = Some (r\<lparr>wm_Pcid := s\<rparr>)"
  "wm_Data r = None \<Longrightarrow> webrtc_dec (fld_opt ''data'' (map_option (\<lambda>j. j) d)) r = Some (r\<lparr>wm_Data := d\<rparr>)"
  by ((rule decode_fld decode_fld_opt [where f = "\<lambda>p. wm_Profile_update (\<lambda>_. p)"]
        decode_fld_bool [where f = "\<lambda>b. wm_Initiator_update (\<lambda>_. b)"]
        decode_fld_str [where f = "\<lambda>s. wm_State_update (\<lambda>_. s)"]
        decode_fld_str [where f = "\<lambda>s. wm_Channel_update (\<lambda>_. s)"]
        decode_fld_str [where f = "\<lambda>s. wm_Group_update (\<lambda>_. s)"]
        decode_fld_str [where f = "\<lambda>s. wm_Hash_update (\<lambda>_. s)"]
        decode_fld_str [where f = "\<lambda>s. wm_Transaction_update (\<lambda>_. s)"]
        decode_fld_str [where f = "\<lambda>s. wm_Pcid_update (\<lambda>_. s)"]
        decode_fld_opt [where f = "\<lambda>d. wm_Data_update (\<lambda>_. d)"];
      simp add: in_webrtc_fields set_webrtc_field_simps set_str_def set_bool_def set_raw_def
        decode_ptr_profile))+

lemma webrtc_dec_id:
  "wm_ID r = 0 \<Longrightarrow> webrtc_dec (fld_u64 ''id'' n) r = Some (if n = 0 then r else r\<lparr>wm_Envelope := True, wm_ID := n\<rparr>)"
  using decode_fld [of "''id''" webrtc_fields set_webrtc_field "JNum (uint n)" r "r\<lparr>wm_Envelope := True, wm_ID := n\<rparr>"]
  by (cases "n = 0") (simp_all add: fld_u64_def in_webrtc_fields set_webrtc_field_simps)

text \<open>A message reads back as it was written, if it has an envelope or nothing that the envelope would hold.\<close>

lemma decode_webrtc_of_json:
  assumes "wm_Envelope m \<or> wm_ID m = 0 \<and> wm_Type m = [] \<and> wm_Subtype m = []"
  shows "decode_webrtc (json_of_webrtc m) = Some m"
proof (cases m)
  case (fields e i ty st ta so p ini sta ch gr ha v tr pc d)
  then show ?thesis using assms
    by (auto simp: decode_webrtc_def json_of_webrtc_def decode_struct_def zero_webrtc_def
        decode_fields_append webrtc_dec_steps webrtc_dec_id simp del: decode_fields.simps(2))
qed

end
