(* ===== verification/Connection.thy ===== *)
theory Connection
  imports Api
begin

text \<open>
  \<open>src/signaling/connection/connection.go\<close>: one websocket connection with its bounded send queue,
  its closed flag and callbacks, its ping book-keeping and its transaction table. The record is
  generic in the payload, the bound value, the closed callbacks and the transaction callbacks,
  since the package is generic in its manager. What the package hands to the websocket library is
  recorded in the fields \<open>ws_\<close>; the library's own results (a failed write, a broken read) are
  arguments.

  The last section refines \<open>RawSend\<close> and \<open>Close\<close> to single lock operations, with any number of
  threads, and shows that no thread sends on the closed Go channel or closes it twice.
\<close>

section \<open>State\<close>

definition websocketMaxMessageSize :: nat where "websocketMaxMessageSize = 1048576"
definition websocketWriteWait :: duration where "websocketWriteWait = 10 * second"
definition websocketPongWait :: duration where "websocketPongWait = 60 * second"
definition websocketPingPeriod :: duration where "websocketPingPeriod = websocketPongWait * 9 div 10"

text \<open>Capacities of the buffered Go channels \<open>send\<close> and \<open>ping\<close>.\<close>

definition sendCap :: nat where "sendCap = 256"
definition pingCap :: nat where "pingCap = 5"

record pingRecord =
  pg_id :: u64
  pg_when :: time

datatype 'p frame = TextFrame 'p | PingFrame string | CloseGoingAway

record ('p, 'b, 'cb, 'tcb) connection =
  cn_send :: "'p list"
  cn_sendClosed :: bool
  cn_closed :: bool
  cn_id :: string
  cn_start :: time
  cn_duration :: duration
  cn_ping :: "pingRecord list"
  cn_pingid :: u64
  cn_binder :: "'b option"
  cn_onClosedCallbacks :: "'cb list"
  cn_transactions :: "(string, 'tcb) gomap"
  ws_out :: "'p frame list"
  ws_readDeadline :: time
  ws_closed :: bool

definition conn_New :: "string \<Rightarrow> time \<Rightarrow> ('p, 'b, 'cb, 'tcb) connection" where
  "conn_New cid now = \<lparr>cn_send = [], cn_sendClosed = False, cn_closed = False, cn_id = cid,
     cn_start = now, cn_duration = 0, cn_ping = [], cn_pingid = 0, cn_binder = None,
     cn_onClosedCallbacks = [], cn_transactions = [], ws_out = [], ws_readDeadline = zero_time,
     ws_closed = False\<rparr>"

section \<open>Sending and closing\<close>

definition RawSend ::
  "'p \<Rightarrow> ('p, 'b, 'cb, 'tcb) connection \<Rightarrow> string + ('p, 'b, 'cb, 'tcb) connection" where
  "RawSend payload c =
     (if cn_closed c then Inl ''send to closed connection''
      else if length (cn_send c) < sendCap then Inr (c\<lparr>cn_send := cn_send c @ [payload]\<rparr>)
      else Inl ''queue full'')"

text \<open>\<open>SendTransaction\<close> registers the callback before the message is queued, even if queueing fails.\<close>

definition SendTransaction ::
  "string \<Rightarrow> 'p \<Rightarrow> 'tcb \<Rightarrow> ('p, 'b, 'cb, 'tcb) connection \<Rightarrow>
   string option \<times> ('p, 'b, 'cb, 'tcb) connection" where
  "SendTransaction tid message cb c =
     (let c1 = (if tid = [] then c else c\<lparr>cn_transactions := gm_set tid cb (cn_transactions c)\<rparr>)
      in case RawSend message c1 of Inl e \<Rightarrow> (Some e, c1) | Inr c2 \<Rightarrow> (None, c2))"

text \<open>The callback of a transaction is handed out once: it is removed from the table.\<close>

definition Transaction ::
  "string \<Rightarrow> (unit \<Rightarrow> 'tcb option) option \<Rightarrow> ('p, 'b, 'cb, 'tcb) connection \<Rightarrow>
   'tcb option \<times> ('p, 'b, 'cb, 'tcb) connection" where
  "Transaction tid fallback c =
     (if tid = [] then (None, c)
      else case gm_get (cn_transactions c) tid of
        Some cb \<Rightarrow> (Some cb, c\<lparr>cn_transactions := gm_del tid (cn_transactions c)\<rparr>)
      | None \<Rightarrow> (case fallback of Some f \<Rightarrow> f () | None \<Rightarrow> None, c))"

text \<open>\<open>Close\<close> returns the callbacks it runs, in the order of registration; a second call runs none.\<close>

definition conn_Close ::
  "time \<Rightarrow> ('p, 'b, 'cb, 'tcb) connection \<Rightarrow> 'cb list \<times> ('p, 'b, 'cb, 'tcb) connection" where
  "conn_Close now c =
     (if cn_closed c then ([], c)
      else (cn_onClosedCallbacks c,
            c\<lparr>cn_closed := True, cn_sendClosed := True, cn_duration := now - cn_start c,
              cn_onClosedCallbacks := []\<rparr>))"

definition OnClosed :: "'cb \<Rightarrow> ('p, 'b, 'cb, 'tcb) connection \<Rightarrow> ('p, 'b, 'cb, 'tcb) connection" where
  "OnClosed cb c = c\<lparr>cn_onClosedCallbacks := cn_onClosedCallbacks c @ [cb]\<rparr>"

definition IsClosed :: "('p, 'b, 'cb, 'tcb) connection \<Rightarrow> bool" where
  "IsClosed c = cn_closed c"

definition conn_Duration :: "time \<Rightarrow> ('p, 'b, 'cb, 'tcb) connection \<Rightarrow> duration" where
  "conn_Duration now c = (if cn_duration c > 0 then cn_duration c else now - cn_start c)"

definition Bind :: "'b option \<Rightarrow> ('p, 'b, 'cb, 'tcb) connection \<Rightarrow> ('p, 'b, 'cb, 'tcb) connection" where
  "Bind b c = c\<lparr>cn_binder := b\<rparr>"

definition Bound :: "('p, 'b, 'cb, 'tcb) connection \<Rightarrow> 'b option" where
  "Bound c = cn_binder c"

definition conn_ID :: "('p, 'b, 'cb, 'tcb) connection \<Rightarrow> string" where
  "conn_ID c = cn_id c"

section \<open>Pings\<close>

text \<open>\<open>binary.LittleEndian\<close> on eight bytes; reading a shorter slice panics.\<close>

primrec le_bytes_nat :: "nat \<Rightarrow> nat \<Rightarrow> string" where
  "le_bytes_nat 0 n = []"
| "le_bytes_nat (Suc k) n = char_of (n mod 256) # le_bytes_nat k (n div 256)"

primrec le_value :: "string \<Rightarrow> nat" where
  "le_value [] = 0"
| "le_value (c # cs) = of_char c + 256 * le_value cs"

definition PutUint64 :: "u64 \<Rightarrow> string" where
  "PutUint64 n = le_bytes_nat 8 (unat n)"

definition Uint64 :: "string \<Rightarrow> u64 option" where
  "Uint64 b = (if length b < 8 then None else Some (of_nat (le_value (take 8 b))))"

datatype 'c pong_result = PongPanic | PongDone 'c

definition pongHandler ::
  "time \<Rightarrow> string \<Rightarrow> ('p, 'b, 'cb, 'tcb) connection \<Rightarrow> ('p, 'b, 'cb, 'tcb) connection pong_result" where
  "pongHandler now payload c =
     (if payload = [] then PongDone c
      else let pings = cn_ping c; c1 = c\<lparr>cn_ping := []\<rparr>
        in if pings = [] then PongDone c1
           else case Uint64 payload of
             None \<Rightarrow> PongPanic
           | Some payloadInt \<Rightarrow>
               if payloadInt \<noteq> pg_id (last pings) then PongDone c1
               else PongDone (c1\<lparr>ws_readDeadline := now + websocketPongWait\<rparr>))"

section \<open>The write pump\<close>

text \<open>
  One iteration of the loop of \<open>writePump\<close> per case of its \<open>select\<close>: the loop goes on with a new
  connection state, or leaves with the error the deferred function passes to
  \<open>OnBeforeDisconnect\<close>. The result of the websocket library's write is an argument
  (\<open>None\<close> for success).
\<close>

datatype 'c pump_result = PumpContinue 'c | PumpExit "string option" 'c

definition conn_Write ::
  "'p \<Rightarrow> string option \<Rightarrow> ('p, 'b, 'cb, 'tcb) connection \<Rightarrow>
   string option \<times> ('p, 'b, 'cb, 'tcb) connection" where
  "conn_Write payload wsErr c =
     (case wsErr of
        None \<Rightarrow> (None, c\<lparr>ws_out := ws_out c @ [TextFrame payload]\<rparr>)
      | Some e \<Rightarrow> (Some e, c))"

text \<open>The receive case: \<open>None\<close> when the channel is empty and open, so that the case is not ready.\<close>

definition pump_receive ::
  "string option \<Rightarrow> ('p, 'b, 'cb, 'tcb) connection \<Rightarrow> ('p, 'b, 'cb, 'tcb) connection pump_result option" where
  "pump_receive wsErr c =
     (case cn_send c of
        [] \<Rightarrow> if cn_sendClosed c then Some (PumpExit (Some ''send channel closed'') c) else None
      | payload # rest \<Rightarrow>
          (case conn_Write payload wsErr (c\<lparr>cn_send := rest\<rparr>) of
             (None, c1) \<Rightarrow> Some (PumpContinue c1)
           | (Some e, c1) \<Rightarrow> Some (PumpExit (Some e) c1)))"

definition pump_tick ::
  "time \<Rightarrow> string option \<Rightarrow> ('p, 'b, 'cb, 'tcb) connection \<Rightarrow> ('p, 'b, 'cb, 'tcb) connection pump_result" where
  "pump_tick now wsErr c =
     (let n = cn_pingid c + 1; c1 = c\<lparr>cn_pingid := n\<rparr>
      in if length (cn_ping c1) < pingCap then
           let c2 = c1\<lparr>cn_ping := cn_ping c1 @ [\<lparr>pg_id = n, pg_when = now\<rparr>]\<rparr>
           in case wsErr of
                None \<Rightarrow> PumpContinue (c2\<lparr>ws_out := ws_out c2 @ [PingFrame (PutUint64 n)]\<rparr>)
              | Some e \<Rightarrow> PumpExit (Some e) c2
         else PumpExit None c1)"

text \<open>
  The deferred function, after \<open>OnBeforeDisconnect\<close>: a close frame, unless \<open>WriteControl\<close> fails (\<open>errClose\<close>), then
  \<open>ws.Close()\<close>.
\<close>

definition pump_shutdown ::
  "string option \<Rightarrow> ('p, 'b, 'cb, 'tcb) connection \<Rightarrow> ('p, 'b, 'cb, 'tcb) connection" where
  "pump_shutdown errClose c =
     c\<lparr>ws_out := (if errClose = None then ws_out c @ [CloseGoingAway] else ws_out c), ws_closed := True\<rparr>"

text \<open>The start of \<open>readPump\<close>: the first read deadline.\<close>

definition readPump_start ::
  "time \<Rightarrow> ('p, 'b, 'cb, 'tcb) connection \<Rightarrow> ('p, 'b, 'cb, 'tcb) connection" where
  "readPump_start now c = c\<lparr>ws_readDeadline := now + websocketPongWait\<rparr>"

section \<open>The send queue as a bounded queue\<close>

text \<open>
  The contract between the senders and the write pump: an accepted payload goes to the end of the
  queue, the pump takes from its front, and the queue never holds more than its capacity.
\<close>

datatype 'p queue_op = Enq 'p | Deq

fun queue_run ::
  "('p \<Rightarrow> 'q \<Rightarrow> 'q option) \<Rightarrow> ('q \<Rightarrow> ('p \<times> 'q) option) \<Rightarrow> 'p queue_op list \<Rightarrow> 'q \<Rightarrow>
   'p list \<times> 'p list \<times> 'q" where
  "queue_run enq deq [] q = ([], [], q)"
| "queue_run enq deq (Enq p # ops) q =
     (case enq p q of
        None \<Rightarrow> queue_run enq deq ops q
      | Some q1 \<Rightarrow> (case queue_run enq deq ops q1 of (acc, del, q2) \<Rightarrow> (p # acc, del, q2)))"
| "queue_run enq deq (Deq # ops) q =
     (case deq q of
        None \<Rightarrow> queue_run enq deq ops q
      | Some (p, q1) \<Rightarrow> (case queue_run enq deq ops q1 of (acc, del, q2) \<Rightarrow> (acc, p # del, q2)))"

locale bounded_queue =
  fixes enq :: "'p \<Rightarrow> 'q \<Rightarrow> 'q option"
    and deq :: "'q \<Rightarrow> ('p \<times> 'q) option"
    and contents :: "'q \<Rightarrow> 'p list"
    and cap :: nat
  assumes enq_contents: "enq p q = Some q' \<Longrightarrow> contents q' = contents q @ [p]"
    and enq_room: "enq p q = Some q' \<Longrightarrow> length (contents q) < cap"
    and deq_contents: "deq q = Some (p, q') \<Longrightarrow> contents q = p # contents q'"
begin

lemma run_fifo:
  "queue_run enq deq ops q = (acc, del, q') \<Longrightarrow> del @ contents q' = contents q @ acc"
proof (induction ops arbitrary: q acc del)
  case (Cons op ops)
  show ?case
  proof (cases op)
    case (Enq p)
    with Cons show ?thesis
      by (fastforce split: option.splits prod.splits dest: enq_contents)
  next
    case Deq
    with Cons show ?thesis
      by (fastforce split: option.splits prod.splits dest: deq_contents)
  qed
qed simp

lemma run_bounded:
  "queue_run enq deq ops q = (acc, del, q') \<Longrightarrow> length (contents q) \<le> cap \<Longrightarrow>
   length (contents q') \<le> cap"
proof (induction ops arbitrary: q acc del)
  case (Cons op ops)
  show ?case
  proof (cases op)
    case (Enq p)
    show ?thesis
    proof (cases "enq p q")
      case None
      with Cons Enq show ?thesis by simp
    next
      case (Some q1)
      then have "length (contents q1) \<le> cap"
        using enq_contents [OF Some] enq_room [OF Some] by simp
      moreover obtain acc1 del1 where "queue_run enq deq ops q1 = (acc1, del1, q')"
        using Cons.prems(1) Enq Some by (auto split: prod.splits)
      ultimately show ?thesis
        by (blast intro: Cons.IH)
    qed
  next
    case Deq
    with Cons show ?thesis
      by (fastforce split: option.splits prod.splits dest: deq_contents)
  qed
qed simp

end

definition conn_enq ::
  "'p \<Rightarrow> ('p, 'b, 'cb, 'tcb) connection \<Rightarrow> ('p, 'b, 'cb, 'tcb) connection option" where
  "conn_enq p c = (case RawSend p c of Inl _ \<Rightarrow> None | Inr c' \<Rightarrow> Some c')"

definition conn_deq ::
  "('p, 'b, 'cb, 'tcb) connection \<Rightarrow> ('p \<times> ('p, 'b, 'cb, 'tcb) connection) option" where
  "conn_deq c =
     (case pump_receive None c of
        Some (PumpContinue c') \<Rightarrow> (case last (ws_out c') of TextFrame p \<Rightarrow> Some (p, c') | _ \<Rightarrow> None)
      | _ \<Rightarrow> None)"

lemma RawSend_Inr:
  "RawSend p c = Inr c' \<longleftrightarrow>
     \<not> cn_closed c \<and> length (cn_send c) < sendCap \<and> c' = c\<lparr>cn_send := cn_send c @ [p]\<rparr>"
  by (auto simp: RawSend_def split: if_splits)

interpretation conn_queue: bounded_queue conn_enq conn_deq cn_send sendCap
proof unfold_locales
  fix p :: 'p and q q' :: "('p, 'b, 'cb, 'tcb) connection"
  assume "conn_enq p q = Some q'"
  then show "cn_send q' = cn_send q @ [p]" and "length (cn_send q) < sendCap"
    by (auto simp: conn_enq_def RawSend_Inr split: sum.splits)
next
  fix p :: 'p and q q' :: "('p, 'b, 'cb, 'tcb) connection"
  assume "conn_deq q = Some (p, q')"
  then show "cn_send q = p # cn_send q'"
    by (auto simp: conn_deq_def pump_receive_def conn_Write_def split: list.splits if_splits)
qed

section \<open>Lemmas\<close>

lemmas conn_op_defs = RawSend_def conn_Close_def OnClosed_def Bind_def

lemma le_value_bytes: "le_value (le_bytes_nat k n) = n mod 256 ^ k"
proof (induction k arbitrary: n)
  case (Suc k)
  have "n mod 256 ^ Suc k = n mod 256 + 256 * (n div 256 mod 256 ^ k)"
    by (simp add: mod_mult2_eq)
  then show ?case
    by (simp add: Suc.IH)
qed simp

lemma length_le_bytes_nat [simp]: "length (le_bytes_nat k n) = k"
  by (induction k arbitrary: n) auto

lemma Uint64_PutUint64: "Uint64 (PutUint64 n) = Some n"
proof -
  have "unat n < 256 ^ 8"
    using unsigned_less [of n, where 'a = nat] by simp
  then show ?thesis
    by (simp add: Uint64_def PutUint64_def le_value_bytes)
qed

lemma Close_idempotent: "conn_Close t2 (snd (conn_Close t1 c)) = ([], snd (conn_Close t1 c))"
  by (simp add: conn_Close_def)

lemma RawSend_after_Close: "RawSend p (snd (conn_Close now c)) = Inl ''send to closed connection''"
  by (simp add: RawSend_def conn_Close_def)

section \<open>Locks: senders against the closer\<close>

text \<open>
  \<open>RawSend\<close> and \<open>Close\<close> as sequences of the lock operations, flag accesses and channel operations
  they perform, interleaved by any number of threads. A thread between its steps is at a program
  counter: \<open>S_\<close> inside \<open>RawSend\<close>, \<open>C_\<close> inside \<open>Close\<close>. Sending on a closed Go channel and closing
  it again both panic.
\<close>

datatype conn_pc =
    PcIdle
  | S_RLocked | S_Checked | S_Sent
  | C_Locked | C_Marked | C_Unlocked | C_ChanClosed | C_Relocked

record conn_locks =
  cl_pc :: "nat \<Rightarrow> conn_pc"
  cl_readers :: "nat set"
  cl_writer :: "nat option"
  cl_closed :: bool
  cl_chanClosed :: bool
  cl_panic :: bool

definition conn_locks_init :: "conn_locks \<Rightarrow> bool" where
  "conn_locks_init s \<longleftrightarrow> s = \<lparr>cl_pc = (\<lambda>_. PcIdle), cl_readers = {}, cl_writer = None,
     cl_closed = False, cl_chanClosed = False, cl_panic = False\<rparr>"

inductive conn_lock_step :: "conn_locks \<Rightarrow> conn_locks \<Rightarrow> bool" where
  send_rlock: "cl_pc s i = PcIdle \<Longrightarrow> cl_writer s = None \<Longrightarrow>
    conn_lock_step s (s\<lparr>cl_pc := (cl_pc s)(i := S_RLocked), cl_readers := insert i (cl_readers s)\<rparr>)"
| send_reject: "cl_pc s i = S_RLocked \<Longrightarrow> cl_closed s \<Longrightarrow>
    conn_lock_step s (s\<lparr>cl_pc := (cl_pc s)(i := PcIdle), cl_readers := cl_readers s - {i}\<rparr>)"
| send_check: "cl_pc s i = S_RLocked \<Longrightarrow> \<not> cl_closed s \<Longrightarrow>
    conn_lock_step s (s\<lparr>cl_pc := (cl_pc s)(i := S_Checked)\<rparr>)"
| send_chan: "cl_pc s i = S_Checked \<Longrightarrow>
    conn_lock_step s (s\<lparr>cl_pc := (cl_pc s)(i := S_Sent), cl_panic := cl_panic s \<or> cl_chanClosed s\<rparr>)"
| send_runlock: "cl_pc s i = S_Sent \<Longrightarrow>
    conn_lock_step s (s\<lparr>cl_pc := (cl_pc s)(i := PcIdle), cl_readers := cl_readers s - {i}\<rparr>)"
| close_lock: "cl_pc s i = PcIdle \<Longrightarrow> cl_writer s = None \<Longrightarrow> cl_readers s = {} \<Longrightarrow>
    conn_lock_step s (s\<lparr>cl_pc := (cl_pc s)(i := C_Locked), cl_writer := Some i\<rparr>)"
| close_already: "cl_pc s i = C_Locked \<Longrightarrow> cl_closed s \<Longrightarrow>
    conn_lock_step s (s\<lparr>cl_pc := (cl_pc s)(i := PcIdle), cl_writer := None\<rparr>)"
| close_mark: "cl_pc s i = C_Locked \<Longrightarrow> \<not> cl_closed s \<Longrightarrow>
    conn_lock_step s (s\<lparr>cl_pc := (cl_pc s)(i := C_Marked), cl_closed := True\<rparr>)"
| close_unlock: "cl_pc s i = C_Marked \<Longrightarrow>
    conn_lock_step s (s\<lparr>cl_pc := (cl_pc s)(i := C_Unlocked), cl_writer := None\<rparr>)"
| close_chan: "cl_pc s i = C_Unlocked \<Longrightarrow>
    conn_lock_step s (s\<lparr>cl_pc := (cl_pc s)(i := C_ChanClosed), cl_panic := cl_panic s \<or> cl_chanClosed s,
      cl_chanClosed := True\<rparr>)"
| close_relock: "cl_pc s i = C_ChanClosed \<Longrightarrow> cl_writer s = None \<Longrightarrow> cl_readers s = {} \<Longrightarrow>
    conn_lock_step s (s\<lparr>cl_pc := (cl_pc s)(i := C_Relocked), cl_writer := Some i\<rparr>)"
| close_done: "cl_pc s i = C_Relocked \<Longrightarrow>
    conn_lock_step s (s\<lparr>cl_pc := (cl_pc s)(i := PcIdle), cl_writer := None\<rparr>)"

text \<open>
  The invariant: the lock's owners are the threads whose program counter says so, readers exclude
  the writer, a sender that passed its check sees an open connection, and at most one thread is on
  its way to close the channel.
\<close>

definition closing_pcs :: "conn_pc set" where
  "closing_pcs = {C_Marked, C_Unlocked}"

definition conn_lock_inv :: "conn_locks \<Rightarrow> bool" where
  "conn_lock_inv s \<longleftrightarrow>
     (\<forall>i. i \<in> cl_readers s \<longleftrightarrow> cl_pc s i \<in> {S_RLocked, S_Checked, S_Sent}) \<and>
     (\<forall>i. cl_writer s = Some i \<longleftrightarrow> cl_pc s i \<in> {C_Locked, C_Marked, C_Relocked}) \<and>
     (cl_writer s \<noteq> None \<longrightarrow> cl_readers s = {}) \<and>
     (cl_chanClosed s \<longrightarrow> cl_closed s) \<and>
     (\<forall>i. cl_pc s i = S_Checked \<longrightarrow> \<not> cl_closed s) \<and>
     (\<forall>i. cl_pc s i \<in> closing_pcs \<longrightarrow> cl_closed s \<and> \<not> cl_chanClosed s) \<and>
     (\<forall>i j. cl_pc s i \<in> closing_pcs \<longrightarrow> cl_pc s j \<in> closing_pcs \<longrightarrow> i = j) \<and>
     \<not> cl_panic s"

lemma conn_lock_inv_step: "conn_lock_inv s \<Longrightarrow> conn_lock_step s t \<Longrightarrow> conn_lock_inv t"
  by (erule conn_lock_step.cases; clarsimp simp: conn_lock_inv_def closing_pcs_def split: if_splits;
      metis empty_iff option.inject conn_pc.distinct)

interpretation conn_lock: invariant_system conn_locks_init conn_lock_step conn_lock_inv
proof unfold_locales
  fix s assume "conn_locks_init s"
  then show "conn_lock_inv s"
    by (simp add: conn_locks_init_def conn_lock_inv_def closing_pcs_def)
next
  fix s t assume "conn_lock_inv s" and "conn_lock_step s t"
  then show "conn_lock_inv t"
    by (rule conn_lock_inv_step)
qed

end
