(* ===== verification/Http.thy ===== *)
theory Http
  imports Api
begin

text \<open>
  What the handlers see of an HTTP request and what they write to the response: the first value of
  a form parameter, the \<open>Authorization\<close> header, the JSON value of the body, and the sequence of
  writes, of which the first decides the status the client sees.
\<close>

record http_request =
  rq_method :: string
  rq_authorization :: string
  rq_form :: "(string, string) gomap"
  rq_body :: "string + json option"

definition form_get :: "string \<Rightarrow> http_request \<Rightarrow> string" where
  "form_get k req = (case gm_get (rq_form req) k of None \<Rightarrow> [] | Some v \<Rightarrow> v)"

definition form_set :: "string \<Rightarrow> string \<Rightarrow> http_request \<Rightarrow> http_request" where
  "form_set k v req = req\<lparr>rq_form := gm_set k v (rq_form req)\<rparr>"

datatype 'b http_write = HttpError string nat | HttpStatus nat | HttpJson 'b

definition StatusOK :: nat where "StatusOK = 200"
definition StatusNoContent :: nat where "StatusNoContent = 204"
definition StatusBadRequest :: nat where "StatusBadRequest = 400"
definition StatusForbidden :: nat where "StatusForbidden = 403"
definition StatusNotFound :: nat where "StatusNotFound = 404"
definition StatusMethodNotAllowed :: nat where "StatusMethodNotAllowed = 405"
definition StatusInternalServerError :: nat where "StatusInternalServerError = 500"
definition StatusNotImplemented :: nat where "StatusNotImplemented = 501"
definition StatusServiceUnavailable :: nat where "StatusServiceUnavailable = 503"

lemmas http_status_defs = StatusOK_def StatusNoContent_def StatusBadRequest_def StatusForbidden_def
  StatusNotFound_def StatusMethodNotAllowed_def StatusInternalServerError_def
  StatusNotImplemented_def StatusServiceUnavailable_def

definition http_NotFound :: "'b http_write" where
  "http_NotFound = HttpError ''404 page not found'' StatusNotFound"

text \<open>A handler's result: what it wrote, or a panic (which \<open>net/http\<close> turns into an aborted response).\<close>

datatype 'b http_result = HttpWrites "'b http_write list" | HttpPanic

fun http_status :: "'b http_result \<Rightarrow> nat option" where
  "http_status (HttpWrites (HttpError _ n # _)) = Some n"
| "http_status (HttpWrites (HttpStatus n # _)) = Some n"
| "http_status (HttpWrites (HttpJson _ # _)) = Some StatusOK"
| "http_status (HttpWrites []) = Some StatusOK"
| "http_status HttpPanic = None"

end
