(* ===== verification/Admin.thy ===== *)
theory Admin
  imports Http
begin

text \<open>
  \<open>src/signaling/admin\<close>: the table of admin auth tokens with its refresh and purge (\<open>manager.go\<close>), the
  validation of tokens and basic auth on requests, and the handlers that create, list and remove
  tokens (\<open>auth.go\<close>). The JWT library is an argument: \<open>jwt_parse\<close> is \<open>Parser.ParseWithClaims\<close> and
  \<open>jwt_sign\<close> is \<open>Token.SignedString\<close>.
\<close>

section \<open>State\<close>

definition tokenExpiration :: duration where "tokenExpiration = 1 * minute"
definition adminAuthTokenDuration :: duration where "adminAuthTokenDuration = 60 * minute * 24 * 365"
definition adminAuthTokenTokensRecordIDPrefix :: string where
  "adminAuthTokenTokensRecordIDPrefix = ''admin''"

text \<open>The \<open>interface{}\<close> token of a record is a token or nil.\<close>

record tokenRecord =
  tk_when :: time
  tk_token :: "AdminAuthToken option"

record admin_Manager =
  am_tokens :: "(string, tokenRecord) gomap"
  am_tokensKeys :: "(string, string) gomap"
  am_tokensSigningKeyID :: string
  am_authBasicEnabled :: bool
  am_authBasicAllowedValues :: "(string, bool) gomap"

definition admin_NewManager :: admin_Manager where
  "admin_NewManager = \<lparr>am_tokens = [], am_tokensKeys = [], am_tokensSigningKeyID = [],
     am_authBasicEnabled = False, am_authBasicAllowedValues = []\<rparr>"

section \<open>Token table (\<open>manager.go\<close>)\<close>

definition RemoveToken :: "string \<Rightarrow> admin_Manager \<Rightarrow> admin_Manager" where
  "RemoveToken rid m = m\<lparr>am_tokens := gm_del rid (am_tokens m)\<rparr>"

definition purgeExpiredTokens :: "time \<Rightarrow> admin_Manager \<Rightarrow> admin_Manager" where
  "purgeExpiredTokens now m =
     (let deadline = now - tokenExpiration;
          expired = map fst (filter (\<lambda>(_, record). tk_when record < deadline) (am_tokens m))
      in fold RemoveToken expired m)"

definition AddTokenKey :: "string \<Rightarrow> string \<Rightarrow> admin_Manager \<Rightarrow> admin_Manager" where
  "AddTokenKey kid key m = m\<lparr>am_tokensKeys := gm_set kid key (am_tokensKeys m)\<rparr>"

definition AddTokenSigningKey :: "string \<Rightarrow> string \<Rightarrow> admin_Manager \<Rightarrow> admin_Manager" where
  "AddTokenSigningKey kid key m = (AddTokenKey kid key m)\<lparr>am_tokensSigningKeyID := kid\<rparr>"

definition SetToken :: "time \<Rightarrow> string \<Rightarrow> AdminAuthToken \<Rightarrow> admin_Manager \<Rightarrow> admin_Manager" where
  "SetToken now rid token m =
     m\<lparr>am_tokens := gm_set rid \<lparr>tk_when = now, tk_token = Some token\<rparr> (am_tokens m)\<rparr>"

text \<open>The value and the \<open>exists\<close> flag: \<open>None\<close> for an unknown id, \<open>Some None\<close> for a known nil token.\<close>

definition GetToken :: "string \<Rightarrow> admin_Manager \<Rightarrow> AdminAuthToken option option" where
  "GetToken rid m = map_option tk_token (gm_get (am_tokens m) rid)"

definition HasToken :: "string \<Rightarrow> admin_Manager \<Rightarrow> bool" where
  "HasToken rid m \<longleftrightarrow> gm_get (am_tokens m) rid \<noteq> None"

definition PopToken :: "string \<Rightarrow> admin_Manager \<Rightarrow> AdminAuthToken option option \<times> admin_Manager" where
  "PopToken rid m = (GetToken rid m, RemoveToken rid m)"

text \<open>Refreshing an unknown id stores a record with the zero time and a nil token.\<close>

definition RefreshToken :: "time \<Rightarrow> string \<Rightarrow> admin_Manager \<Rightarrow> admin_Manager" where
  "RefreshToken now rid m =
     (let record = (case gm_get (am_tokens m) rid of
            None \<Rightarrow> \<lparr>tk_when = zero_time, tk_token = None\<rparr>
          | Some r \<Rightarrow> r\<lparr>tk_when := now\<rparr>)
      in m\<lparr>am_tokens := gm_set rid record (am_tokens m)\<rparr>)"

section \<open>Tokens (\<open>auth.go\<close>)\<close>

definition getAdminAuthTokenTokensRecordID :: "AdminAuthToken \<Rightarrow> string" where
  "getAdminAuthTokenTokensRecordID token =
     adminAuthTokenTokensRecordIDPrefix @ ''-'' @ at_Type token @ ''-'' @ at_Subject token"

record StandardClaims =
  jc_ExpiresAt :: int
  jc_IssuedAt :: int
  jc_Subject :: string

text \<open>
  A parsed token: whether its signing method is an HMAC, its algorithm and key id headers, and its
  claims (\<open>None\<close> when the library gave up before it set them). The flags of \<open>jwt.ValidationError\<close>.
\<close>

record jwt_Token =
  jt_isHMAC :: bool
  jt_alg :: string
  jt_kid :: "json option"
  jt_Claims :: "StandardClaims option"

datatype jwt_flag =
    ValidationErrorMalformed
  | ValidationErrorUnverifiable
  | ValidationErrorSignatureInvalid
  | ValidationErrorExpired

type_synonym jwt_parser =
  "string \<Rightarrow> (jwt_Token \<Rightarrow> string + string) \<Rightarrow> jwt_Token option \<times> jwt_flag list option"

text \<open>The signer takes the key id, the claims and the key.\<close>

type_synonym jwt_signer = "string \<Rightarrow> StandardClaims \<Rightarrow> string \<Rightarrow> string + string"

definition SignAdminAuthToken ::
  "jwt_signer \<Rightarrow> time \<Rightarrow> AdminAuthToken \<Rightarrow> admin_Manager \<Rightarrow> string + string" where
  "SignAdminAuthToken jwt_sign now token m =
     (let claims = \<lparr>jc_ExpiresAt = at_ExpiresAt token, jc_IssuedAt = unix_of now,
            jc_Subject = at_Subject token\<rparr>
      in case gm_get (am_tokensKeys m) (am_tokensSigningKeyID m) of
           None \<Rightarrow> Inl (''unknown key id: '' @ am_tokensSigningKeyID m)
         | Some key \<Rightarrow> jwt_sign (am_tokensSigningKeyID m) claims key)"

definition token_keyFunc :: "admin_Manager \<Rightarrow> jwt_Token \<Rightarrow> string + string" where
  "token_keyFunc m token =
     (if \<not> jt_isHMAC token then Inl (''unexpected signing method: '' @ jt_alg token)
      else case jt_kid token of
        Some (JStr kid) \<Rightarrow>
          (case gm_get (am_tokensKeys m) kid of
             None \<Rightarrow> Inl (''unknown key id: '' @ kid)
           | Some key \<Rightarrow> Inr key)
      | _ \<Rightarrow> Inl ''invalid key id'')"

datatype validate_result = ValidatePanic | ValidateErr string | ValidateOk AdminAuthToken

definition ValidateAdminAuthTokenString ::
  "jwt_parser \<Rightarrow> string \<Rightarrow> admin_Manager \<Rightarrow> validate_result" where
  "ValidateAdminAuthTokenString jwt_parse tokenString m =
     (let (token, err) = jwt_parse tokenString (token_keyFunc m)
      in if (case err of None \<Rightarrow> False | Some flags \<Rightarrow> ValidationErrorSignatureInvalid \<in> set flags)
         then ValidateErr ''token signature invalid failed''
         else case Option.bind token jt_Claims of
           None \<Rightarrow> ValidatePanic
         | Some claims \<Rightarrow> ValidateOk (zero_auth_token\<lparr>at_Subject := jc_Subject claims,
             at_ExpiresAt := jc_ExpiresAt claims\<rparr>))"

definition IsValidAdminAuthToken :: "AdminAuthToken \<Rightarrow> admin_Manager \<Rightarrow> bool" where
  "IsValidAdminAuthToken token m =
     (if at_Type token \<noteq> AdminAuthTokenTypeToken then False
      else case GetToken (getAdminAuthTokenTokensRecordID token) m of Some (Some _) \<Rightarrow> True | _ \<Rightarrow> False)"

text \<open>The result of an auth check: a panic, a refusal, or the token with the new state.\<close>

datatype 'a auth_result = AuthPanic | AuthDenied | AuthOk 'a

definition IsValidAdminAuthTokenRequest ::
  "jwt_parser \<Rightarrow> time \<Rightarrow> http_request \<Rightarrow> admin_Manager \<Rightarrow> AdminAuthToken auth_result \<times> admin_Manager" where
  "IsValidAdminAuthTokenRequest jwt_parse now req m =
     (case split_n2 (CHR '' '') (rq_authorization req) of
        [scheme, value] \<Rightarrow>
          if scheme \<noteq> AdminAuthTokenTypeToken then (AuthDenied, m)
          else (case ValidateAdminAuthTokenString jwt_parse value m of
                  ValidatePanic \<Rightarrow> (AuthPanic, m)
                | ValidateErr _ \<Rightarrow> (AuthDenied, m)
                | ValidateOk t \<Rightarrow>
                    (let token = t\<lparr>at_Type := scheme\<rparr>
                     in if IsValidAdminAuthToken token m then (AuthOk token, m)
                        else if time_unix (at_ExpiresAt token) > now
                        then (AuthOk token, SetToken now (getAdminAuthTokenTokensRecordID token) token m)
                        else (AuthDenied, m)))
      | _ \<Rightarrow> (AuthDenied, m))"

definition CheckBasicAuth :: "string \<Rightarrow> admin_Manager \<Rightarrow> bool" where
  "CheckBasicAuth headerValue m \<longleftrightarrow> gm_get (am_authBasicAllowedValues m) headerValue = Some True"

definition SetBasicAuth :: "string list option \<Rightarrow> admin_Manager \<Rightarrow> admin_Manager" where
  "SetBasicAuth allowedValues m =
     (case allowedValues of
        None \<Rightarrow> m
      | Some vs \<Rightarrow> m\<lparr>am_authBasicEnabled := True,
          am_authBasicAllowedValues := fold (\<lambda>v. gm_set v True) vs []\<rparr>)"

definition IsValidBasicAuthRequest ::
  "time \<Rightarrow> http_request \<Rightarrow> admin_Manager \<Rightarrow> AdminAuthToken auth_result \<times> admin_Manager" where
  "IsValidBasicAuthRequest now req m =
     (if \<not> am_authBasicEnabled m then (AuthDenied, m)
      else case split_n2 (CHR '' '') (rq_authorization req) of
        [scheme, value] \<Rightarrow>
          if scheme \<noteq> BasicAuthTypeToken then (AuthDenied, m)
          else if \<not> CheckBasicAuth value m then (AuthDenied, m)
          else (let subject = form_get ''user'' req
                in if subject = [] then (AuthDenied, m)
                   else let token = zero_auth_token\<lparr>at_Subject := subject, at_Type := scheme\<rparr>
                     in if IsValidAdminAuthToken token m then (AuthOk token, m)
                        else (AuthOk token, SetToken now (getAdminAuthTokenTokensRecordID token) token m))
      | _ \<Rightarrow> (AuthDenied, m))"

definition RefreshAdminAuthToken :: "time \<Rightarrow> AdminAuthToken \<Rightarrow> admin_Manager \<Rightarrow> bool \<times> admin_Manager" where
  "RefreshAdminAuthToken now token m =
     (if at_Type token \<noteq> AdminAuthTokenTypeToken then (False, m)
      else (True, RefreshToken now (getAdminAuthTokenTokensRecordID token) m))"

section \<open>Handlers (\<open>auth.go\<close>)\<close>

text \<open>\<open>rnd\<close> is the random subject a request without one gets.\<close>

definition createAuthToken ::
  "jwt_signer \<Rightarrow> time \<Rightarrow> string \<Rightarrow> http_request \<Rightarrow> admin_Manager \<Rightarrow>
   AdminAuthToken http_write list \<times> admin_Manager" where
  "createAuthToken jwt_sign now rnd req m =
     (case rq_body req of
        Inl e \<Rightarrow> ([HttpError (''failed to read request: '' @ e) StatusBadRequest], m)
      | Inr msg \<Rightarrow>
          (case Option.bind msg decode_auth_token of
             None \<Rightarrow> ([HttpError ''failed to parse'' StatusBadRequest], m)
           | Some token \<Rightarrow>
               if at_Type token = [] then ([HttpError ''type cannot be empty'' StatusBadRequest], m)
               else if at_Type token \<noteq> AdminAuthTokenTypeToken then
                 ([HttpError (''unknown token type: '' @ at_Type token) StatusBadRequest], m)
               else if at_Value token \<noteq> [] then
                 ([HttpError ''value must be empty'' StatusBadRequest], m)
               else if at_ExpiresAt token \<noteq> 0 then
                 ([HttpError ''exp must be 0'' StatusBadRequest], m)
               else
                 (let t1 = (if at_Subject token = [] then token\<lparr>at_Subject := rnd\<rparr> else token);
                      t2 = t1\<lparr>at_ExpiresAt := unix_of (now + adminAuthTokenDuration)\<rparr>
                  in case SignAdminAuthToken jwt_sign now t2 m of
                       Inl _ \<Rightarrow> ([HttpError ''failed to sign token'' StatusInternalServerError], m)
                     | Inr value \<Rightarrow>
                         (let t3 = t2\<lparr>at_Value := value\<rparr>
                          in ([HttpJson t3], SetToken now (getAdminAuthTokenTokensRecordID t3) t3 m)))))"

text \<open>
  The loop of \<open>listValidAuthTokens\<close>: entries whose key has the prefix are appended, a nil token fails
  its type assertion (\<open>None\<close>, a panic), and the loop ends at 5000 results.
\<close>

fun list_tokens_loop ::
  "(string, tokenRecord) gomap \<Rightarrow> AdminAuthToken list \<Rightarrow> AdminAuthToken list option" where
  "list_tokens_loop [] result = Some result"
| "list_tokens_loop ((k, r) # rest) result =
     (if has_prefix k (adminAuthTokenTokensRecordIDPrefix @ ''-'') then
        (case tk_token r of
           None \<Rightarrow> None
         | Some t \<Rightarrow>
             (let result' = result @ [t]
              in if length result' \<ge> 5000 then Some result' else list_tokens_loop rest result'))
      else if length result \<ge> 5000 then Some result else list_tokens_loop rest result)"

definition listValidAuthTokens :: "admin_Manager \<Rightarrow> AdminAuthToken list http_result" where
  "listValidAuthTokens m =
     (case list_tokens_loop (am_tokens m) [] of
        None \<Rightarrow> HttpPanic
      | Some result \<Rightarrow> HttpWrites [HttpJson result])"

definition removeAuthToken ::
  "http_request \<Rightarrow> admin_Manager \<Rightarrow> unit http_write list \<times> admin_Manager" where
  "removeAuthToken req m =
     (case rq_body req of
        Inl e \<Rightarrow> ([HttpError (''failed to read request: '' @ e) StatusBadRequest], m)
      | Inr msg \<Rightarrow>
          (case Option.bind msg decode_auth_token of
             None \<Rightarrow> ([HttpError ''failed to parse'' StatusBadRequest], m)
           | Some token \<Rightarrow>
               if at_Type token = [] \<or> at_Subject token = [] then
                 ([HttpError ''type or value cannot be empty'' StatusBadRequest], m)
               else case PopToken (getAdminAuthTokenTokensRecordID token) m of
                 (None, m1) \<Rightarrow> ([http_NotFound], m1)
               | (Some _, m1) \<Rightarrow> ([HttpStatus StatusNoContent], m1)))"

section \<open>Lemmas\<close>

abbreviation token_id :: "AdminAuthToken \<Rightarrow> string" where
  "token_id \<equiv> getAdminAuthTokenTokensRecordID"

definition admin_wf :: "admin_Manager \<Rightarrow> bool" where
  "admin_wf m \<longleftrightarrow> gm_wf (am_tokens m)"

definition put_record :: "string \<Rightarrow> tokenRecord \<Rightarrow> admin_Manager \<Rightarrow> admin_Manager" where
  "put_record rid r m = m\<lparr>am_tokens := gm_set rid r (am_tokens m)\<rparr>"

lemma fold_RemoveToken:
  "fold RemoveToken ks m = m\<lparr>am_tokens := gm_remove_all ks (am_tokens m)\<rparr>"
  by (induction ks arbitrary: m) (simp_all add: RemoveToken_def gm_remove_all_def)

lemma purgeExpiredTokens_filter:
  assumes "admin_wf m"
  shows "purgeExpiredTokens now m =
    m\<lparr>am_tokens := filter (\<lambda>e. \<not> tk_when (snd e) < now - tokenExpiration) (am_tokens m)\<rparr>"
  using gm_purge_filter [of "am_tokens m" "\<lambda>e. tk_when (snd e) < now - tokenExpiration"] assms
  by (simp add: purgeExpiredTokens_def fold_RemoveToken admin_wf_def case_prod_beta')

interpretation tokens: expiring_table
  "\<lambda>m rid. gm_get (am_tokens m) rid" put_record RemoveToken admin_wf
  tk_when tokenExpiration purgeExpiredTokens
proof unfold_locales
  fix m :: admin_Manager and now k
  assume wf: "admin_wf m"
  show "gm_get (am_tokens (purgeExpiredTokens now m)) k =
    (case gm_get (am_tokens m) k of None \<Rightarrow> None
     | Some v \<Rightarrow> if tk_when v < now - tokenExpiration then None else Some v)"
    using wf by (simp add: purgeExpiredTokens_filter gm_get_filter admin_wf_def split: option.splits)
  show "admin_wf (purgeExpiredTokens now m)"
    using wf by (simp add: purgeExpiredTokens_filter) (simp add: admin_wf_def)
qed (simp_all add: put_record_def RemoveToken_def admin_wf_def)

lemma SetToken_put: "SetToken now rid t m = put_record rid \<lparr>tk_when = now, tk_token = Some t\<rparr> m"
  by (simp add: SetToken_def put_record_def)

lemma RefreshToken_put:
  "RefreshToken now rid m = put_record rid
     (case gm_get (am_tokens m) rid of None \<Rightarrow> \<lparr>tk_when = zero_time, tk_token = None\<rparr>
      | Some r \<Rightarrow> r\<lparr>tk_when := now\<rparr>) m"
  by (simp add: RefreshToken_def put_record_def)

lemma IsValidAdminAuthToken_iff:
  "IsValidAdminAuthToken token m \<longleftrightarrow> at_Type token = AdminAuthTokenTypeToken \<and>
     (\<exists>r t. gm_get (am_tokens m) (token_id token) = Some r \<and> tk_token r = Some t)"
  by (auto simp: IsValidAdminAuthToken_def GetToken_def split: option.splits)

lemma admin_wf_ops [simp]:
  "admin_wf m \<Longrightarrow> admin_wf (put_record rid r m)"
  "admin_wf m \<Longrightarrow> admin_wf (SetToken now rid t m)"
  "admin_wf m \<Longrightarrow> admin_wf (RefreshToken now rid m)"
  "admin_wf m \<Longrightarrow> admin_wf (RemoveToken rid m)"
  by (simp_all add: admin_wf_def put_record_def SetToken_put RefreshToken_put RemoveToken_def)

lemma token_id_prefix: "has_prefix (token_id token) (adminAuthTokenTokensRecordIDPrefix @ ''-'')"
  by (simp add: has_prefix_def getAdminAuthTokenTokensRecordID_def)

lemma list_tokens_loop_None:
  "length result + length xs < 5000 \<Longrightarrow>
   list_tokens_loop xs result = None \<longleftrightarrow>
     (\<exists>k r. (k, r) \<in> set xs \<and> has_prefix k (adminAuthTokenTokensRecordIDPrefix @ ''-'') \<and> tk_token r = None)"
proof (induction xs result rule: list_tokens_loop.induct)
  case (2 k r rest result)
  then show ?case
    by (cases "tk_token r") (auto simp: Let_def)
qed simp

lemma fold_gm_set_True:
  "gm_get (fold (\<lambda>v. gm_set v True) vs m) h = (if h \<in> set vs then Some True else gm_get m h)"
  by (induction vs arbitrary: m) auto

lemma createAuthToken_ok:
  assumes "createAuthToken jwt_sign now rnd req m = ([HttpJson t], m')"
  shows "at_Type t = AdminAuthTokenTypeToken" and "at_ExpiresAt t = unix_of (now + adminAuthTokenDuration)"
    and "m' = SetToken now (token_id t) t m"
  using assms
  by (auto simp: createAuthToken_def Let_def split: sum.splits option.splits if_splits)

section \<open>Properties\<close>

text \<open>
  A token created by an admin request is valid at once, expires after a year, and stays valid
  through every purge up to one minute after its creation; a purge later than that, with no refresh
  in between, removes it.
\<close>

theorem created_token_lifetime:
  assumes "admin_wf m" and "createAuthToken jwt_sign now rnd req m = ([HttpJson t], m')"
  shows "IsValidAdminAuthToken t m' \<and> at_ExpiresAt t = unix_of (now + adminAuthTokenDuration) \<and>
    (IsValidAdminAuthToken t (purgeExpiredTokens later m') \<longleftrightarrow> later \<le> now + tokenExpiration)"
proof -
  note created = createAuthToken_ok [OF assms(2)]
  have wf: "admin_wf m'"
    using assms(1) by (simp add: created(3))
  have rec: "gm_get (am_tokens m') (token_id t) = Some \<lparr>tk_when = now, tk_token = Some t\<rparr>"
    by (simp add: created(3) SetToken_put put_record_def)
  then show ?thesis
    using tokens.purge_keeps_fresh [OF wf rec, of later] tokens.purge_drops_old [OF wf rec, of later]
    by (cases "later \<le> now + tokenExpiration")
      (auto simp: IsValidAdminAuthToken_iff created(1,2))
qed

definition example_admin :: admin_Manager where
  "example_admin = AddTokenKey [] ''key'' admin_NewManager"

definition example_create_request :: http_request where
  "example_create_request = \<lparr>rq_method = ''POST'', rq_authorization = [], rq_form = [],
     rq_body = Inr (Some (JObj [(''type'', JStr ''Token''), (''sub'', JStr ''bob'')]))\<rparr>"

definition example_token :: AdminAuthToken where
  "example_token = zero_auth_token\<lparr>at_Subject := ''bob'', at_Type := ''Token'', at_Value := ''sig'',
     at_ExpiresAt := 31536000\<rparr>"

theorem created_token_lifetime_witness:
  "createAuthToken (\<lambda>_ _ _. Inr ''sig'') 0 [] example_create_request example_admin =
     ([HttpJson example_token], SetToken 0 (token_id example_token) example_token example_admin) \<and>
   IsValidAdminAuthToken example_token
     (purgeExpiredTokens (1 * minute) (SetToken 0 (token_id example_token) example_token example_admin)) \<and>
   \<not> IsValidAdminAuthToken example_token
     (purgeExpiredTokens (2 * minute) (SetToken 0 (token_id example_token) example_token example_admin))"
proof -
  have c: "createAuthToken (\<lambda>_ _ _. Inr ''sig'') 0 [] example_create_request example_admin =
     ([HttpJson example_token], SetToken 0 (token_id example_token) example_token example_admin)"
    by (simp add: createAuthToken_def example_create_request_def example_admin_def example_token_def
        decode_auth_token_def decode_struct_def auth_token_fields_def set_auth_token_field_def set_str_def
        zero_auth_token_def AdminAuthTokenTypeToken_def SignAdminAuthToken_def AddTokenKey_def
        admin_NewManager_def unix_of_def adminAuthTokenDuration_def Let_def
        getAdminAuthTokenTokensRecordID_def)
  have wf: "admin_wf example_admin"
    by (simp add: admin_wf_def example_admin_def AddTokenKey_def admin_NewManager_def)
  from created_token_lifetime [OF wf c, of "1 * minute"] created_token_lifetime [OF wf c, of "2 * minute"] c
  show ?thesis
    by (simp add: tokenExpiration_def)
qed

text \<open>
  Every request the token check accepts leaves its token known in the table, so that the later
  check on the websocket upgrade accepts the same token; and it was known before or has not expired.
\<close>

lemma accepted_request_token_known:
  assumes "IsValidAdminAuthTokenRequest jwt_parse now req m = (AuthOk t, m')"
  shows "IsValidAdminAuthToken t m' \<and> (IsValidAdminAuthToken t m \<or> now < time_unix (at_ExpiresAt t))"
  using assms
  by (auto simp: IsValidAdminAuthTokenRequest_def IsValidAdminAuthToken_iff SetToken_put
      put_record_def Let_def split: list.splits validate_result.splits if_splits)

text \<open>
  The documented behaviour of \<open>ParseWithClaims\<close> for a token whose key function fails: it returns the
  parsed token with an error that is flagged unverifiable, and only that.
\<close>

definition jwt_key_error_unverifiable :: "jwt_parser \<Rightarrow> string \<Rightarrow> jwt_Token \<Rightarrow> bool" where
  "jwt_key_error_unverifiable jwt_parse value token \<longleftrightarrow>
     (\<forall>keyFunc e. keyFunc token = Inl e \<longrightarrow>
        jwt_parse value keyFunc = (Some token, Some [ValidationErrorUnverifiable]))"

text \<open>
  C34. A token that no key of the manager can verify (an unsigned token, an unknown key id) is accepted
  all the same when its own claims put the expiry into the future: the validation only refuses
  tokens whose signature was checked and found wrong, and an unknown unexpired token is then stored.
\<close>

theorem unverifiable_token_accepted:
  assumes "jwt_key_error_unverifiable jwt_parse value token"
    and "token_keyFunc m token = Inl e"
    and "jt_Claims token = Some claims"
    and "now < time_unix (jc_ExpiresAt claims)"
    and "rq_authorization req = ''Token '' @ value"
  shows "\<exists>t m'. IsValidAdminAuthTokenRequest jwt_parse now req m = (AuthOk t, m') \<and>
    at_Subject t = jc_Subject claims \<and> IsValidAdminAuthToken t m'"
proof -
  have "jwt_parse value (token_keyFunc m) = (Some token, Some [ValidationErrorUnverifiable])"
    using assms(1,2) by (auto simp: jwt_key_error_unverifiable_def)
  then have v: "ValidateAdminAuthTokenString jwt_parse value m =
    ValidateOk (zero_auth_token\<lparr>at_Subject := jc_Subject claims, at_ExpiresAt := jc_ExpiresAt claims\<rparr>)"
    using assms(3) by (simp add: ValidateAdminAuthTokenString_def)
  have "split_n2 (CHR '' '') (rq_authorization req) = [AdminAuthTokenTypeToken, value]"
    by (simp add: assms(5) AdminAuthTokenTypeToken_def)
  then show ?thesis
    using v assms(4)
    by (simp add: IsValidAdminAuthTokenRequest_def Let_def IsValidAdminAuthToken_iff SetToken_put
        put_record_def del: split_n2.simps)
qed

definition unsigned_token :: jwt_Token where
  "unsigned_token = \<lparr>jt_isHMAC = False, jt_alg = ''none'', jt_kid = None,
     jt_Claims = Some \<lparr>jc_ExpiresAt = 10, jc_IssuedAt = 0, jc_Subject = ''mallory''\<rparr>\<rparr>"

definition example_jwt_parse :: jwt_parser where
  "example_jwt_parse value keyFunc =
     (case keyFunc unsigned_token of
        Inl _ \<Rightarrow> (Some unsigned_token, Some [ValidationErrorUnverifiable])
      | Inr _ \<Rightarrow> (Some unsigned_token, Some [ValidationErrorSignatureInvalid]))"

theorem unverifiable_token_accepted_witness:
  "\<exists>t m'. IsValidAdminAuthTokenRequest example_jwt_parse 0
      \<lparr>rq_method = ''GET'', rq_authorization = ''Token '' @ ''x.y.'', rq_form = [], rq_body = Inr None\<rparr>
      example_admin = (AuthOk t, m') \<and> at_Subject t = ''mallory'' \<and> IsValidAdminAuthToken t m'"
proof -
  have "jwt_key_error_unverifiable example_jwt_parse ''x.y.'' unsigned_token"
    by (simp add: jwt_key_error_unverifiable_def example_jwt_parse_def)
  moreover have "token_keyFunc example_admin unsigned_token = Inl ''unexpected signing method: none''"
    by (simp add: token_keyFunc_def unsigned_token_def)
  ultimately show ?thesis
    using unverifiable_token_accepted [of example_jwt_parse "''x.y.''" unsigned_token example_admin
        "''unexpected signing method: none''" "\<lparr>jc_ExpiresAt = 10, jc_IssuedAt = 0, jc_Subject = ''mallory''\<rparr>" 0
        "\<lparr>rq_method = ''GET'', rq_authorization = ''Token '' @ ''x.y.'', rq_form = [], rq_body = Inr None\<rparr>"]
    by (simp add: unsigned_token_def time_unix_def)
qed

text \<open>
  C35. Refreshing a token that is not in the table, as a ping does after its token was purged, stores an
  empty record: the token is still not valid, but it is known, and listing the tokens panics on it.
\<close>

theorem refresh_unknown_breaks_listing:
  assumes "at_Type token = AdminAuthTokenTypeToken" and "\<not> HasToken (token_id token) m"
    and "length (am_tokens m) < 4999"
    and "m' = snd (RefreshAdminAuthToken now token m)"
  shows "\<not> IsValidAdminAuthToken token m' \<and> HasToken (token_id token) m' \<and>
    listValidAuthTokens m' = HttpPanic"
proof -
  let ?r = "\<lparr>tk_when = zero_time, tk_token = None\<rparr>"
  have m': "m' = put_record (token_id token) ?r m"
    using assms(1,2,4) by (simp add: RefreshAdminAuthToken_def RefreshToken_put HasToken_def)
  have "(token_id token, ?r) \<in> set (am_tokens m')"
    using assms(2) by (auto simp: m' put_record_def intro: map_of_SomeD)
  moreover have "length (am_tokens m') < 5000"
    using assms(3) by (simp add: m' put_record_def length_gm_set)
  ultimately have "list_tokens_loop (am_tokens m') [] = None"
    using token_id_prefix [of token] list_tokens_loop_None [of "[]" "am_tokens m'"] by force
  then show ?thesis
    by (simp add: listValidAuthTokens_def m' IsValidAdminAuthToken_iff HasToken_def put_record_def)
qed

theorem refresh_unknown_breaks_listing_witness:
  "listValidAuthTokens (snd (RefreshAdminAuthToken 0 example_token example_admin)) = HttpPanic"
proof -
  have "at_Type example_token = AdminAuthTokenTypeToken"
    by (simp add: example_token_def AdminAuthTokenTypeToken_def)
  moreover have "\<not> HasToken (token_id example_token) example_admin" "length (am_tokens example_admin) < 4999"
    by (simp_all add: HasToken_def example_admin_def AddTokenKey_def admin_NewManager_def)
  ultimately show ?thesis
    using refresh_unknown_breaks_listing [of example_token example_admin _ 0] by blast
qed

text \<open>
  With basic auth set up from a list of values, a request passes if and only if its header carries
  one of these values under the scheme \<open>Basic\<close> and the form names a user; the token it gets has that
  user as its subject.
\<close>

theorem basic_auth_exact:
  "IsValidBasicAuthRequest now req (SetBasicAuth (Some vs) m) = (AuthOk t, m') \<longleftrightarrow>
     (\<exists>v \<in> set vs. split_n2 (CHR '' '') (rq_authorization req) = [''Basic'', v]) \<and>
     form_get ''user'' req \<noteq> [] \<and>
     t = zero_auth_token\<lparr>at_Subject := form_get ''user'' req, at_Type := ''Basic''\<rparr> \<and>
     m' = SetToken now (token_id t) t (SetBasicAuth (Some vs) m)"
proof -
  have "\<not> IsValidAdminAuthToken (zero_auth_token\<lparr>at_Subject := u, at_Type := ''Basic''\<rparr>) m2" for u m2
    by (simp add: IsValidAdminAuthToken_def AdminAuthTokenTypeToken_def)
  moreover have "am_authBasicEnabled (SetBasicAuth (Some vs) m)"
    by (simp add: SetBasicAuth_def)
  moreover have "CheckBasicAuth h (SetBasicAuth (Some vs) m) \<longleftrightarrow> h \<in> set vs" for h
    by (simp add: CheckBasicAuth_def SetBasicAuth_def fold_gm_set_True)
  ultimately show ?thesis
    by (auto simp: IsValidBasicAuthRequest_def BasicAuthTypeToken_def Let_def
        simp del: split_n2.simps split: list.splits)
qed

theorem basic_auth_exact_witness:
  "IsValidBasicAuthRequest 0
     \<lparr>rq_method = ''GET'', rq_authorization = ''Basic a'', rq_form = [(''user'', ''bob'')], rq_body = Inr None\<rparr>
     (SetBasicAuth (Some [''a'']) example_admin) =
   (AuthOk (zero_auth_token\<lparr>at_Subject := ''bob'', at_Type := ''Basic''\<rparr>),
    SetToken 0 ''admin-Basic-bob'' (zero_auth_token\<lparr>at_Subject := ''bob'', at_Type := ''Basic''\<rparr>)
      (SetBasicAuth (Some [''a'']) example_admin))"
  unfolding basic_auth_exact
  by (simp add: form_get_def getAdminAuthTokenTokensRecordID_def adminAuthTokenTokensRecordIDPrefix_def)

end
