(* ===== verification/Base64.thy ===== *)
theory Base64
  imports Prelude
begin

text \<open>
  \<open>base64.StdEncoding\<close> of the Go standard library, through which channel hashes travel to the clients
  and back: \<open>EncodeToString\<close> with padding, and \<open>DecodeString\<close>, which skips line breaks and refuses
  other characters outside the alphabet and misplaced padding. Byte strings are \<open>string\<close>.
\<close>

definition b64_alphabet :: string where
  "b64_alphabet = ''ABCDEFGHIJKLMNOPQRSTUVWXYZabcdefghijklmnopqrstuvwxyz0123456789+/''"

definition b64_enc_char :: "nat \<Rightarrow> char" where
  "b64_enc_char n = b64_alphabet ! n"

definition b64_dec_char :: "char \<Rightarrow> nat option" where
  "b64_dec_char c = map_of (zip b64_alphabet [0..<64]) c"

abbreviation byte_of :: "char \<Rightarrow> nat" where
  "byte_of c \<equiv> of_char c"

abbreviation char_of_byte :: "nat \<Rightarrow> char" where
  "char_of_byte n \<equiv> char_of n"

definition b64_quad :: "nat \<Rightarrow> nat \<Rightarrow> nat \<Rightarrow> string" where
  "b64_quad a b c =
     map b64_enc_char [a div 4, a mod 4 * 16 + b div 16, b mod 16 * 4 + c div 64, c mod 64]"

fun b64_encode :: "string \<Rightarrow> string" where
  "b64_encode [] = []"
| "b64_encode [x] = take 2 (b64_quad (byte_of x) 0 0) @ ''==''"
| "b64_encode [x, y] = take 3 (b64_quad (byte_of x) (byte_of y) 0) @ ''=''"
| "b64_encode (x # y # z # r) = b64_quad (byte_of x) (byte_of y) (byte_of z) @ b64_encode r"

text \<open>One group of four characters; \<open>None\<close> stands for an illegal character or bad padding.\<close>

definition b64_group :: "nat \<Rightarrow> nat \<Rightarrow> nat \<Rightarrow> nat \<Rightarrow> string" where
  "b64_group p q r s =
     map char_of_byte [p * 4 + q div 16, q mod 16 * 16 + r div 4, r mod 4 * 64 + s]"

fun b64_decode_groups :: "string \<Rightarrow> string option" where
  "b64_decode_groups [] = Some []"
| "b64_decode_groups (a # b # c # d # rest) =
     (case (b64_dec_char a, b64_dec_char b, b64_dec_char c, b64_dec_char d) of
        (Some p, Some q, Some r, Some s) \<Rightarrow> map_option (\<lambda>t. b64_group p q r s @ t) (b64_decode_groups rest)
      | (Some p, Some q, Some r, None) \<Rightarrow>
          if d = CHR ''='' \<and> rest = [] then Some (take 2 (b64_group p q r 0)) else None
      | (Some p, Some q, None, None) \<Rightarrow>
          if c = CHR ''='' \<and> d = CHR ''='' \<and> rest = [] then Some (take 1 (b64_group p q 0 0)) else None
      | _ \<Rightarrow> None)"
| "b64_decode_groups _ = None"

definition b64_decode :: "string \<Rightarrow> string option" where
  "b64_decode s = b64_decode_groups (filter (\<lambda>c. c \<noteq> CHR 0x0A \<and> c \<noteq> CHR 0x0D) s)"

section \<open>Round trip\<close>

text \<open>The interface a client of an encoding relies on.\<close>

locale codec =
  fixes enc :: "'a \<Rightarrow> 'b" and dec :: "'b \<Rightarrow> 'a option"
  assumes dec_enc: "dec (enc x) = Some x"
begin

lemma enc_inject: "enc x = enc y \<longleftrightarrow> x = y"
  by (metis dec_enc option.inject)

lemma check_after_enc: "(\<exists>y. dec (enc x) = Some y \<and> P y) \<longleftrightarrow> P x"
  by (simp add: dec_enc)

end

lemma b64_alphabet_length: "length b64_alphabet = 64"
  by (simp add: b64_alphabet_def)

lemma b64_alphabet_distinct: "distinct b64_alphabet"
  by (simp add: b64_alphabet_def)

lemma b64_dec_enc_char: "n < 64 \<Longrightarrow> b64_dec_char (b64_enc_char n) = Some n"
  unfolding b64_dec_char_def b64_enc_char_def
  by (subst map_of_zip_nth) (auto simp: b64_alphabet_length b64_alphabet_distinct)

lemma b64_dec_char_special [simp]:
  "b64_dec_char (CHR ''='') = None" "b64_dec_char (CHR 0x0A) = None" "b64_dec_char (CHR 0x0D) = None"
  by (auto simp: b64_dec_char_def map_of_zip_is_None b64_alphabet_length)
    (simp_all add: b64_alphabet_def)

lemma b64_enc_char_text: "n < 64 \<Longrightarrow> b64_enc_char n \<noteq> CHR 0x0A \<and> b64_enc_char n \<noteq> CHR 0x0D"
  using b64_dec_enc_char [of n] by auto

lemma byte_of_less: "byte_of c < 256"
  by (rule nat_of_char_less_256)

lemma quad_digits:
  fixes a b c :: nat
  assumes "a < 256" "b < 256" "c < 256"
  shows "a div 4 < 64" "a mod 4 * 16 + b div 16 < 64" "b mod 16 * 4 + c div 64 < 64" "c mod 64 < 64"
proof -
  have "b div 16 < 16" "c div 64 < 4" "a mod 4 < 4" "b mod 16 < 16"
    using assms by simp_all
  then show "a mod 4 * 16 + b div 16 < 64" "b mod 16 * 4 + c div 64 < 64"
    by linarith+
qed (use assms in simp_all)

lemma quad_bytes:
  fixes a b c :: nat
  assumes "b < 256" "c < 256"
  shows "a div 4 * 4 + (a mod 4 * 16 + b div 16) div 16 = a"
    "(a mod 4 * 16 + b div 16) mod 16 * 16 + (b mod 16 * 4 + c div 64) div 4 = b"
    "(b mod 16 * 4 + c div 64) mod 4 * 64 + c mod 64 = c"
proof -
  have "b div 16 < 16" "c div 64 < 4"
    using assms by simp_all
  then have "b div 16 div 16 = 0" "b div 16 mod 16 = b div 16" "c div 64 div 4 = 0"
    "c div 64 mod 4 = c div 64"
    by simp_all
  then show "a div 4 * 4 + (a mod 4 * 16 + b div 16) div 16 = a"
    "(a mod 4 * 16 + b div 16) mod 16 * 16 + (b mod 16 * 4 + c div 64) div 4 = b"
    "(b mod 16 * 4 + c div 64) mod 4 * 64 + c mod 64 = c"
    by simp_all
qed

lemma b64_group_quad:
  assumes "b < 256" "c < 256"
  shows "b64_group (a div 4) (a mod 4 * 16 + b div 16) (b mod 16 * 4 + c div 64) (c mod 64) =
    map char_of_byte [a, b, c]"
  unfolding b64_group_def quad_bytes [OF assms] ..

lemma b64_quad_nth:
  "b64_quad a b c = [b64_enc_char (a div 4), b64_enc_char (a mod 4 * 16 + b div 16),
     b64_enc_char (b mod 16 * 4 + c div 64), b64_enc_char (c mod 64)]"
  by (simp add: b64_quad_def)

lemma b64_decode_groups_quad:
  assumes "a < 256" "b < 256" "c < 256"
  shows "b64_decode_groups (b64_quad a b c @ rest) =
    map_option (\<lambda>t. map char_of_byte [a, b, c] @ t) (b64_decode_groups rest)"
  unfolding b64_quad_nth append_Cons append_Nil b64_decode_groups.simps
    quad_digits [OF assms, THEN b64_dec_enc_char] prod.case option.case b64_group_quad [OF assms(2,3)] ..

lemma b64_decode_groups_encode: "b64_decode_groups (b64_encode s) = Some s"
proof (induction s rule: b64_encode.induct)
  case (2 x)
  have z: "(0::nat) < 256" by simp
  have d: "b64_dec_char (b64_enc_char (byte_of x div 4)) = Some (byte_of x div 4)"
    "b64_dec_char (b64_enc_char (byte_of x mod 4 * 16 + 0 div 16)) = Some (byte_of x mod 4 * 16 + 0 div 16)"
    by (rule b64_dec_enc_char, rule quad_digits [OF byte_of_less z z])+
  from b64_group_quad [OF z z, of "byte_of x"] d show ?case
    by (simp add: b64_quad_nth)
next
  case (3 x y)
  have z: "(0::nat) < 256" by simp
  note q = quad_digits [OF byte_of_less [of x] byte_of_less [of y] z]
  from b64_group_quad [OF byte_of_less [of y] z, of "byte_of x"]
  show ?case
    using q by (simp add: b64_quad_nth b64_dec_enc_char)
next
  case (4 x y z r)
  then show ?case
    by (simp add: b64_decode_groups_quad)
qed simp

lemma b64_quad_text:
  assumes "a < 256" "b < 256" "c < 256"
  shows "\<forall>x \<in> set (b64_quad a b c). x \<noteq> CHR 0x0A \<and> x \<noteq> CHR 0x0D"
  using quad_digits [OF assms] by (auto simp: b64_quad_def b64_enc_char_text)

lemma b64_encode_text: "\<forall>x \<in> set (b64_encode s). x \<noteq> CHR 0x0A \<and> x \<noteq> CHR 0x0D"
proof (induction s rule: b64_encode.induct)
  case (2 x)
  then show ?case
    using b64_quad_text [OF byte_of_less [of x], of 0 0] by (auto dest: in_set_takeD)
next
  case (3 x y)
  then show ?case
    using b64_quad_text [OF byte_of_less [of x] byte_of_less [of y], of 0] by (auto dest: in_set_takeD)
next
  case (4 x y z r)
  then show ?case
    using b64_quad_text [OF byte_of_less [of x] byte_of_less [of y] byte_of_less [of z]] by auto
qed simp

lemma b64_round_trip: "b64_decode (b64_encode s) = Some s"
proof -
  have "filter (\<lambda>c. c \<noteq> CHR 0x0A \<and> c \<noteq> CHR 0x0D) (b64_encode s) = b64_encode s"
    using b64_encode_text [of s] by (simp add: filter_id_conv)
  then show ?thesis
    by (simp add: b64_decode_def b64_decode_groups_encode)
qed

interpretation b64: codec b64_encode b64_decode
  by unfold_locales (rule b64_round_trip)

lemma b64_encode_nonempty: "s \<noteq> [] \<Longrightarrow> b64_encode s \<noteq> []"
  using b64_round_trip [of s] by (auto simp: b64_decode_def)

end
