(* ===== verification/Turn.thy ===== *)
theory Turn
  imports Json Base64
begin

text \<open>
  \<open>src/turn\<close>: the two ways the server obtains TURN credentials for a client. The shared-secret server
  computes them (\<open>sharedecret.go\<close>), the server-auth server asks a web service (\<open>serverauth.go\<close>); both
  implement the interface \<open>turn.Server\<close>, which is the locale \<open>turn_server\<close>. The cryptographic
  functions and the HTTP client are arguments.
\<close>

section \<open>Client configuration\<close>

record ClientConfig =
  tc_Username :: string
  tc_Password :: string
  tc_TTL :: int
  tc_URIs :: "string list"

definition DefaultServerTTL :: int where "DefaultServerTTL = 3600"

section \<open>Shared secret\<close>

record SharedsecretServer =
  sh_ttl :: int
  sh_sharedSecret :: string
  sh_uris :: "string list"

definition NewSharedsecretServer :: "string list \<Rightarrow> string \<Rightarrow> int \<Rightarrow> SharedsecretServer" where
  "NewSharedsecretServer uris sharedSecret ttl =
     (let ttl' = (if ttl = 0 then DefaultServerTTL else ttl)
      in \<lparr>sh_ttl = ttl', sh_sharedSecret = sharedSecret, sh_uris = uris\<rparr>)"

definition GenerateUsername :: "time \<Rightarrow> SharedsecretServer \<Rightarrow> string \<Rightarrow> string" where
  "GenerateUsername now s username =
     (let timestamp = i64_wrap (unix_of now + sh_ttl s) in show_int timestamp @ '':'' @ username)"

definition GenerateTURNPassword ::
  "(string \<Rightarrow> string \<Rightarrow> string) \<Rightarrow> SharedsecretServer \<Rightarrow> string \<Rightarrow> string" where
  "GenerateTURNPassword hmac_sha1 s username = b64_encode (hmac_sha1 (sh_sharedSecret s) username)"

definition Sharedsecret_GetConfig ::
  "(string \<Rightarrow> string \<Rightarrow> string) \<Rightarrow> time \<Rightarrow> SharedsecretServer \<Rightarrow> string \<Rightarrow> string + ClientConfig" where
  "Sharedsecret_GetConfig hmac_sha1 now s username =
     (let turnUsername = GenerateUsername now s username;
          turnPassword = GenerateTURNPassword hmac_sha1 s turnUsername
      in Inr \<lparr>tc_Username = turnUsername, tc_Password = turnPassword, tc_TTL = sh_ttl s,
              tc_URIs = sh_uris s\<rparr>)"

section \<open>Web service\<close>

record serverResponse =
  sr_Username :: string
  sr_Password :: string
  sr_TTL :: int
  sr_URIs :: "string list"

definition zero_response :: serverResponse where
  "zero_response = \<lparr>sr_Username = [], sr_Password = [], sr_TTL = 0, sr_URIs = []\<rparr>"

text \<open>A \<open>[]string\<close> field: \<open>null\<close> gives the nil slice, a \<open>null\<close> element the empty string.\<close>

fun decode_strs :: "json list \<Rightarrow> string list option" where
  "decode_strs [] = Some []"
| "decode_strs (JStr s # js) = map_option (\<lambda>ss. s # ss) (decode_strs js)"
| "decode_strs (JNull # js) = map_option (\<lambda>ss. [] # ss) (decode_strs js)"
| "decode_strs _ = None"

definition set_response_field :: "string \<Rightarrow> json \<Rightarrow> serverResponse \<Rightarrow> serverResponse option" where
  "set_response_field k j r =
     (if k = ''username'' then set_str (\<lambda>s. sr_Username_update (\<lambda>_. s)) j r
      else if k = ''password'' then set_str (\<lambda>s. sr_Password_update (\<lambda>_. s)) j r
      else if k = ''ttl'' then set_i64 (\<lambda>n. sr_TTL_update (\<lambda>_. n)) j r
      else if k = ''uris'' then
        (case j of
           JArr js \<Rightarrow> map_option (\<lambda>us. r\<lparr>sr_URIs := us\<rparr>) (decode_strs js)
         | JNull \<Rightarrow> Some (r\<lparr>sr_URIs := []\<rparr>)
         | _ \<Rightarrow> None)
      else None)"

definition decode_response :: "json \<Rightarrow> serverResponse option" where
  "decode_response =
     decode_struct [''username'', ''password'', ''ttl'', ''uris''] set_response_field zero_response"

definition response_ClientConfig :: "serverResponse \<Rightarrow> string + ClientConfig" where
  "response_ClientConfig sr =
     (if sr_Username sr = [] \<or> sr_URIs sr = [] then Inl ''TURN service data not available''
      else let ttl = (if sr_TTL sr < 60 then 60 else sr_TTL sr)
        in Inr \<lparr>tc_Username = sr_Username sr, tc_Password = sr_Password sr, tc_TTL = ttl,
                tc_URIs = sr_URIs sr\<rparr>)"

record ServerAuthServer =
  sa_url :: string
  sa_username :: string
  sa_password :: string

definition NewServerAuthServer :: "string \<Rightarrow> string \<Rightarrow> string \<Rightarrow> ServerAuthServer" where
  "NewServerAuthServer url username password =
     \<lparr>sa_url = url, sa_username = username, sa_password = password\<rparr>"

record turn_request =
  tq_url :: string
  tq_user :: string
  tq_basicUser :: string
  tq_basicPassword :: string

text \<open>\<open>base64.URLEncoding\<close> differs from the standard alphabet in its last two characters.\<close>

definition b64url_encode :: "string \<Rightarrow> string" where
  "b64url_encode s =
     map (\<lambda>c. if c = CHR ''+'' then CHR ''-'' else if c = CHR ''/'' then CHR ''_'' else c) (b64_encode s)"

text \<open>
  \<open>newReq\<close> is the error of \<open>http.NewRequest\<close>, if any; \<open>do\<close> is the HTTP client: an error, or a status
  with the body's JSON value.
\<close>

definition ServerAuth_GetConfig ::
  "(string \<Rightarrow> string) \<Rightarrow> (string \<Rightarrow> string option) \<Rightarrow> (turn_request \<Rightarrow> string + nat \<times> json option) \<Rightarrow>
   ServerAuthServer \<Rightarrow> string \<Rightarrow> string + ClientConfig" where
  "ServerAuth_GetConfig sha256 newReq do_req s username =
     (let un = b64url_encode (sha256 username)
      in case newReq (sa_url s) of
           Some e \<Rightarrow> Inl e
         | None \<Rightarrow>
             (case do_req \<lparr>tq_url = sa_url s, tq_user = un, tq_basicUser = sa_username s,
                            tq_basicPassword = sa_password s\<rparr> of
                Inl e \<Rightarrow> Inl e
              | Inr (status, body) \<Rightarrow>
                  if status \<noteq> 200 then
                    Inl (''TURN service unexpected response status: '' @ show_nat status)
                  else case Option.bind body decode_response of
                    None \<Rightarrow> Inl ''TURN service response decode error''
                  | Some data \<Rightarrow> response_ClientConfig data))"

section \<open>The interface\<close>

text \<open>
  What the RTM manager relies on when it hands a configuration to a client: a name to log in with,
  at least one server to talk to, and credentials that live for a minute or more.
\<close>

definition usable_config :: "ClientConfig \<Rightarrow> bool" where
  "usable_config c \<longleftrightarrow> tc_Username c \<noteq> [] \<and> tc_URIs c \<noteq> [] \<and> 60 \<le> tc_TTL c"

locale turn_server =
  fixes getConfig :: "'env \<Rightarrow> 'srv \<Rightarrow> string \<Rightarrow> string + ClientConfig"
    and configured :: "'srv \<Rightarrow> bool"
  assumes getConfig_usable:
    "configured srv \<Longrightarrow> getConfig env srv user = Inr c \<Longrightarrow> usable_config c"
begin

lemma answer_usable:
  "configured srv \<Longrightarrow>
   (case getConfig env srv user of Inl _ \<Rightarrow> True | Inr c \<Rightarrow> usable_config c)"
  by (auto split: sum.splits intro: getConfig_usable)

end

text \<open>The environment of a request: the clock, the cryptographic functions, the HTTP client.\<close>

record turn_env =
  te_now :: time
  te_hmac_sha1 :: "string \<Rightarrow> string \<Rightarrow> string"
  te_sha256 :: "string \<Rightarrow> string"
  te_newReq :: "string \<Rightarrow> string option"
  te_do :: "turn_request \<Rightarrow> string + nat \<times> json option"

datatype turn_Server = TurnShared SharedsecretServer | TurnServerAuth ServerAuthServer

definition turn_GetConfig :: "turn_env \<Rightarrow> turn_Server \<Rightarrow> string \<Rightarrow> string + ClientConfig" where
  "turn_GetConfig env srv user =
     (case srv of
        TurnShared s \<Rightarrow> Sharedsecret_GetConfig (te_hmac_sha1 env) (te_now env) s user
      | TurnServerAuth s \<Rightarrow> ServerAuth_GetConfig (te_sha256 env) (te_newReq env) (te_do env) s user)"

text \<open>
  The TURN part of \<open>Server.Serve\<close> (\<open>src/signaling/server/server.go\<close>): which server the configuration
  selects. \<open>None\<close> means that TURN is off.
\<close>

record turn_settings =
  ts_URIs :: "string list"
  ts_SharedSecret :: "string option"
  ts_ServiceURL :: string
  ts_ServiceUsername :: string
  ts_ServicePassword :: string

definition setup_turn :: "turn_settings \<Rightarrow> string + turn_Server option" where
  "setup_turn cfg =
     (case ts_SharedSecret cfg of
        Some secret \<Rightarrow>
          if ts_URIs cfg = [] then Inl ''at least one turn-uri is required but none given''
          else Inr (Some (TurnShared (NewSharedsecretServer (ts_URIs cfg) secret 0)))
      | None \<Rightarrow>
          if ts_ServiceUsername cfg \<noteq> [] then
            (if ts_ServiceURL cfg = [] then Inl ''TURN server service URL cannot be empty''
             else Inr (Some (TurnServerAuth
               (NewServerAuthServer (ts_ServiceURL cfg) (ts_ServiceUsername cfg) (ts_ServicePassword cfg)))))
          else Inr None)"

definition turn_configured :: "turn_Server \<Rightarrow> bool" where
  "turn_configured srv \<longleftrightarrow> (\<exists>cfg. setup_turn cfg = Inr (Some srv))"

section \<open>Lemmas\<close>

lemma GenerateUsername_nonempty: "GenerateUsername now s u \<noteq> []"
  by (simp add: GenerateUsername_def)

lemma ServerAuth_usable:
  "ServerAuth_GetConfig sha256 newReq do_req s u = Inr c \<Longrightarrow> usable_config c"
  by (auto simp: ServerAuth_GetConfig_def response_ClientConfig_def usable_config_def Let_def
      split: option.splits sum.splits prod.splits if_splits)

lemma Shared_usable:
  assumes "sh_uris s \<noteq> []" and "60 \<le> sh_ttl s" and "Sharedsecret_GetConfig h now s u = Inr c"
  shows "usable_config c"
  using assms GenerateUsername_nonempty [of now s u]
  by (auto simp: Sharedsecret_GetConfig_def usable_config_def Let_def)

interpretation turn: turn_server turn_GetConfig turn_configured
proof unfold_locales
  fix srv env user c
  assume conf: "turn_configured srv" and get: "turn_GetConfig env srv user = Inr c"
  show "usable_config c"
  proof (cases srv)
    case (TurnShared s)
    with conf have "sh_uris s \<noteq> []" and "60 \<le> sh_ttl s"
      by (auto simp: turn_configured_def setup_turn_def NewSharedsecretServer_def
          DefaultServerTTL_def split: option.splits if_splits)
    with get TurnShared show ?thesis
      by (auto simp: turn_GetConfig_def intro: Shared_usable)
  next
    case (TurnServerAuth s)
    with get show ?thesis
      by (auto simp: turn_GetConfig_def intro: ServerAuth_usable)
  qed
qed

section \<open>What the TURN server checks\<close>

text \<open>
  The check of the TURN REST convention the code follows: the user name starts with the time of
  expiry as a decimal number up to a colon, and the password is the encoded keyed hash of the user
  name.
\<close>

definition turn_accepts ::
  "(string \<Rightarrow> string \<Rightarrow> string) \<Rightarrow> string \<Rightarrow> int \<Rightarrow> string \<Rightarrow> string \<Rightarrow> bool" where
  "turn_accepts hmac_sha1 secret nowUnix username password \<longleftrightarrow>
     b64_decode password = Some (hmac_sha1 secret username) \<and>
     nowUnix \<le> int (read_nat (takeWhile (\<lambda>c. c \<noteq> CHR '':'') username))"

lemma GenerateUsername_expiry:
  assumes "0 \<le> unix_of now + sh_ttl s" and "unix_of now + sh_ttl s < 2 ^ 63"
  shows "int (read_nat (takeWhile (\<lambda>c. c \<noteq> CHR '':'') (GenerateUsername now s u))) =
    unix_of now + sh_ttl s"
proof -
  let ?n = "nat (unix_of now + sh_ttl s)"
  have "GenerateUsername now s u = show_nat ?n @ CHR '':'' # u"
    using assms by (simp add: GenerateUsername_def show_int_def i64_wrap_id)
  moreover have "\<forall>c \<in> set (show_nat ?n). c \<noteq> CHR '':''"
    using show_nat_digits [of ?n] by (auto simp: is_digit_def)
  ultimately have "takeWhile (\<lambda>c. c \<noteq> CHR '':'') (GenerateUsername now s u) = show_nat ?n"
    by simp
  then show ?thesis
    using assms by (simp add: read_show_nat)
qed

section \<open>Properties\<close>

text \<open>
  Whatever TURN server \<open>Serve\<close> sets up from the configuration, shared secret or web service, and
  whatever the web service answers: a configuration that reaches a client has a user name, at least
  one URI and a lifetime of at least 60 seconds.
\<close>

theorem setup_turn_usable:
  assumes "setup_turn cfg = Inr (Some srv)" and "turn_GetConfig env srv user = Inr c"
  shows "usable_config c"
proof (rule turn.getConfig_usable)
  show "turn_configured srv"
    using assms(1) by (auto simp: turn_configured_def)
qed (rule assms(2))

definition example_turn_settings :: turn_settings where
  "example_turn_settings = \<lparr>ts_URIs = [''turn:t''], ts_SharedSecret = Some ''s'', ts_ServiceURL = [],
     ts_ServiceUsername = [], ts_ServicePassword = []\<rparr>"

definition example_turn_env :: turn_env where
  "example_turn_env = \<lparr>te_now = 7 * second, te_hmac_sha1 = (\<lambda>k m. k @ m), te_sha256 = (\<lambda>m. m),
     te_newReq = (\<lambda>_. None), te_do = (\<lambda>_. Inl ''down'')\<rparr>"

theorem setup_turn_usable_witness:
  "\<exists>srv c. setup_turn example_turn_settings = Inr (Some srv) \<and>
     turn_GetConfig example_turn_env srv ''u'' = Inr c \<and> usable_config c"
proof -
  let ?srv = "TurnShared (NewSharedsecretServer [''turn:t''] ''s'' 0)"
  have s: "setup_turn example_turn_settings = Inr (Some ?srv)"
    by (simp add: setup_turn_def example_turn_settings_def)
  obtain c where c: "turn_GetConfig example_turn_env ?srv ''u'' = Inr c"
    by (simp add: turn_GetConfig_def Sharedsecret_GetConfig_def Let_def)
  from setup_turn_usable [OF s c] s c show ?thesis by blast
qed

text \<open>
  C38. Credentials issued from the shared secret pass the TURN server's check exactly until the time
  they were issued plus the lifetime they announce.
\<close>

theorem shared_credentials_valid:
  assumes "0 \<le> unix_of now + sh_ttl s" and "unix_of now + sh_ttl s < 2 ^ 63"
    and "Sharedsecret_GetConfig hmac_sha1 now s user = Inr c"
  shows "turn_accepts hmac_sha1 (sh_sharedSecret s) t (tc_Username c) (tc_Password c) \<longleftrightarrow>
    t \<le> unix_of now + tc_TTL c"
proof -
  have "tc_Username c = GenerateUsername now s user"
    and "tc_Password c = b64_encode (hmac_sha1 (sh_sharedSecret s) (GenerateUsername now s user))"
    and "tc_TTL c = sh_ttl s"
    using assms(3) by (auto simp: Sharedsecret_GetConfig_def GenerateTURNPassword_def Let_def)
  then show ?thesis
    using GenerateUsername_expiry [OF assms(1,2), of user]
    by (simp add: turn_accepts_def b64.dec_enc)
qed

theorem shared_credentials_valid_witness:
  "\<exists>c. Sharedsecret_GetConfig (\<lambda>k m. k @ m) (7 * second) (NewSharedsecretServer [''turn:t''] ''s'' 0) ''u'' = Inr c \<and>
     turn_accepts (\<lambda>k m. k @ m) ''s'' 3607 (tc_Username c) (tc_Password c) \<and>
     \<not> turn_accepts (\<lambda>k m. k @ m) ''s'' 3608 (tc_Username c) (tc_Password c)"
proof -
  let ?s = "NewSharedsecretServer [''turn:t''] ''s'' 0"
  have ttl: "sh_ttl ?s = 3600" and sec: "sh_sharedSecret ?s = ''s''"
    by (simp_all add: NewSharedsecretServer_def DefaultServerTTL_def)
  obtain c where c: "Sharedsecret_GetConfig (\<lambda>k m. k @ m) (7 * second) ?s ''u'' = Inr c" and t: "tc_TTL c = 3600"
    by (simp add: Sharedsecret_GetConfig_def Let_def ttl)
  have h: "0 \<le> unix_of (7 * second) + sh_ttl ?s" "unix_of (7 * second) + sh_ttl ?s < 2 ^ 63"
    by (simp_all add: unix_of_def ttl)
  note v = shared_credentials_valid [OF h c, unfolded sec t]
  have "turn_accepts (\<lambda>k m. k @ m) ''s'' 3607 (tc_Username c) (tc_Password c)"
    "\<not> turn_accepts (\<lambda>k m. k @ m) ''s'' 3608 (tc_Username c) (tc_Password c)"
    unfolding v by (simp_all add: unix_of_def)
  with c show ?thesis by blast
qed

end
