(* ===== verification/Rtm_State.thy ===== *)
theory Rtm_State
  imports Connection Admin Turn
begin

text \<open>
  The state of the signalling core: the RTM manager with its tables (\<open>src/signaling/rtm/manager.go\<close>), the MCU
  manager (\<open>src/signaling/mcu/manager.go\<close>), and the objects both share by pointer: connections, user
  records, channels, pipelines and attached records. A pointer is a natural number; an explicit
  store maps the pointers of each kind to the objects, and one counter hands out fresh pointers.
  Goroutines that an operation starts with \<open>go\<close> are pending tasks; a step of the system may run any
  of them later.
\<close>

section \<open>Pointers, callbacks, tasks\<close>

type_synonym conn_ref = nat
type_synonym user_ref = nat
type_synonym chan_ref = nat
type_synonym pipe_ref = nat
type_synonym att_ref = nat

datatype ChannelOp = ChannelOpAdd | ChannelOpRemove | ChannelOpReset

text \<open>
  The closures that are registered with \<open>Connection.OnClosed\<close>: removal of exactly this connection from a
  channel (\<open>Channel.Add\<close>), the pipeline's \<open>onClosed\<close>, and the reset of an attached record (MCU handler).
\<close>

datatype closed_cb =
    CbChannelRemove chan_ref string conn_ref
  | CbPipelineClosed pipe_ref
  | CbAttachedClosed att_ref

datatype bound_value = BoundUser user_ref | BoundAttached att_ref

record WebsocketMessage =
  mx_Type :: string
  mx_Transaction :: string
  mx_Plugin :: string
  mx_Handle :: int

datatype payload =
    PHello RTMTypeHello
  | PError RTMTypeError
  | PPong RTMTypePingPong
  | PWebRTC RTMTypeWebRTC
  | PWebRTCReply RTMTypeWebRTCReply
  | PChats RTMTypeChats
  | PChatsReply RTMTypeChatsReply
  | PMcu WebsocketMessage

type_synonym conn = "(payload, bound_value, closed_cb, unit) connection"

datatype task =
    TEmitChats conn_ref chan_ref ChannelOp string
  | TAfterAddOrRemove chan_ref ChannelOp string
  | TAfterReset chan_ref
  | TPipelineConnect pipe_ref chan_ref
  | TPipelineClose pipe_ref
  | TPipelineReconnect pipe_ref
  | TPipelineWatch pipe_ref
  | TReconnectTimer pipe_ref
  | TWatchTimer pipe_ref

section \<open>Objects\<close>

record userRecord =
  ur_id :: string
  ur_auth :: "AdminAuthToken option"
  ur_when :: time
  ur_exit :: time
  ur_connections :: "conn_ref list"

record keyRecord =
  kr_when :: time
  kr_user :: "user_ref option"

text \<open>
  The handlers of a channel configuration are set or nil; the ones the program sets are the methods
  \<open>onGroupReplace\<close>, \<open>onAfterGroupAddOrRemove\<close> and \<open>onAfterGroupChannelReset\<close> of the manager.
\<close>

record ChannelConfig =
  cc_Group :: string
  cc_Replace :: bool
  cc_AfterAddOrRemove :: bool
  cc_AfterReset :: bool

definition ChannelDefaultConfig :: ChannelConfig where
  "ChannelDefaultConfig = \<lparr>cc_Group = [], cc_Replace = False, cc_AfterAddOrRemove = False,
     cc_AfterReset = False\<rparr>"

text \<open>
  \<open>ch_locked\<close> records that a call returned while it still holds the channel's write lock: whoever
  locks the channel next waits forever.
\<close>

record Channel =
  ch_closed :: bool
  ch_id :: string
  ch_config :: "ChannelConfig option"
  ch_connections :: "(string, conn_ref) gomap"
  ch_pipeline :: "pipe_ref option"
  ch_locked :: bool

record channelRecord =
  cr_when :: time
  cr_channel :: chan_ref

text \<open>
  \<open>mcu.Pipeline\<close>. The three handlers \<open>Connect\<close> stores are closures over one channel; the timers are
  present or nil.
\<close>

record Pipeline =
  pl_plugin :: string
  pl_handle :: int
  pl_id :: string
  pl_handlers :: "chan_ref option"
  pl_connecting :: bool
  pl_closed :: bool
  pl_reconnector :: bool
  pl_watcher :: bool
  pl_connection :: "conn_ref option"

record attachedRecord =
  ar_when :: time
  ar_connection :: "conn_ref option"
  ar_onConnect :: "pipe_ref option"
  ar_onText :: "pipe_ref option"

section \<open>Managers\<close>

definition connectExpiration :: duration where "connectExpiration = 30 * second"
definition channelExpiration :: duration where "channelExpiration = 1 * minute"

record rtm_Manager =
  rm_insecure :: bool
  rm_requiredScopes :: "string list"
  rm_mcum :: bool
  rm_pipelineForcedPattern :: "(string \<Rightarrow> bool) option"
  rm_oidc :: bool
  rm_turnsrv :: "turn_Server option"
  rm_keys :: "(string, keyRecord) gomap"
  rm_serverStatus :: "ServerStatus option"
  rm_count :: u64
  rm_handles :: u64
  rm_connections :: "(string, conn_ref) gomap"
  rm_users :: "(string, user_ref) gomap"
  rm_channels :: "(string, channelRecord) gomap"

text \<open>
  \<open>rm_mcum\<close> and \<open>rm_oidc\<close> say whether the pointer to the MCU manager and to the OIDC provider is set. \<open>mm_connections\<close> is the linked list of control connections and
  \<open>mm_connection\<close> the list element the last \<open>GetConnection\<close> stopped at; each connection is pushed once,
  so that it names its element.
\<close>

record mcu_Manager =
  mm_count :: u64
  mm_handles :: u64
  mm_connections :: "conn_ref list"
  mm_connection :: "conn_ref option"
  mm_attached :: "(string, att_ref) gomap"

text \<open>The Prometheus counters of \<open>rtm/metrics.go\<close>; each only ever goes up by one.\<close>

record rtm_metrics =
  mt_channelNew :: nat
  mt_channelCleanup :: nat
  mt_channelAdd :: nat
  mt_channelRemove :: nat
  mt_connectionAdd :: nat
  mt_connectionRemove :: nat
  mt_userNew :: nat
  mt_userCleanup :: nat
  mt_httpConnect :: nat
  mt_httpTURN :: nat
  mt_httpWebsocket :: nat

record world =
  w_rtm :: rtm_Manager
  w_mcu :: mcu_Manager
  w_admin :: admin_Manager
  w_conns :: "conn_ref \<Rightarrow> conn"
  w_users :: "user_ref \<Rightarrow> userRecord"
  w_chans :: "chan_ref \<Rightarrow> Channel"
  w_pipes :: "pipe_ref \<Rightarrow> Pipeline"
  w_atts :: "att_ref \<Rightarrow> attachedRecord"
  w_next :: nat
  w_tasks :: "task list"
  w_metrics :: rtm_metrics

text \<open>What a handler reads of its surroundings: the clock, the keyed channel hash, one random string.\<close>

record rtm_env =
  en_now :: time
  en_mac :: "string \<Rightarrow> string"
  en_rnd :: string
  en_jwt_sign :: jwt_signer

text \<open>
  The outcome of a handler: nil, an error, a panic (which ends the process, since no goroutine of the
  program recovers), or a wait on a lock that is never released.
\<close>

datatype handler_result = HNil | HErr go_error | HPanic | HBlocked

section \<open>Elementary operations\<close>

definition upd_conn :: "conn_ref \<Rightarrow> (conn \<Rightarrow> conn) \<Rightarrow> world \<Rightarrow> world" where
  "upd_conn c f w = w\<lparr>w_conns := (w_conns w)(c := f (w_conns w c))\<rparr>"

definition upd_chan :: "chan_ref \<Rightarrow> (Channel \<Rightarrow> Channel) \<Rightarrow> world \<Rightarrow> world" where
  "upd_chan h f w = w\<lparr>w_chans := (w_chans w)(h := f (w_chans w h))\<rparr>"

definition upd_user :: "user_ref \<Rightarrow> (userRecord \<Rightarrow> userRecord) \<Rightarrow> world \<Rightarrow> world" where
  "upd_user u f w = w\<lparr>w_users := (w_users w)(u := f (w_users w u))\<rparr>"

definition upd_pipe :: "pipe_ref \<Rightarrow> (Pipeline \<Rightarrow> Pipeline) \<Rightarrow> world \<Rightarrow> world" where
  "upd_pipe p f w = w\<lparr>w_pipes := (w_pipes w)(p := f (w_pipes w p))\<rparr>"

definition upd_att :: "att_ref \<Rightarrow> (attachedRecord \<Rightarrow> attachedRecord) \<Rightarrow> world \<Rightarrow> world" where
  "upd_att a f w = w\<lparr>w_atts := (w_atts w)(a := f (w_atts w a))\<rparr>"

definition upd_rtm :: "(rtm_Manager \<Rightarrow> rtm_Manager) \<Rightarrow> world \<Rightarrow> world" where
  "upd_rtm f w = w\<lparr>w_rtm := f (w_rtm w)\<rparr>"

definition upd_mcu :: "(mcu_Manager \<Rightarrow> mcu_Manager) \<Rightarrow> world \<Rightarrow> world" where
  "upd_mcu f w = w\<lparr>w_mcu := f (w_mcu w)\<rparr>"

definition inc_metric :: "(rtm_metrics \<Rightarrow> rtm_metrics) \<Rightarrow> world \<Rightarrow> world" where
  "inc_metric f w = w\<lparr>w_metrics := f (w_metrics w)\<rparr>"

definition spawn :: "task \<Rightarrow> world \<Rightarrow> world" where
  "spawn t w = w\<lparr>w_tasks := w_tasks w @ [t]\<rparr>"

text \<open>\<open>Connection.Send\<close> and \<open>RawSend\<close>: the error, if any, and the new state.\<close>

definition w_send :: "conn_ref \<Rightarrow> payload \<Rightarrow> world \<Rightarrow> string option \<times> world" where
  "w_send c p w =
     (case RawSend p (w_conns w c) of
        Inl e \<Rightarrow> (Some e, w)
      | Inr conn \<Rightarrow> (None, upd_conn c (\<lambda>_. conn) w))"

text \<open>A send whose error the code ignores or only logs.\<close>

definition send_to :: "payload \<Rightarrow> conn_ref \<Rightarrow> world \<Rightarrow> world" where
  "send_to p c w = snd (w_send c p w)"

definition send_all :: "payload \<Rightarrow> conn_ref list \<Rightarrow> world \<Rightarrow> world" where
  "send_all p cs w = fold (send_to p) cs w"

section \<open>Frame lemmas\<close>

text \<open>Each elementary operation changes one part of the state.\<close>

lemmas upd_defs = upd_conn_def upd_chan_def upd_user_def upd_pipe_def upd_att_def upd_rtm_def
  upd_mcu_def inc_metric_def spawn_def

lemma upd_conn_frame [simp, frame_simps]:
  "w_rtm (upd_conn c f w) = w_rtm w" "w_mcu (upd_conn c f w) = w_mcu w" "w_admin (upd_conn c f w) = w_admin w"
  "w_users (upd_conn c f w) = w_users w" "w_chans (upd_conn c f w) = w_chans w"
  "w_pipes (upd_conn c f w) = w_pipes w" "w_atts (upd_conn c f w) = w_atts w"
  "w_next (upd_conn c f w) = w_next w" "w_tasks (upd_conn c f w) = w_tasks w"
  "w_metrics (upd_conn c f w) = w_metrics w" "w_conns (upd_conn c f w) = (w_conns w)(c := f (w_conns w c))"
  by (simp_all add: upd_conn_def)

lemma upd_chan_frame [simp, frame_simps]:
  "w_rtm (upd_chan c f w) = w_rtm w" "w_mcu (upd_chan c f w) = w_mcu w" "w_admin (upd_chan c f w) = w_admin w"
  "w_users (upd_chan c f w) = w_users w" "w_conns (upd_chan c f w) = w_conns w"
  "w_pipes (upd_chan c f w) = w_pipes w" "w_atts (upd_chan c f w) = w_atts w"
  "w_next (upd_chan c f w) = w_next w" "w_tasks (upd_chan c f w) = w_tasks w"
  "w_metrics (upd_chan c f w) = w_metrics w" "w_chans (upd_chan c f w) = (w_chans w)(c := f (w_chans w c))"
  by (simp_all add: upd_chan_def)

lemma upd_user_frame [simp, frame_simps]:
  "w_rtm (upd_user c f w) = w_rtm w" "w_mcu (upd_user c f w) = w_mcu w" "w_admin (upd_user c f w) = w_admin w"
  "w_chans (upd_user c f w) = w_chans w" "w_conns (upd_user c f w) = w_conns w"
  "w_pipes (upd_user c f w) = w_pipes w" "w_atts (upd_user c f w) = w_atts w"
  "w_next (upd_user c f w) = w_next w" "w_tasks (upd_user c f w) = w_tasks w"
  "w_metrics (upd_user c f w) = w_metrics w" "w_users (upd_user c f w) = (w_users w)(c := f (w_users w c))"
  by (simp_all add: upd_user_def)

lemma upd_pipe_frame [simp, frame_simps]:
  "w_rtm (upd_pipe c f w) = w_rtm w" "w_mcu (upd_pipe c f w) = w_mcu w" "w_admin (upd_pipe c f w) = w_admin w"
  "w_users (upd_pipe c f w) = w_users w" "w_conns (upd_pipe c f w) = w_conns w"
  "w_chans (upd_pipe c f w) = w_chans w" "w_atts (upd_pipe c f w) = w_atts w"
  "w_next (upd_pipe c f w) = w_next w" "w_tasks (upd_pipe c f w) = w_tasks w"
  "w_metrics (upd_pipe c f w) = w_metrics w" "w_pipes (upd_pipe c f w) = (w_pipes w)(c := f (w_pipes w c))"
  by (simp_all add: upd_pipe_def)

lemma upd_att_frame [simp, frame_simps]:
  "w_rtm (upd_att c f w) = w_rtm w" "w_mcu (upd_att c f w) = w_mcu w" "w_admin (upd_att c f w) = w_admin w"
  "w_users (upd_att c f w) = w_users w" "w_conns (upd_att c f w) = w_conns w"
  "w_chans (upd_att c f w) = w_chans w" "w_pipes (upd_att c f w) = w_pipes w"
  "w_next (upd_att c f w) = w_next w" "w_tasks (upd_att c f w) = w_tasks w"
  "w_metrics (upd_att c f w) = w_metrics w" "w_atts (upd_att c f w) = (w_atts w)(c := f (w_atts w c))"
  by (simp_all add: upd_att_def)

lemma upd_rtm_frame [simp, frame_simps]:
  "w_mcu (upd_rtm f w) = w_mcu w" "w_admin (upd_rtm f w) = w_admin w"
  "w_users (upd_rtm f w) = w_users w" "w_conns (upd_rtm f w) = w_conns w"
  "w_chans (upd_rtm f w) = w_chans w" "w_pipes (upd_rtm f w) = w_pipes w" "w_atts (upd_rtm f w) = w_atts w"
  "w_next (upd_rtm f w) = w_next w" "w_tasks (upd_rtm f w) = w_tasks w"
  "w_metrics (upd_rtm f w) = w_metrics w" "w_rtm (upd_rtm f w) = f (w_rtm w)"
  by (simp_all add: upd_rtm_def)

lemma upd_mcu_frame [simp, frame_simps]:
  "w_rtm (upd_mcu f w) = w_rtm w" "w_admin (upd_mcu f w) = w_admin w"
  "w_users (upd_mcu f w) = w_users w" "w_conns (upd_mcu f w) = w_conns w"
  "w_chans (upd_mcu f w) = w_chans w" "w_pipes (upd_mcu f w) = w_pipes w" "w_atts (upd_mcu f w) = w_atts w"
  "w_next (upd_mcu f w) = w_next w" "w_tasks (upd_mcu f w) = w_tasks w"
  "w_metrics (upd_mcu f w) = w_metrics w" "w_mcu (upd_mcu f w) = f (w_mcu w)"
  by (simp_all add: upd_mcu_def)

lemma inc_metric_frame [simp, frame_simps]:
  "w_rtm (inc_metric f w) = w_rtm w" "w_mcu (inc_metric f w) = w_mcu w" "w_admin (inc_metric f w) = w_admin w"
  "w_users (inc_metric f w) = w_users w" "w_conns (inc_metric f w) = w_conns w"
  "w_chans (inc_metric f w) = w_chans w" "w_pipes (inc_metric f w) = w_pipes w"
  "w_atts (inc_metric f w) = w_atts w" "w_next (inc_metric f w) = w_next w"
  "w_tasks (inc_metric f w) = w_tasks w" "w_metrics (inc_metric f w) = f (w_metrics w)"
  by (simp_all add: inc_metric_def)

lemma spawn_frame [simp, frame_simps]:
  "w_rtm (spawn t w) = w_rtm w" "w_mcu (spawn t w) = w_mcu w" "w_admin (spawn t w) = w_admin w"
  "w_users (spawn t w) = w_users w" "w_conns (spawn t w) = w_conns w"
  "w_chans (spawn t w) = w_chans w" "w_pipes (spawn t w) = w_pipes w" "w_atts (spawn t w) = w_atts w"
  "w_next (spawn t w) = w_next w" "w_metrics (spawn t w) = w_metrics w"
  "w_tasks (spawn t w) = w_tasks w @ [t]"
  by (simp_all add: spawn_def)

text \<open>
  Sending changes nothing but the send queue of the receiver: everything a handler decides on (bound
  user, closed flag, callbacks) is the same before and after.
\<close>

definition same_but_queues :: "world \<Rightarrow> world \<Rightarrow> bool" where
  "same_but_queues w w' \<longleftrightarrow>
     (\<exists>f. w' = w\<lparr>w_conns := f\<rparr> \<and>
        (\<forall>c. \<exists>q. f c = (w_conns w c)\<lparr>cn_send := q\<rparr>))"

lemma same_but_queues_refl [simp]: "same_but_queues w w"
proof -
  have "\<exists>q. w_conns w c = (w_conns w c)\<lparr>cn_send := q\<rparr>" for c
    by (rule exI [of _ "cn_send (w_conns w c)"]) simp
  then show ?thesis
    unfolding same_but_queues_def by (intro exI [of _ "w_conns w"]) simp
qed

lemma same_but_queues_trans:
  assumes "same_but_queues w1 w2" and "same_but_queues w2 w3"
  shows "same_but_queues w1 w3"
proof -
  obtain f where f: "w2 = w1\<lparr>w_conns := f\<rparr>" "\<forall>c. \<exists>q. f c = (w_conns w1 c)\<lparr>cn_send := q\<rparr>"
    using assms(1) by (auto simp: same_but_queues_def)
  obtain g where g: "w3 = w2\<lparr>w_conns := g\<rparr>" "\<forall>c. \<exists>q. g c = (w_conns w2 c)\<lparr>cn_send := q\<rparr>"
    using assms(2) by (auto simp: same_but_queues_def)
  have "\<exists>q. g c = (w_conns w1 c)\<lparr>cn_send := q\<rparr>" for c
  proof -
    obtain q where "f c = (w_conns w1 c)\<lparr>cn_send := q\<rparr>" using f(2) by blast
    moreover obtain q' where "g c = (f c)\<lparr>cn_send := q'\<rparr>" using g(2) f(1) by auto
    ultimately show ?thesis by auto
  qed
  then show ?thesis
    unfolding same_but_queues_def using f(1) g(1) by auto
qed

lemma w_send_same: "same_but_queues w (snd (w_send c p w))"
proof (cases "RawSend p (w_conns w c)")
  case (Inl e)
  then show ?thesis by (simp add: w_send_def)
next
  case (Inr conn)
  then have conn: "conn = (w_conns w c)\<lparr>cn_send := cn_send (w_conns w c) @ [p]\<rparr>"
    by (simp add: RawSend_Inr)
  have "\<exists>q. ((w_conns w)(c := conn)) d = (w_conns w d)\<lparr>cn_send := q\<rparr>" for d
  proof (cases "d = c")
    case False
    then show ?thesis by (auto intro: exI [of _ "cn_send (w_conns w d)"])
  qed (auto simp: conn)
  then show ?thesis
    unfolding same_but_queues_def w_send_def Inr
    by (intro exI [of _ "(w_conns w)(c := conn)"]) (simp add: upd_conn_def)
qed

lemma send_to_same [simp]: "same_but_queues w (send_to p c w)"
  by (simp add: send_to_def w_send_same)

lemma send_all_same [simp]: "same_but_queues w (send_all p cs w)"
  unfolding send_all_def
  by (induction cs arbitrary: w) (auto intro: same_but_queues_trans [OF send_to_same])

lemma same_but_queuesD:
  assumes "same_but_queues w w'"
  shows "w_rtm w' = w_rtm w" "w_mcu w' = w_mcu w" "w_admin w' = w_admin w" "w_users w' = w_users w"
    "w_chans w' = w_chans w" "w_pipes w' = w_pipes w" "w_atts w' = w_atts w" "w_next w' = w_next w"
    "w_tasks w' = w_tasks w" "w_metrics w' = w_metrics w"
    "cn_closed (w_conns w' c) = cn_closed (w_conns w c)"
    "cn_binder (w_conns w' c) = cn_binder (w_conns w c)"
    "cn_onClosedCallbacks (w_conns w' c) = cn_onClosedCallbacks (w_conns w c)"
    "cn_id (w_conns w' c) = cn_id (w_conns w c)"
    "cn_transactions (w_conns w' c) = cn_transactions (w_conns w c)"
proof -
  obtain f where f: "w' = w\<lparr>w_conns := f\<rparr>" "\<forall>c. \<exists>q. f c = (w_conns w c)\<lparr>cn_send := q\<rparr>"
    using assms by (auto simp: same_but_queues_def)
  then obtain q where "f c = (w_conns w c)\<lparr>cn_send := q\<rparr>" by blast
  with f(1) show "w_rtm w' = w_rtm w" "w_mcu w' = w_mcu w" "w_admin w' = w_admin w" "w_users w' = w_users w"
    "w_chans w' = w_chans w" "w_pipes w' = w_pipes w" "w_atts w' = w_atts w" "w_next w' = w_next w"
    "w_tasks w' = w_tasks w" "w_metrics w' = w_metrics w"
    "cn_closed (w_conns w' c) = cn_closed (w_conns w c)"
    "cn_binder (w_conns w' c) = cn_binder (w_conns w c)"
    "cn_onClosedCallbacks (w_conns w' c) = cn_onClosedCallbacks (w_conns w c)"
    "cn_id (w_conns w' c) = cn_id (w_conns w c)"
    "cn_transactions (w_conns w' c) = cn_transactions (w_conns w c)"
    by simp_all
qed

lemmas send_frame [simp] = same_but_queuesD [OF send_to_same] same_but_queuesD [OF send_all_same]
  same_but_queuesD [OF w_send_same]

text \<open>The queue of a connection after a broadcast: one more payload for each accepted send.\<close>

lemma send_to_queue:
  "cn_send (w_conns (send_to p c w) d) =
     (if d = c \<and> \<not> cn_closed (w_conns w c) \<and> length (cn_send (w_conns w c)) < sendCap
      then cn_send (w_conns w d) @ [p] else cn_send (w_conns w d))"
  by (auto simp: send_to_def w_send_def RawSend_def)

lemma send_all_queue_other: "d \<notin> set cs \<Longrightarrow> cn_send (w_conns (send_all p cs w) d) = cn_send (w_conns w d)"
  unfolding send_all_def by (induction cs arbitrary: w) (auto simp: send_to_queue)

lemma send_all_queue:
  "distinct cs \<Longrightarrow> d \<in> set cs \<Longrightarrow> cn_send (w_conns (send_all p cs w) d) =
     (if \<not> cn_closed (w_conns w d) \<and> length (cn_send (w_conns w d)) < sendCap
      then cn_send (w_conns w d) @ [p] else cn_send (w_conns w d))"
proof (induction cs arbitrary: w)
  case (Cons c cs)
  show ?case
  proof (cases "d = c")
    case True
    with Cons.prems have "d \<notin> set cs" by simp
    then have "cn_send (w_conns (send_all p cs (send_to p c w)) d) = cn_send (w_conns (send_to p c w) d)"
      by (rule send_all_queue_other)
    with True show ?thesis
      by (simp add: send_all_def send_to_queue)
  next
    case False
    with Cons have "cn_send (w_conns (send_all p cs (send_to p c w)) d) =
      (if \<not> cn_closed (w_conns (send_to p c w) d) \<and> length (cn_send (w_conns (send_to p c w) d)) < sendCap
       then cn_send (w_conns (send_to p c w) d) @ [p] else cn_send (w_conns (send_to p c w) d))"
      by simp
    with False show ?thesis
      by (simp add: send_all_def send_to_queue)
  qed
qed simp

section \<open>Start\<close>

text \<open>
  \<open>NewManager\<close>: empty tables and an empty server status. The regular expression of the forced
  pipeline pattern is compiled by the library; a pattern that does not compile is dropped.
\<close>

definition rtm_NewManager ::
  "(string \<Rightarrow> (string \<Rightarrow> bool) option) \<Rightarrow> bool \<Rightarrow> string list \<Rightarrow> string \<Rightarrow> bool \<Rightarrow> bool \<Rightarrow> turn_Server option \<Rightarrow>
   rtm_Manager" where
  "rtm_NewManager regexp_compile insecure requiredScopes pattern mcum oidc turnsrv =
     \<lparr>rm_insecure = insecure, rm_requiredScopes = requiredScopes, rm_mcum = mcum,
      rm_pipelineForcedPattern = (if pattern \<noteq> [] then regexp_compile pattern else None),
      rm_oidc = oidc, rm_turnsrv = turnsrv, rm_keys = [],
      rm_serverStatus = Some \<lparr>ss_Kustomer = None\<rparr>, rm_count = 0, rm_handles = 0, rm_connections = [],
      rm_users = [], rm_channels = []\<rparr>"

definition zero_metrics :: rtm_metrics where
  "zero_metrics = \<lparr>mt_channelNew = 0, mt_channelCleanup = 0, mt_channelAdd = 0, mt_channelRemove = 0,
     mt_connectionAdd = 0, mt_connectionRemove = 0, mt_userNew = 0, mt_userCleanup = 0, mt_httpConnect = 0,
     mt_httpTURN = 0, mt_httpWebsocket = 0\<rparr>"

text \<open>The state at start: the managers, no objects, no goroutines.\<close>

definition start_world :: "rtm_Manager \<Rightarrow> admin_Manager \<Rightarrow> world" where
  "start_world rtm admin = \<lparr>w_rtm = rtm,
     w_mcu = \<lparr>mm_count = 0, mm_handles = 0, mm_connections = [], mm_connection = None, mm_attached = []\<rparr>,
     w_admin = admin, w_conns = (\<lambda>_. conn_New [] 0),
     w_users = (\<lambda>_. \<lparr>ur_id = [], ur_auth = None, ur_when = zero_time, ur_exit = zero_time, ur_connections = []\<rparr>),
     w_chans = (\<lambda>_. \<lparr>ch_closed = False, ch_id = [], ch_config = None, ch_connections = [], ch_pipeline = None, ch_locked = False\<rparr>),
     w_pipes = (\<lambda>_. \<lparr>pl_plugin = [], pl_handle = 0, pl_id = [], pl_handlers = None, pl_connecting = False,
       pl_closed = False, pl_reconnector = False, pl_watcher = False, pl_connection = None\<rparr>),
     w_atts = (\<lambda>_. \<lparr>ar_when = zero_time, ar_connection = None, ar_onConnect = None, ar_onText = None\<rparr>),
     w_next = 0, w_tasks = [], w_metrics = zero_metrics\<rparr>"

text \<open>A manager with the default settings and no optional parts, for concrete runs.\<close>

definition example_rtm :: rtm_Manager where
  "example_rtm = rtm_NewManager (\<lambda>_. None) False [] [] False False None"

definition example_world :: world where
  "example_world = start_world example_rtm admin_NewManager"

lemmas example_world_defs = example_world_def example_rtm_def start_world_def rtm_NewManager_def

end
