(* ===== verification/Mcu.thy ===== *)
theory Mcu
  imports Rtm_State "HOL-Library.Multiset"
begin

text \<open>
  The MCU manager (\<open>src/signaling/mcu/manager.go\<close>): the ring of control connections, attaching and
  detaching, the table of attached records and its purge; and the part of a pipeline that its users
  call (\<open>ID\<close>, \<open>Mode\<close>, \<open>Send\<close>). The lemmas show that control connections are handed out round robin.
\<close>

section \<open>Operations\<close>

definition PluginIDKWMRTMChannel :: string where "PluginIDKWMRTMChannel = ''kwm.rtm.channel''"
definition pipelineModeMCUForward :: string where "pipelineModeMCUForward = ''mcu-forward''"

definition mcu_NewManager :: mcu_Manager where
  "mcu_NewManager = \<lparr>mm_count = 0, mm_handles = 0, mm_connections = [], mm_connection = None, mm_attached = []\<rparr>"

definition mcu_NumActive :: "mcu_Manager \<Rightarrow> u64" where
  "mcu_NumActive m = of_nat (length (mm_connections m))"

definition mcu_NewHandle :: "mcu_Manager \<Rightarrow> int \<times> mcu_Manager" where
  "mcu_NewHandle m = (let n = mm_handles m + 1 in (sint n, m\<lparr>mm_handles := n\<rparr>))"

text \<open>
  \<open>list.Element.Next\<close>: the element behind, nil at the end and nil for an element that was removed from
  the list.
\<close>

fun list_next :: "'a list \<Rightarrow> 'a \<Rightarrow> 'a option" where
  "list_next [] x = None"
| "list_next (y # ys) x = (if y = x then (case ys of [] \<Rightarrow> None | z # _ \<Rightarrow> Some z) else list_next ys x)"

definition list_front :: "'a list \<Rightarrow> 'a option" where
  "list_front xs = (case xs of [] \<Rightarrow> None | x # _ \<Rightarrow> Some x)"

definition GetConnection :: "mcu_Manager \<Rightarrow> conn_ref option \<times> mcu_Manager" where
  "GetConnection m =
     (let e1 = (case mm_connection m of None \<Rightarrow> None | Some e \<Rightarrow> list_next (mm_connections m) e);
          e2 = (case e1 of None \<Rightarrow> list_front (mm_connections m) | Some e \<Rightarrow> Some e)
      in (e2, m\<lparr>mm_connection := e2\<rparr>))"

text \<open>
  \<open>Attach\<close> stores an attached record with the pipeline's callbacks under a random transaction id and
  asks a control connection to attach. The record stays when the send fails.
\<close>

definition Attach :: "rtm_env \<Rightarrow> string \<Rightarrow> int \<Rightarrow> pipe_ref \<Rightarrow> world \<Rightarrow> (string + conn_ref) \<times> world" where
  "Attach env plugin handle p w =
     (case GetConnection (w_mcu w) of
        (None, m) \<Rightarrow> (Inl ''no mcu connection available for attaching'', upd_mcu (\<lambda>_. m) w)
      | (Some c, m) \<Rightarrow>
          (let a = w_next w; transaction = en_rnd env;
               w1 = upd_att a (\<lambda>_. \<lparr>ar_when = en_now env, ar_connection = None, ar_onConnect = Some p,
                      ar_onText = Some p\<rparr>) (w\<lparr>w_next := Suc a\<rparr>);
               w2 = upd_mcu (\<lambda>_. m\<lparr>mm_attached := gm_set transaction a (mm_attached m)\<rparr>) w1
           in case w_send c (PMcu \<lparr>mx_Type = ''attach'', mx_Transaction = transaction, mx_Plugin = plugin,
                      mx_Handle = handle\<rparr>) w2 of
                (Some e, w3) \<Rightarrow> (Inl e, w3)
              | (None, w3) \<Rightarrow> (Inr c, w3)))"

definition Detach :: "string \<Rightarrow> int \<Rightarrow> world \<Rightarrow> string option \<times> world" where
  "Detach plugin handle w =
     (case GetConnection (w_mcu w) of
        (None, m) \<Rightarrow> (Some ''no mcu connection available for detaching'', upd_mcu (\<lambda>_. m) w)
      | (Some c, m) \<Rightarrow>
          w_send c (PMcu \<lparr>mx_Type = ''detach'', mx_Transaction = [], mx_Plugin = plugin, mx_Handle = handle\<rparr>)
            (upd_mcu (\<lambda>_. m) w))"

definition mcu_Pipeline :: "string \<Rightarrow> string \<Rightarrow> world \<Rightarrow> pipe_ref \<times> world" where
  "mcu_Pipeline plugin pid w =
     (case mcu_NewHandle (w_mcu w) of
        (handle, m) \<Rightarrow>
          (w_next w,
           upd_pipe (w_next w) (\<lambda>_. \<lparr>pl_plugin = plugin, pl_handle = handle, pl_id = pid, pl_handlers = None,
              pl_connecting = False, pl_closed = False, pl_reconnector = False, pl_watcher = False,
              pl_connection = None\<rparr>)
             (upd_mcu (\<lambda>_. m) (w\<lparr>w_next := Suc (w_next w)\<rparr>))))"

definition pipeline_ID :: "Pipeline \<Rightarrow> string" where "pipeline_ID p = pl_id p"

definition pipeline_Mode :: "Pipeline \<Rightarrow> string" where "pipeline_Mode p = pipelineModeMCUForward"

definition pipeline_Send :: "pipe_ref \<Rightarrow> payload \<Rightarrow> world \<Rightarrow> string option \<times> world" where
  "pipeline_Send p msg w =
     (if pl_closed (w_pipes w p) then (None, w)
      else case pl_connection (w_pipes w p) of None \<Rightarrow> (None, w) | Some c \<Rightarrow> w_send c msg w)"

text \<open>
  The purge collects the ids of the records without a connection that are older than the
  expiration, disarms them, and then removes the ids.
\<close>

definition attached_expired :: "time \<Rightarrow> attachedRecord \<Rightarrow> bool" where
  "attached_expired now r \<longleftrightarrow> ar_connection r = None \<and> ar_when r < now - connectExpiration"

definition purgeExpiredAttached :: "time \<Rightarrow> world \<Rightarrow> world" where
  "purgeExpiredAttached now w =
     (let old = filter (\<lambda>e. attached_expired now (w_atts w (snd e))) (mm_attached (w_mcu w));
          w1 = fold (\<lambda>e. upd_att (snd e) (\<lambda>r. r\<lparr>ar_onConnect := None, ar_onText := None\<rparr>)) old w
      in upd_mcu (\<lambda>m. m\<lparr>mm_attached := gm_remove_all (map fst old) (mm_attached m)\<rparr>) w1)"

section \<open>Round robin\<close>

text \<open>The connections a number of calls of \<open>GetConnection\<close> in a row return.\<close>

fun get_connections :: "nat \<Rightarrow> mcu_Manager \<Rightarrow> conn_ref option list" where
  "get_connections 0 m = []"
| "get_connections (Suc n) m = (case GetConnection m of (c, m') \<Rightarrow> c # get_connections n m')"

lemma list_next_nth:
  "distinct xs \<Longrightarrow> i < length xs \<Longrightarrow>
   list_next xs (xs ! i) = (if Suc i < length xs then Some (xs ! Suc i) else None)"
proof (induction xs arbitrary: i)
  case (Cons x xs)
  show ?case
  proof (cases i)
    case 0
    then show ?thesis by (cases xs) simp_all
  next
    case (Suc k)
    with Cons.prems have "k < length xs" and "xs ! k \<noteq> x" by auto
    with Suc Cons show ?thesis by simp
  qed
qed simp

lemma list_next_mem: "list_next xs x = Some y \<Longrightarrow> y \<in> set xs"
  by (induction xs) (auto split: if_splits list.splits)

lemma list_front_mem: "list_front xs = Some y \<Longrightarrow> y \<in> set xs"
  by (auto simp: list_front_def split: list.splits)

lemma GetConnection_mem: "fst (GetConnection m) = Some c \<Longrightarrow> c \<in> set (mm_connections m)"
  by (auto simp: GetConnection_def Let_def split: option.splits dest: list_next_mem list_front_mem)

lemma GetConnection_keeps:
  "mm_connections (snd (GetConnection m)) = mm_connections m"
  "mm_attached (snd (GetConnection m)) = mm_attached m"
  by (simp_all add: GetConnection_def Let_def)

lemma GetConnection_after:
  assumes "distinct (mm_connections m)" and "i < length (mm_connections m)"
    and "mm_connection m = Some (mm_connections m ! i)"
  shows "GetConnection m =
    (let j = Suc i mod length (mm_connections m)
     in (Some (mm_connections m ! j), m\<lparr>mm_connection := Some (mm_connections m ! j)\<rparr>))"
proof (cases "Suc i < length (mm_connections m)")
  case True
  with assms show ?thesis
    by (simp add: GetConnection_def list_next_nth Let_def)
next
  case False
  with assms(2) have last: "Suc i = length (mm_connections m)" by simp
  with assms have "list_next (mm_connections m) (mm_connections m ! i) = None"
    by (simp add: list_next_nth)
  moreover have "list_front (mm_connections m) = Some (mm_connections m ! 0)"
    using assms(2) by (cases "mm_connections m") (simp_all add: list_front_def)
  ultimately show ?thesis
    using assms(3) last by (simp add: GetConnection_def Let_def)
qed

lemma get_connections_after:
  assumes "distinct (mm_connections m)" and "i < length (mm_connections m)"
    and "mm_connection m = Some (mm_connections m ! i)"
  shows "get_connections n m =
    map (\<lambda>k. Some (mm_connections m ! ((Suc i + k) mod length (mm_connections m)))) [0..<n]"
  using assms
proof (induction n arbitrary: m i)
  case (Suc n)
  define xs where "xs = mm_connections m"
  define j where "j = Suc i mod length xs"
  define m' where "m' = m\<lparr>mm_connection := Some (xs ! j)\<rparr>"
  have xs: "xs \<noteq> []" using Suc.prems(2) by (auto simp: xs_def)
  then have j: "j < length xs" by (simp add: j_def)
  have step: "GetConnection m = (Some (xs ! j), m')"
    using GetConnection_after [OF Suc.prems] by (simp add: Let_def xs_def j_def m'_def)
  have rest: "get_connections n m' = map (\<lambda>k. Some (xs ! ((Suc j + k) mod length xs))) [0..<n]"
    using Suc.IH [of m' j] Suc.prems j by (simp add: m'_def xs_def)
  have shift: "(Suc j + k) mod length xs = (Suc i + Suc k) mod length xs" for k
  proof -
    have "(Suc j + k) mod length xs = (j + Suc k) mod length xs" by simp
    also have "\<dots> = (Suc i + Suc k) mod length xs" unfolding j_def by (rule mod_add_left_eq)
    finally show ?thesis .
  qed
  have "map (\<lambda>k. Some (xs ! ((Suc i + k) mod length xs))) [0..<Suc n] =
      Some (xs ! j) # map (\<lambda>k. Some (xs ! ((Suc i + Suc k) mod length xs))) [0..<n]"
    by (simp only: upt_conv_Cons [OF zero_less_Suc] map_Suc_upt [symmetric] list.map map_map comp_def)
      (simp add: j_def)
  moreover have "get_connections (Suc n) m =
      Some (xs ! j) # map (\<lambda>k. Some (xs ! ((Suc i + Suc k) mod length xs))) [0..<n]"
    using step rest by (simp only: get_connections.simps prod.case shift)
  ultimately show ?case
    by (simp only: xs_def)
qed simp

lemma image_shift_mod:
  assumes "0 < n"
  shows "(\<lambda>k. (s + k) mod n) ` {0..<n} = {0..<n :: nat}"
proof (rule endo_inj_surj)
  show "inj_on (\<lambda>k. (s + k) mod n) {0..<n}"
  proof (rule inj_onI)
    fix a b assume ab: "a \<in> {0..<n}" "b \<in> {0..<n}" and eq: "(s + a) mod n = (s + b) mod n"
    have "int a mod int n = int b mod int n"
    proof -
      have "int (s + a) mod int n = int (s + b) mod int n"
        using eq by (simp only: zmod_int [symmetric])
      then have "(int (s + a) - int s) mod int n = (int (s + b) - int s) mod int n"
        by (rule mod_diff_cong) simp
      then show ?thesis by simp
    qed
    with ab show "a = b" by simp
  qed
qed (use assms in auto)

lemma full_turn_after:
  assumes "distinct (mm_connections m)" and "mm_connection m = Some c" and "c \<in> set (mm_connections m)"
  shows "mset (get_connections (length (mm_connections m)) m) = mset (map Some (mm_connections m))"
proof -
  define xs where "xs = mm_connections m"
  obtain i where i: "i < length xs" "c = xs ! i"
    using assms(3) by (auto simp: in_set_conv_nth xs_def)
  define f where "f = (\<lambda>k. (Suc i + k) mod length xs)"
  have eq: "get_connections (length xs) m = map (\<lambda>k. Some (xs ! f k)) [0..<length xs]"
    using get_connections_after [of m i "length xs"] assms i by (simp add: xs_def f_def)
  have img: "f ` {0..<length xs} = {0..<length xs}"
    unfolding f_def by (rule image_shift_mod) (use i in auto)
  have inj: "inj_on f {0..<length xs}"
    by (rule eq_card_imp_inj_on) (simp_all add: img)
  have "mset (map f [0..<length xs]) = mset [0..<length xs]"
    using inj img by (intro set_eq_iff_mset_eq_distinct [THEN iffD1]) (simp_all add: distinct_map)
  then have "mset (map (\<lambda>k. Some (xs ! k)) (map f [0..<length xs])) = mset (map (\<lambda>k. Some (xs ! k)) [0..<length xs])"
    unfolding mset_map [of "\<lambda>k. Some (xs ! k)"] by (rule arg_cong)
  moreover have "map (\<lambda>k. Some (xs ! k)) [0..<length xs] = map Some xs"
    by (rule nth_equalityI) simp_all
  ultimately show ?thesis
    using eq by (simp only: map_map comp_def xs_def)
qed

text \<open>The previous connection may have left the list, or there was none: the turn then starts at the front.\<close>

lemma list_next_absent: "x \<notin> set xs \<Longrightarrow> list_next xs x = None"
  by (induction xs) auto

lemma GetConnection_restart:
  assumes "mm_connections m = x # xs" and "mm_connection m = None \<or> (\<exists>c. mm_connection m = Some c \<and> c \<notin> set (x # xs))"
  shows "GetConnection m = (Some x, m\<lparr>mm_connection := Some x\<rparr>)"
proof -
  have "(case mm_connection m of None \<Rightarrow> None | Some e \<Rightarrow> list_next (x # xs) e) = None"
    using assms(2) by (auto simp del: list_next.simps simp add: list_next_absent)
  then show ?thesis unfolding GetConnection_def Let_def assms(1) by (simp del: list_next.simps add: list_front_def)
qed

lemma get_connections_restart:
  assumes "distinct (mm_connections m)"
    and "mm_connection m = None \<or> (\<exists>c. mm_connection m = Some c \<and> c \<notin> set (mm_connections m))"
  shows "get_connections (length (mm_connections m)) m = map Some (mm_connections m)"
proof (cases "mm_connections m")
  case (Cons x xs)
  define m' where "m' = m\<lparr>mm_connection := Some x\<rparr>"
  have first: "GetConnection m = (Some x, m')"
    unfolding m'_def by (rule GetConnection_restart [OF Cons]) (use assms(2) Cons in simp)
  have "get_connections (length xs) m' = map (\<lambda>k. Some ((x # xs) ! ((Suc 0 + k) mod length (x # xs)))) [0..<length xs]"
    using get_connections_after [of m' 0 "length xs"] assms(1) Cons by (simp add: m'_def)
  also have "\<dots> = map Some xs" by (rule nth_equalityI) simp_all
  finally show ?thesis using first Cons by simp
qed simp

lemma full_turn_uses_every_connection:
  assumes "distinct (mm_connections m)"
  shows "mset (get_connections (length (mm_connections m)) m) = mset (map Some (mm_connections m))"
proof (cases "\<exists>c. mm_connection m = Some c \<and> c \<in> set (mm_connections m)")
  case True
  then show ?thesis using full_turn_after [OF assms] by blast
next
  case False
  then have "mm_connection m = None \<or> (\<exists>c. mm_connection m = Some c \<and> c \<notin> set (mm_connections m))"
    by (cases "mm_connection m") auto
  then show ?thesis by (simp only: get_connections_restart [OF assms])
qed

end
