(* ===== verification/Channel.thy ===== *)
theory Channel
  imports Mcu Base64
begin

text \<open>
  Channels (\<open>src/signaling/rtm/channel.go\<close>), the handlers of group channels
  (\<open>src/signaling/rtm/group.go\<close>), the channel hash (\<open>src/signaling/rtm/webrtc.go\<close>) and the choice of
  a pipeline (\<open>Manager.Pipeline\<close> in \<open>src/signaling/rtm/manager.go\<close>). An operation that locks a channel
  returns nothing (\<open>None\<close>, or \<open>HBlocked\<close>) when the lock was leaked, since it then waits forever.
  The lemmas give the contract of the membership table and of the hash check.
\<close>

section \<open>Creating channels\<close>

definition ChannelPrefixStandard :: string where "ChannelPrefixStandard = ''*''"
definition ChannelPrefixNamedGroup :: string where "ChannelPrefixNamedGroup = ''@''"
definition currentWebRTCPayloadVersion :: u64 where "currentWebRTCPayloadVersion = 20180703"
definition minimalWebRTCPayloadVersion :: u64 where "minimalWebRTCPayloadVersion = 0"

text \<open>\<open>Manager.Pipeline\<close>; the forced pattern is the match predicate of the configured regular expression.\<close>

definition rtm_Pipeline :: "string \<Rightarrow> string \<Rightarrow> world \<Rightarrow> pipe_ref option \<times> world" where
  "rtm_Pipeline scope cid w =
     (if \<not> rm_mcum (w_rtm w) then (None, w)
      else if scope = PluginIDKWMRTMChannel then
        (case rm_pipelineForcedPattern (w_rtm w) of
           None \<Rightarrow> (None, w)
         | Some matches \<Rightarrow>
             if matches cid then (case mcu_Pipeline scope cid w of (p, w') \<Rightarrow> (Some p, w')) else (None, w))
      else (None, w))"

definition NewChannel :: "string \<Rightarrow> ChannelConfig option \<Rightarrow> world \<Rightarrow> chan_ref \<times> world" where
  "NewChannel cid config w =
     (let h = w_next w;
          cfg = (case config of None \<Rightarrow> ChannelDefaultConfig | Some c \<Rightarrow> c);
          w1 = upd_chan h (\<lambda>_. \<lparr>ch_closed = False, ch_id = cid, ch_config = Some cfg, ch_connections = [],
                 ch_pipeline = None, ch_locked = False\<rparr>) (w\<lparr>w_next := Suc h\<rparr>);
          w2 = inc_metric (mt_channelNew_update Suc) w1
      in case rtm_Pipeline PluginIDKWMRTMChannel cid w2 of
           (None, w3) \<Rightarrow> (h, w3)
         | (Some p, w3) \<Rightarrow>
             (h, spawn (TPipelineConnect p h) (upd_chan h (\<lambda>ch. ch\<lparr>ch_pipeline := Some p\<rparr>) w3)))"

definition CreateRandomChannel :: "string \<Rightarrow> ChannelConfig option \<Rightarrow> world \<Rightarrow> chan_ref \<times> world" where
  "CreateRandomChannel rnd config w = NewChannel (ChannelPrefixStandard @ rnd) config w"

definition CreateKnownChannel :: "string \<Rightarrow> ChannelConfig option \<Rightarrow> world \<Rightarrow> chan_ref \<times> world" where
  "CreateKnownChannel cid config w = NewChannel cid config w"

definition CreateNamedGroupChannelID :: "string \<Rightarrow> string" where
  "CreateNamedGroupChannelID gid = ChannelPrefixNamedGroup @ gid"

text \<open>
  The configuration behind the pointer \<open>c.config\<close>. \<open>NewChannel\<close> stores a configuration in every
  channel and no operation changes the pointer, so the nil case does not arise.
\<close>

definition channel_config :: "Channel \<Rightarrow> ChannelConfig" where
  "channel_config ch = (case ch_config ch of Some cfg \<Rightarrow> cfg | None \<Rightarrow> ChannelDefaultConfig)"

section \<open>Reading a channel\<close>

definition Channel_Get :: "chan_ref \<Rightarrow> string \<Rightarrow> world \<Rightarrow> (conn_ref option \<times> bool) option" where
  "Channel_Get h uid w =
     (let ch = w_chans w h
      in if ch_locked ch then None
         else Some (gm_get (ch_connections ch) uid,
                    gm_get (ch_connections ch) uid \<noteq> None \<or> ch_pipeline ch \<noteq> None))"

definition Channel_Size :: "chan_ref \<Rightarrow> world \<Rightarrow> nat option" where
  "Channel_Size h w =
     (if ch_locked (w_chans w h) then None else Some (length (ch_connections (w_chans w h))))"

definition canBeCleanedUp :: "Channel \<Rightarrow> bool" where
  "canBeCleanedUp ch =
     (let size = length (ch_connections ch)
      in if ch_config ch \<noteq> None then size \<le> 0 else size \<le> 1)"

definition CanBeCleanedUp :: "chan_ref \<Rightarrow> world \<Rightarrow> bool option" where
  "CanBeCleanedUp h w =
     (if ch_locked (w_chans w h) then None else Some (canBeCleanedUp (w_chans w h)))"

definition Channel_Connections :: "chan_ref \<Rightarrow> world \<Rightarrow> (string list \<times> conn_ref list) option" where
  "Channel_Connections h w =
     (if ch_locked (w_chans w h) then None
      else Some (map fst (ch_connections (w_chans w h)), map snd (ch_connections (w_chans w h))))"

section \<open>Group handlers\<close>

definition channel_reply :: "string \<Rightarrow> RTMDataWebRTCChannelExtra \<Rightarrow> RTMTypeWebRTCReply" where
  "channel_reply cid data =
     \<lparr>wy_Type = RTMTypeNameWebRTC, wy_Subtype = RTMSubtypeNameWebRTCChannel, wy_ReplyTo = 0, wy_State = [],
      wy_Channel = cid, wy_Hash = [], wy_Version = currentWebRTCPayloadVersion,
      wy_Data = Some (json_of_channel_extra data)\<rparr>"

definition onGroupReplace :: "chan_ref \<Rightarrow> string \<Rightarrow> conn_ref \<Rightarrow> conn_ref \<Rightarrow> world \<Rightarrow> world" where
  "onGroupReplace h uid oldConn newConn w =
     send_to (PWebRTCReply (channel_reply (ch_id (w_chans w h))
       \<lparr>ce_Group = None, ce_Pipeline = None, ce_Replaced = True\<rparr>)) oldConn w"

definition group_members_data :: "string \<Rightarrow> string list \<Rightarrow> ChannelOp \<Rightarrow> RTMDataWebRTCChannelExtra" where
  "group_members_data gid members op =
     \<lparr>ce_Group = Some \<lparr>cg_Group = gid, cg_Members = members, cg_Reset = (op = ChannelOpReset)\<rparr>,
      ce_Pipeline = None, ce_Replaced = False\<rparr>"

definition onAfterGroupAddOrRemove :: "chan_ref \<Rightarrow> ChannelOp \<Rightarrow> string \<Rightarrow> world \<Rightarrow> handler_result \<times> world" where
  "onAfterGroupAddOrRemove h op uid w =
     (case Channel_Connections h w of
        None \<Rightarrow> (HBlocked, w)
      | Some (members, connections) \<Rightarrow>
          (let ch = w_chans w h;
               payload = PWebRTCReply (channel_reply (ch_id ch)
                 (group_members_data (cc_Group (channel_config ch)) members op));
               receivers = map snd (filter (\<lambda>e. fst e \<noteq> uid) (zip members connections))
           in (HNil, send_all payload receivers w)))"

definition onAfterGroupChannelReset :: "chan_ref \<Rightarrow> world \<Rightarrow> handler_result \<times> world" where
  "onAfterGroupChannelReset h w =
     (case Channel_Connections h w of
        None \<Rightarrow> (HBlocked, w)
      | Some _ \<Rightarrow> onAfterGroupAddOrRemove h ChannelOpReset [] w)"

section \<open>Changing a channel\<close>

text \<open>The second half of \<open>Add\<close>: store the connection, register the removal, count, start the goroutines.\<close>

definition channel_store :: "chan_ref \<Rightarrow> string \<Rightarrow> conn_ref \<Rightarrow> bool \<Rightarrow> world \<Rightarrow> world" where
  "channel_store h uid c replacing w =
     (let w1 = upd_chan h (\<lambda>ch. ch\<lparr>ch_connections := gm_set uid c (ch_connections ch)\<rparr>) w;
          w2 = upd_conn c (OnClosed (CbChannelRemove h uid c)) w1;
          w3 = inc_metric (mt_channelAdd_update Suc) w2;
          w4 = (if replacing then w3 else spawn (TEmitChats c h ChannelOpAdd uid) w3)
      in if cc_AfterAddOrRemove (channel_config (w_chans w h))
         then spawn (TAfterAddOrRemove h ChannelOpAdd uid) w4 else w4)"

text \<open>
  When the id is taken by another connection and the channel has no replace handler, \<open>Add\<close> returns
  with the write lock held.
\<close>

definition Channel_Add :: "chan_ref \<Rightarrow> string \<Rightarrow> conn_ref \<Rightarrow> world \<Rightarrow> handler_result \<times> world" where
  "Channel_Add h uid c w =
     (let ch = w_chans w h
      in if ch_locked ch then (HBlocked, w)
         else if ch_closed ch then (HErr (GoErr ''channel is closed''), w)
         else case gm_get (ch_connections ch) uid of
           Some existingConn \<Rightarrow>
             if c = existingConn then (HNil, w)
             else if \<not> cc_Replace (channel_config ch) then
               (HErr (GoErr ''id already exists''), upd_chan h (\<lambda>ch. ch\<lparr>ch_locked := True\<rparr>) w)
             else (HNil, channel_store h uid c True (onGroupReplace h uid existingConn c w))
         | None \<Rightarrow> (HNil, channel_store h uid c False w))"

text \<open>\<open>remove\<close>, called with the lock held; \<open>conn\<close> is nil for any connection.\<close>

definition channel_remove :: "chan_ref \<Rightarrow> string \<Rightarrow> conn_ref option \<Rightarrow> world \<Rightarrow> string option \<times> world" where
  "channel_remove h uid conn w =
     (let ch = w_chans w h; existingConn = gm_get (ch_connections ch) uid
      in if conn \<noteq> None \<and> existingConn \<noteq> conn then (Some ''conn does not match'', w)
         else
           let w1 = upd_chan h (\<lambda>ch. ch\<lparr>ch_connections := gm_del uid (ch_connections ch)\<rparr>) w;
               w2 = inc_metric (mt_channelRemove_update Suc) w1;
               w3 = (case existingConn of Some e \<Rightarrow> spawn (TEmitChats e h ChannelOpRemove uid) w2 | None \<Rightarrow> w2)
           in (None, if cc_AfterAddOrRemove (channel_config ch)
                     then spawn (TAfterAddOrRemove h ChannelOpRemove uid) w3 else w3))"

definition Channel_Remove :: "chan_ref \<Rightarrow> string \<Rightarrow> world \<Rightarrow> handler_result \<times> world" where
  "Channel_Remove h uid w =
     (if ch_locked (w_chans w h) then (HBlocked, w)
      else case channel_remove h uid None w of
        (None, w') \<Rightarrow> (HNil, w') | (Some e, w') \<Rightarrow> (HErr (GoErr e), w'))"

definition Channel_Cleanup :: "chan_ref \<Rightarrow> world \<Rightarrow> (bool \<times> world) option" where
  "Channel_Cleanup h w =
     (let ch = w_chans w h
      in if ch_locked ch then None
         else if \<not> canBeCleanedUp ch then Some (False, w)
         else
           let w1 = upd_chan h (\<lambda>ch. ch\<lparr>ch_closed := True, ch_pipeline := None\<rparr>) w;
               w2 = (case ch_pipeline ch of Some p \<Rightarrow> spawn (TPipelineClose p) w1 | None \<Rightarrow> w1)
           in Some (True, inc_metric (mt_channelCleanup_update Suc) w2))"

section \<open>Forwarding\<close>

definition result_of_send :: "string option \<times> world \<Rightarrow> handler_result \<times> world" where
  "result_of_send r = (case r of (None, w) \<Rightarrow> (HNil, w) | (Some e, w) \<Rightarrow> (HErr (GoErr e), w))"

definition Forward :: "chan_ref \<Rightarrow> string \<Rightarrow> string \<Rightarrow> conn_ref option \<Rightarrow> RTMTypeWebRTC \<Rightarrow> world \<Rightarrow> handler_result \<times> world" where
  "Forward h source target conn msg w =
     (let msg1 = msg\<lparr>wm_Source := source\<rparr>;
          send = (\<lambda>found. case found of
             None \<Rightarrow> (HErr (RTMErr (NewRTMTypeError RTMErrorIDNoSessionForUser ''target not found'' (wm_ID msg1))), w)
           | Some c \<Rightarrow> result_of_send (w_send c (PWebRTC (msg1\<lparr>wm_ID := 0\<rparr>)) w))
      in case ch_pipeline (w_chans w h) of
           Some p \<Rightarrow> result_of_send (pipeline_Send p (PWebRTC msg1) w)
         | None \<Rightarrow>
             (case conn of
                Some c \<Rightarrow> send (Some c)
              | None \<Rightarrow> (case Channel_Get h target w of
                  None \<Rightarrow> (HBlocked, w)
                | Some (c, _) \<Rightarrow> send c)))"

text \<open>
  \<open>msg.ID\<close> of both errors is read through the embedded envelope, a nil pointer when the text of the MCU had
  none of its members.
\<close>

definition deliver :: "chan_ref \<Rightarrow> RTMTypeWebRTC \<Rightarrow> world \<Rightarrow> handler_result \<times> world" where
  "deliver h msg w =
     (if wm_Source msg = [] \<or> wm_Target msg = [] then
        if wm_Envelope msg then (HErr (RTMErr (NewRTMTypeError RTMErrorIDNoSessionForUser ''invalid target'' (wm_ID msg))), w)
        else (HPanic, w)
      else case Channel_Get h (wm_Target msg) w of
        None \<Rightarrow> (HBlocked, w)
      | Some (None, _) \<Rightarrow>
          if wm_Envelope msg then (HErr (RTMErr (NewRTMTypeError RTMErrorIDNoSessionForUser ''target not found'' (wm_ID msg))), w)
          else (HPanic, w)
      | Some (Some c, _) \<Rightarrow> result_of_send (w_send c (PWebRTC msg) w))"

section \<open>The channel hash\<close>

text \<open>
  \<open>mac\<close> is HMAC-SHA256 under the random key of the process. The hash covers the message type, the two
  parties in a fixed order and the channel.
\<close>

definition computeWebRTCChannelHash :: "(string \<Rightarrow> string) \<Rightarrow> string \<Rightarrow> string \<Rightarrow> string \<Rightarrow> string \<Rightarrow> string" where
  "computeWebRTCChannelHash mac msgType source target channel =
     mac (msgType @ (if source < target then source @ target else target @ source) @ channel)"

definition checkWebRTCChannelHash :: "(string \<Rightarrow> string) \<Rightarrow> string \<Rightarrow> string \<Rightarrow> string \<Rightarrow> string \<Rightarrow> string \<Rightarrow> bool" where
  "checkWebRTCChannelHash mac hash msgType source target channel \<longleftrightarrow>
     hash = computeWebRTCChannelHash mac msgType source target channel"

definition checkWebRTCMessage :: "(string \<Rightarrow> string) \<Rightarrow> Channel \<Rightarrow> string \<Rightarrow> RTMTypeWebRTC \<Rightarrow> go_error option" where
  "checkWebRTCMessage mac ch source msg =
     (let bad = (\<lambda>text. Some (RTMErr (NewRTMTypeError RTMErrorIDBadMessage text (wm_ID msg))))
      in if wm_Group msg \<noteq> [] \<and> (ch_config ch = None \<or> cc_Group (channel_config ch) \<noteq> wm_Group msg)
         then bad ''invalid channel for group''
         else if wm_Hash msg = [] then bad ''missing hash''
         else case b64_decode (wm_Hash msg) of
           None \<Rightarrow> bad ''hash decode error''
         | Some hash \<Rightarrow>
             (let validate = (\<lambda>target.
                    if checkWebRTCChannelHash mac hash (wm_Type msg) source target (wm_Channel msg) then None
                    else if checkWebRTCChannelHash mac hash (wm_Type msg) source (wm_Target msg) (wm_Channel msg)
                    then None else bad ''invalid hash'')
              in if wm_Group msg \<noteq> [] then validate (wm_Group msg)
                 else if wm_Target msg = [] then bad ''missing target''
                 else if ch_pipeline ch \<noteq> None then None
                 else validate (wm_Target msg)))"

section \<open>The membership contract\<close>

text \<open>
  What the handlers rely on of a channel's membership: a successful join makes the connection the
  member of its id, a leave removes the id, and neither disturbs other ids. Then the member of an
  id is decided by the last operation on that id.
\<close>

datatype ('k, 'c) member_op = Join 'k 'c | Leave 'k

fun member_key :: "('k, 'c) member_op \<Rightarrow> 'k" where
  "member_key (Join k c) = k"
| "member_key (Leave k) = k"

fun member_after :: "('k, 'c) member_op \<Rightarrow> 'c option" where
  "member_after (Join k c) = Some c"
| "member_after (Leave k) = None"

fun member_run ::
  "('k \<Rightarrow> 'c \<Rightarrow> 's \<Rightarrow> 's option) \<Rightarrow> ('k \<Rightarrow> 's \<Rightarrow> 's option) \<Rightarrow> ('k, 'c) member_op list \<Rightarrow> 's \<Rightarrow> 's option" where
  "member_run join leave [] s = Some s"
| "member_run join leave (Join k c # ops) s =
     (case join k c s of None \<Rightarrow> None | Some s' \<Rightarrow> member_run join leave ops s')"
| "member_run join leave (Leave k # ops) s =
     (case leave k s of None \<Rightarrow> None | Some s' \<Rightarrow> member_run join leave ops s')"

locale membership =
  fixes member :: "'s \<Rightarrow> 'k \<Rightarrow> 'c option"
    and join :: "'k \<Rightarrow> 'c \<Rightarrow> 's \<Rightarrow> 's option"
    and leave :: "'k \<Rightarrow> 's \<Rightarrow> 's option"
  assumes join_member: "join k c s = Some s' \<Longrightarrow> member s' k' = (if k' = k then Some c else member s k')"
    and leave_member: "leave k s = Some s' \<Longrightarrow> member s' k' = (if k' = k then None else member s k')"
begin

lemma run_member:
  "member_run join leave ops s = Some s' \<Longrightarrow>
   member s' k = (case filter (\<lambda>p. member_key p = k) (rev ops) of
      [] \<Rightarrow> member s k | p # _ \<Rightarrow> member_after p)"
proof (induction ops arbitrary: s)
  case (Cons p ops)
  show ?case
  proof (cases p)
    case (Join k' c)
    with Cons.prems obtain s1 where s1: "join k' c s = Some s1" "member_run join leave ops s1 = Some s'"
      by (auto split: option.splits)
    show ?thesis
      using Cons.IH [OF s1(2)] join_member [OF s1(1), of k] Join
      by (auto split: list.splits)
  next
    case (Leave k')
    with Cons.prems obtain s1 where s1: "leave k' s = Some s1" "member_run join leave ops s1 = Some s'"
      by (auto split: option.splits)
    show ?thesis
      using Cons.IH [OF s1(2)] leave_member [OF s1(1), of k] Leave
      by (auto split: list.splits)
  qed
qed simp

end

definition channel_join :: "chan_ref \<Rightarrow> string \<Rightarrow> conn_ref \<Rightarrow> world \<Rightarrow> world option" where
  "channel_join h uid c w = (case Channel_Add h uid c w of (HNil, w') \<Rightarrow> Some w' | _ \<Rightarrow> None)"

definition channel_leave :: "chan_ref \<Rightarrow> string \<Rightarrow> world \<Rightarrow> world option" where
  "channel_leave h uid w = (case Channel_Remove h uid w of (HNil, w') \<Rightarrow> Some w' | _ \<Rightarrow> None)"

definition channel_member :: "chan_ref \<Rightarrow> world \<Rightarrow> string \<Rightarrow> conn_ref option" where
  "channel_member h w uid = gm_get (ch_connections (w_chans w h)) uid"

lemma channel_store_chans:
  "w_chans (channel_store h uid c r w) =
     (w_chans w)(h := (w_chans w h)\<lparr>ch_connections := gm_set uid c (ch_connections (w_chans w h))\<rparr>)"
  by (simp add: channel_store_def Let_def)

lemma onGroupReplace_same: "same_but_queues w (onGroupReplace h uid old new w)"
  by (simp add: onGroupReplace_def)

lemmas onGroupReplace_frame [simp] = same_but_queuesD [OF onGroupReplace_same]

lemma channel_remove_chans:
  "w_chans (snd (channel_remove h uid None w)) =
     (w_chans w)(h := (w_chans w h)\<lparr>ch_connections := gm_del uid (ch_connections (w_chans w h))\<rparr>)"
  by (simp add: channel_remove_def Let_def split: option.splits)

lemma channel_remove_None [simp]: "fst (channel_remove h uid None w) = None"
  by (simp add: channel_remove_def Let_def)

interpretation ch_members: membership "channel_member h" "channel_join h" "channel_leave h" for h
proof unfold_locales
  fix k c s s' k'
  assume "channel_join h k c s = Some s'"
  then show "channel_member h s' k' = (if k' = k then Some c else channel_member h s k')"
    by (auto simp: channel_join_def Channel_Add_def Let_def channel_member_def channel_store_chans
        split: if_splits option.splits)
next
  fix k s s' k'
  assume "channel_leave h k s = Some s'"
  then have "s' = snd (channel_remove h k None s)"
    using channel_remove_None [of h k s]
    by (auto simp: channel_leave_def Channel_Remove_def split: if_splits prod.splits option.splits)
  then show "channel_member h s' k' = (if k' = k then None else channel_member h s k')"
    by (simp add: channel_member_def channel_remove_chans)
qed

section \<open>Properties\<close>

text \<open>
  C28. The members of a channel are what its history says: after any sequence of successful \<open>Add\<close> and
  \<open>Remove\<close> calls, an id is bound to the connection of the last \<open>Add\<close> for it, unless a \<open>Remove\<close> for it
  came later; an id no operation named keeps what it had.
\<close>

theorem channel_members_follow_history:
  assumes "member_run (channel_join h) (channel_leave h) ops w = Some w'"
  shows "channel_member h w' uid =
    (case filter (\<lambda>p. member_key p = uid) (rev ops) of
       [] \<Rightarrow> channel_member h w uid | p # _ \<Rightarrow> member_after p)"
  using assms by (rule ch_members.run_member)

definition example_channel :: Channel where
  "example_channel = \<lparr>ch_closed = False, ch_id = ''*c'', ch_config = Some ChannelDefaultConfig, ch_connections = [(''bob'', 2)],
     ch_pipeline = None, ch_locked = False\<rparr>"

definition example_channel_world :: world where
  "example_channel_world = example_world\<lparr>w_chans := (\<lambda>_. example_channel)\<rparr>"

lemmas example_channel_defs = example_channel_world_def example_channel_def ChannelDefaultConfig_def

theorem channel_members_follow_history_witness:
  "\<exists>w'. member_run (channel_join 0) (channel_leave 0) [Join ''al'' 1, Leave ''bob'', Join ''al'' 1] example_channel_world = Some w' \<and>
     channel_member 0 w' ''al'' = Some 1 \<and> channel_member 0 w' ''bob'' = None"
proof -
  obtain w' where w': "member_run (channel_join 0) (channel_leave 0) [Join ''al'' 1, Leave ''bob'', Join ''al'' 1]
      example_channel_world = Some w'"
    by (simp add: channel_join_def channel_leave_def Channel_Add_def Channel_Remove_def channel_remove_def
        channel_store_def channel_config_def Let_def example_channel_defs)
  then show ?thesis
    using channel_members_follow_history [OF w', of "''al''"] channel_members_follow_history [OF w', of "''bob''"]
    by simp
qed

lemma computeWebRTCChannelHash_sym:
  "computeWebRTCChannelHash mac ty a b ch = computeWebRTCChannelHash mac ty b a ch"
  by (auto simp: computeWebRTCChannelHash_def dest: less_asym)

text \<open>
  C26. The hash the server hands out for two parties and a channel opens the channel to both of them:
  a message with that hash and channel, sent by either party to the other, passes
  \<open>checkWebRTCMessage\<close>, in a channel with and without a pipeline.
\<close>

theorem issued_hash_accepted_both_ways:
  assumes "wm_Hash msg = b64_encode (computeWebRTCChannelHash mac (wm_Type msg) a b (wm_Channel msg))"
    and "computeWebRTCChannelHash mac (wm_Type msg) a b (wm_Channel msg) \<noteq> []"
    and "wm_Group msg = []" and "wm_Target msg \<noteq> []"
    and "(source = a \<and> wm_Target msg = b) \<or> (source = b \<and> wm_Target msg = a)"
  shows "checkWebRTCMessage mac ch source msg = None"
proof -
  have "computeWebRTCChannelHash mac (wm_Type msg) a b (wm_Channel msg) =
      computeWebRTCChannelHash mac (wm_Type msg) source (wm_Target msg) (wm_Channel msg)"
    using assms(5) computeWebRTCChannelHash_sym by metis
  with assms show ?thesis
    by (simp add: checkWebRTCMessage_def Let_def b64_round_trip b64_encode_nonempty checkWebRTCChannelHash_def)
qed

definition example_mac :: "string \<Rightarrow> string" where
  "example_mac s = CHR ''h'' # s"

definition example_signal :: RTMTypeWebRTC where
  "example_signal = zero_webrtc\<lparr>wm_Type := RTMTypeNameWebRTC, wm_Target := ''al'', wm_Channel := ''*c'',
     wm_Hash := b64_encode (computeWebRTCChannelHash example_mac RTMTypeNameWebRTC ''al'' ''bob'' ''*c'')\<rparr>"

theorem issued_hash_accepted_both_ways_witness:
  "checkWebRTCMessage example_mac example_channel ''bob'' example_signal = None"
  by (rule issued_hash_accepted_both_ways [of example_signal example_mac "''al''" "''bob''"])
    (simp_all add: example_signal_def zero_webrtc_def computeWebRTCChannelHash_def example_mac_def)

text \<open>
  C27. Without a pipeline nothing else is accepted: a message that passes carries the base64 form of
  the hash of its own type and channel for the sender and either the target or the group, and its
  group, if any, is the group of the channel.
\<close>

theorem accepted_message_has_hash:
  assumes "checkWebRTCMessage mac ch source msg = None" and "ch_pipeline ch = None"
  shows "(wm_Group msg = [] \<or> wm_Group msg = cc_Group (channel_config ch)) \<and>
    (\<exists>peer \<in> {wm_Target msg, wm_Group msg}.
       b64_decode (wm_Hash msg) = Some (computeWebRTCChannelHash mac (wm_Type msg) source peer (wm_Channel msg)))"
  using assms
  by (auto simp: checkWebRTCMessage_def Let_def checkWebRTCChannelHash_def split: if_splits option.splits)

lemma example_signal_accepted: "checkWebRTCMessage example_mac example_channel ''bob'' example_signal = None"
  by (simp add: checkWebRTCMessage_def Let_def b64_round_trip b64_encode_nonempty checkWebRTCChannelHash_def
      example_signal_def zero_webrtc_def computeWebRTCChannelHash_def example_mac_def example_channel_def)

theorem accepted_message_has_hash_witness:
  "\<exists>peer \<in> {''al'', []}. b64_decode (wm_Hash example_signal) =
     Some (computeWebRTCChannelHash example_mac RTMTypeNameWebRTC ''bob'' peer ''*c'')"
  using accepted_message_has_hash [OF example_signal_accepted]
  by (simp add: example_channel_def example_signal_def zero_webrtc_def)

text \<open>
  C29. A lock leak: when the id of a member is added again from another connection and the channel has
  no replace handler, \<open>Add\<close> fails and keeps the lock, so that every later operation on the channel
  waits forever: adding, removing, looking up, counting, listing and cleaning up.
\<close>

theorem second_connection_wedges_channel:
  assumes "\<not> ch_locked (w_chans w h)" and "\<not> ch_closed (w_chans w h)"
    and "gm_get (ch_connections (w_chans w h)) uid = Some c" and "c' \<noteq> c"
    and "\<not> cc_Replace (channel_config (w_chans w h))"
    and "Channel_Add h uid c' w = (r, w')"
  shows "r = HErr (GoErr ''id already exists'') \<and> Channel_Add h uid2 c2 w' = (HBlocked, w') \<and>
    Channel_Remove h uid2 w' = (HBlocked, w') \<and> Channel_Get h uid2 w' = None \<and> Channel_Size h w' = None \<and>
    Channel_Connections h w' = None \<and> CanBeCleanedUp h w' = None \<and> Channel_Cleanup h w' = None"
proof -
  have "r = HErr (GoErr ''id already exists'')" and w': "w' = upd_chan h (\<lambda>ch. ch\<lparr>ch_locked := True\<rparr>) w"
    using assms by (auto simp: Channel_Add_def Let_def split: if_splits)
  moreover have "ch_locked (w_chans w' h)"
    using w' by simp
  ultimately show ?thesis
    by (simp add: Channel_Add_def Channel_Remove_def Channel_Get_def Channel_Size_def Channel_Connections_def
        CanBeCleanedUp_def Channel_Cleanup_def Let_def)
qed

theorem second_connection_wedges_channel_witness:
  "\<exists>r w'. Channel_Add 0 ''bob'' 3 example_channel_world = (r, w') \<and> Channel_Size 0 w' = None"
proof -
  obtain r w' where w': "Channel_Add 0 ''bob'' 3 example_channel_world = (r, w')"
    by (cases "Channel_Add 0 ''bob'' 3 example_channel_world") simp
  have "Channel_Size 0 w' = None"
    using second_connection_wedges_channel [of example_channel_world 0 "''bob''" 2 3 r w'] w'
    by (simp add: example_channel_defs channel_config_def)
  with w' show ?thesis by blast
qed

lemma zip_map_fst_snd: "zip (map fst m) (map snd m) = m"
  by (induction m) auto

lemma distinct_map_snd_filter: "distinct (map snd m) \<Longrightarrow> distinct (map snd (filter P m))"
  by (induction m) auto

text \<open>
  C31. After a join, a leave or a reset of a group channel, every member other than the one concerned is
  sent the list of the members exactly once (if its connection is open and its queue has room), and
  nobody else is sent anything.
\<close>

theorem group_update_reaches_others_once:
  assumes "\<not> ch_locked (w_chans w h)" and "distinct (map snd (ch_connections (w_chans w h)))"
  shows "cn_send (w_conns (snd (onAfterGroupAddOrRemove h op uid w)) c) =
    (if (\<exists>m. m \<noteq> uid \<and> (m, c) \<in> set (ch_connections (w_chans w h))) \<and> \<not> cn_closed (w_conns w c) \<and>
        length (cn_send (w_conns w c)) < sendCap
     then cn_send (w_conns w c) @ [PWebRTCReply (channel_reply (ch_id (w_chans w h))
       (group_members_data (cc_Group (channel_config (w_chans w h)))
         (map fst (ch_connections (w_chans w h))) op))]
     else cn_send (w_conns w c))"
proof -
  define rs where "rs = map snd (filter (\<lambda>e. fst e \<noteq> uid) (ch_connections (w_chans w h)))"
  have rs: "distinct rs" "c \<in> set rs \<longleftrightarrow> (\<exists>m. m \<noteq> uid \<and> (m, c) \<in> set (ch_connections (w_chans w h)))"
    using assms(2) by (force simp: rs_def distinct_map_snd_filter)+
  have "snd (onAfterGroupAddOrRemove h op uid w) = send_all (PWebRTCReply (channel_reply (ch_id (w_chans w h))
       (group_members_data (cc_Group (channel_config (w_chans w h)))
         (map fst (ch_connections (w_chans w h))) op))) rs w"
    using assms(1)
    by (simp add: onAfterGroupAddOrRemove_def Channel_Connections_def Let_def zip_map_fst_snd rs_def)
  then show ?thesis
    using rs by (cases "c \<in> set rs") (simp_all add: send_all_queue send_all_queue_other)
qed

theorem group_update_reaches_others_once_witness:
  "length (cn_send (w_conns (snd (onAfterGroupAddOrRemove 0 ChannelOpAdd ''al'' example_channel_world)) 2)) = 1"
proof -
  have "\<not> ch_locked (w_chans example_channel_world 0)"
    and "distinct (map snd (ch_connections (w_chans example_channel_world 0)))"
    by (simp_all add: example_channel_defs)
  from group_update_reaches_others_once [OF this, of ChannelOpAdd "''al''" 2] show ?thesis
    by (simp add: example_channel_defs example_world_defs conn_New_def sendCap_def)
qed

end
