(* ===== verification/Rtm_Manager.thy ===== *)
theory Rtm_Manager
  imports Channel
begin

text \<open>
  The tables of the RTM manager (\<open>src/signaling/rtm/manager.go\<close>): connect keys, users, channels and the
  three purges its cleanup goroutine runs every minute. The lemmas say exactly which entries a purge
  removes; the key table is an expiring table in the sense of the shared interface.
\<close>

section \<open>Connect keys\<close>

definition rtm_Connect :: "rtm_env \<Rightarrow> string \<Rightarrow> AdminAuthToken option \<Rightarrow> world \<Rightarrow> string \<times> world" where
  "rtm_Connect env userID auth w =
     (let key = en_rnd env; u = w_next w
      in if userID = [] then
           (key, upd_rtm (\<lambda>m. m\<lparr>rm_keys := gm_set key \<lparr>kr_when = en_now env, kr_user = None\<rparr> (rm_keys m)\<rparr>) w)
         else
           (key, upd_rtm (\<lambda>m. m\<lparr>rm_keys := gm_set key \<lparr>kr_when = en_now env, kr_user = Some u\<rparr> (rm_keys m)\<rparr>)
             (upd_user u (\<lambda>_. \<lparr>ur_id = userID, ur_auth = auth, ur_when = zero_time, ur_exit = zero_time,
                ur_connections = []\<rparr>) (w\<lparr>w_next := Suc u\<rparr>))))"

definition purgeExpiredKeys :: "time \<Rightarrow> rtm_Manager \<Rightarrow> rtm_Manager" where
  "purgeExpiredKeys now m =
     (let deadline = now - connectExpiration;
          expired = map fst (filter (\<lambda>e. kr_when (snd e) < deadline) (rm_keys m))
      in m\<lparr>rm_keys := gm_remove_all expired (rm_keys m)\<rparr>)"

text \<open>\<open>keys.Pop\<close>: the record and the table without it.\<close>

definition keys_Pop :: "string \<Rightarrow> rtm_Manager \<Rightarrow> keyRecord option \<times> rtm_Manager" where
  "keys_Pop key m = (gm_get (rm_keys m) key, m\<lparr>rm_keys := gm_del key (rm_keys m)\<rparr>)"

section \<open>Users\<close>

definition lookupUserEntryByID :: "string \<Rightarrow> world \<Rightarrow> user_ref option" where
  "lookupUserEntryByID uid w = gm_get (rm_users (w_rtm w)) uid"

definition LookupConnectionsByID :: "string \<Rightarrow> world \<Rightarrow> conn_ref list option" where
  "LookupConnectionsByID uid w = map_option (\<lambda>u. ur_connections (w_users w u)) (lookupUserEntryByID uid w)"

definition user_inactive :: "time \<Rightarrow> userRecord \<Rightarrow> bool" where
  "user_inactive now r \<longleftrightarrow> ur_connections r = [] \<and> ur_exit r < now - channelExpiration"

definition drop_user :: "user_ref \<Rightarrow> world \<Rightarrow> world" where
  "drop_user u w =
     (if ur_connections (w_users w u) = [] then
        inc_metric (mt_userCleanup_update Suc)
          (upd_rtm (\<lambda>m. m\<lparr>rm_users := gm_del (ur_id (w_users w u)) (rm_users m)\<rparr>) w)
      else w)"

definition purgeInactiveUsers :: "time \<Rightarrow> world \<Rightarrow> world" where
  "purgeInactiveUsers now w =
     (let inactive = map snd (filter (\<lambda>e. user_inactive now (w_users w (snd e))) (rm_users (w_rtm w)))
      in fold drop_user inactive w)"

section \<open>Channels\<close>

text \<open>The first loop: \<open>None\<close> when it waits for a leaked channel lock.\<close>

fun collect_empty :: "time \<Rightarrow> world \<Rightarrow> (string \<times> channelRecord) list \<Rightarrow> (string \<times> channelRecord) list option" where
  "collect_empty deadline w [] = Some []"
| "collect_empty deadline w (e # es) =
     (case CanBeCleanedUp (cr_channel (snd e)) w of
        None \<Rightarrow> None
      | Some ok \<Rightarrow>
          (case collect_empty deadline w es of
             None \<Rightarrow> None
           | Some l \<Rightarrow> Some (if ok \<and> cr_when (snd e) < deadline then e # l else l)))"

fun cleanup_all :: "(string \<times> channelRecord) list \<Rightarrow> world \<Rightarrow> handler_result \<times> world" where
  "cleanup_all [] w = (HNil, w)"
| "cleanup_all (e # es) w =
     (case Channel_Cleanup (cr_channel (snd e)) w of
        None \<Rightarrow> (HBlocked, w)
      | Some (True, w') \<Rightarrow>
          cleanup_all es (upd_rtm (\<lambda>m. m\<lparr>rm_channels := gm_del (fst e) (rm_channels m)\<rparr>) w')
      | Some (False, w') \<Rightarrow> cleanup_all es w')"

definition purgeEmptyChannels :: "time \<Rightarrow> world \<Rightarrow> handler_result \<times> world" where
  "purgeEmptyChannels now w =
     (case collect_empty (now - channelExpiration) w (rm_channels (w_rtm w)) of
        None \<Rightarrow> (HBlocked, w)
      | Some found \<Rightarrow> cleanup_all found w)"

text \<open>One tick of the cleanup goroutine.\<close>

definition cleanup_tick :: "time \<Rightarrow> world \<Rightarrow> handler_result \<times> world" where
  "cleanup_tick now w =
     (case purgeEmptyChannels now (upd_rtm (purgeExpiredKeys now) w) of
        (HNil, w') \<Rightarrow> (HNil, purgeInactiveUsers now w')
      | (r, w') \<Rightarrow> (r, w'))"

section \<open>Status and counters\<close>

definition getServerStatus :: "world \<Rightarrow> ServerStatus option" where
  "getServerStatus w = rm_serverStatus (w_rtm w)"

definition setServerStatus :: "ServerStatus \<Rightarrow> world \<Rightarrow> world" where
  "setServerStatus s w = upd_rtm (\<lambda>m. m\<lparr>rm_serverStatus := Some s\<rparr>) w"

definition rtm_NumActive :: "world \<Rightarrow> u64" where
  "rtm_NumActive w = of_nat (length (rm_connections (w_rtm w)))"

definition rtm_NewHandle :: "world \<Rightarrow> int \<times> world" where
  "rtm_NewHandle w = (let n = rm_handles (w_rtm w) + 1 in (sint n, upd_rtm (\<lambda>m. m\<lparr>rm_handles := n\<rparr>) w))"

section \<open>Keys expire\<close>

definition put_key :: "string \<Rightarrow> keyRecord \<Rightarrow> rtm_Manager \<Rightarrow> rtm_Manager" where
  "put_key k r m = m\<lparr>rm_keys := gm_set k r (rm_keys m)\<rparr>"

definition del_key :: "string \<Rightarrow> rtm_Manager \<Rightarrow> rtm_Manager" where
  "del_key k m = m\<lparr>rm_keys := gm_del k (rm_keys m)\<rparr>"

interpretation keys: expiring_table "\<lambda>m k. gm_get (rm_keys m) k" put_key del_key "\<lambda>m. gm_wf (rm_keys m)"
  kr_when connectExpiration purgeExpiredKeys
proof unfold_locales
  fix t :: rtm_Manager and now k
  assume wf: "gm_wf (rm_keys t)"
  show "gm_get (rm_keys (purgeExpiredKeys now t)) k =
      (case gm_get (rm_keys t) k of None \<Rightarrow> None
       | Some v \<Rightarrow> if kr_when v < now - connectExpiration then None else Some v)"
    by (simp add: purgeExpiredKeys_def Let_def gm_purge_filter [OF wf] gm_get_filter [OF wf] split: option.splits)
qed (simp_all add: put_key_def del_key_def purgeExpiredKeys_def Let_def)

lemma rtm_Connect_keys:
  "rtm_Connect env uid auth w = (key, w') \<Longrightarrow>
   w_rtm w' = put_key key \<lparr>kr_when = en_now env, kr_user = (if uid = [] then None else Some (w_next w))\<rparr> (w_rtm w)"
  by (auto simp: rtm_Connect_def Let_def put_key_def split: if_splits)

text \<open>
  A connect key works once and for a limited time: the key \<open>Connect\<close> returns finds a record of the
  requesting user and token after any purge within thirty seconds, popping it leaves no record to
  pop a second time, and a purge later than thirty seconds removes it.
\<close>

theorem connect_key_single_use_and_expiry:
  assumes "gm_wf (rm_keys (w_rtm w))" and "uid \<noteq> []" and "rtm_Connect env uid auth w = (key, w')"
    and "t \<le> en_now env + connectExpiration" and "en_now env + connectExpiration < t'"
  shows "\<exists>r u. fst (keys_Pop key (purgeExpiredKeys t (w_rtm w'))) = Some r \<and> kr_user r = Some u \<and>
      ur_id (w_users w' u) = uid \<and> ur_auth (w_users w' u) = auth \<and>
      fst (keys_Pop key (snd (keys_Pop key (purgeExpiredKeys t (w_rtm w'))))) = None \<and>
      fst (keys_Pop key (purgeExpiredKeys t' (w_rtm w'))) = None"
proof -
  define r where "r = \<lparr>kr_when = en_now env, kr_user = Some (w_next w)\<rparr>"
  have m: "w_rtm w' = put_key key r (w_rtm w)"
    using rtm_Connect_keys [OF assms(3)] assms(2) by (simp add: r_def)
  have "gm_get (rm_keys (purgeExpiredKeys t (w_rtm w'))) key = Some r"
    unfolding m by (rule keys.put_survives_purge) (use assms in \<open>simp_all add: r_def\<close>)
  moreover have "gm_get (rm_keys (purgeExpiredKeys t' (w_rtm w'))) key = None"
    unfolding m
    by (rule keys.purge_drops_old [where v = r]) (use assms in \<open>simp_all add: put_key_def r_def\<close>)
  moreover have "ur_id (w_users w' (w_next w)) = uid" "ur_auth (w_users w' (w_next w)) = auth"
    using assms(2,3) by (auto simp: rtm_Connect_def Let_def)
  ultimately show ?thesis
    by (simp add: keys_Pop_def r_def)
qed

definition example_env :: rtm_env where
  "example_env = \<lparr>en_now = 100 * second, en_mac = example_mac, en_rnd = ''rnd'', en_jwt_sign = (\<lambda>_ _ _. Inl [])\<rparr>"

theorem connect_key_single_use_and_expiry_witness:
  "\<exists>r u. fst (keys_Pop ''rnd'' (purgeExpiredKeys (130 * second)
     (w_rtm (snd (rtm_Connect example_env ''al'' (Some zero_auth_token) example_world))))) = Some r \<and> kr_user r = Some u"
proof -
  have c: "rtm_Connect example_env ''al'' (Some zero_auth_token) example_world =
      (''rnd'', snd (rtm_Connect example_env ''al'' (Some zero_auth_token) example_world))"
    by (simp add: rtm_Connect_def Let_def example_env_def)
  show ?thesis
    using connect_key_single_use_and_expiry [OF _ _ c, of "130 * second" "131 * second"]
    by (auto simp: example_world_defs example_env_def connectExpiration_def)
qed

section \<open>What the purges remove\<close>

lemma drop_user_frame [simp]:
  "w_users (drop_user u w) = w_users w" "w_conns (drop_user u w) = w_conns w"
  "w_chans (drop_user u w) = w_chans w" "w_pipes (drop_user u w) = w_pipes w"
  "w_atts (drop_user u w) = w_atts w" "w_mcu (drop_user u w) = w_mcu w" "w_admin (drop_user u w) = w_admin w"
  "w_next (drop_user u w) = w_next w" "w_tasks (drop_user u w) = w_tasks w"
  "rm_keys (w_rtm (drop_user u w)) = rm_keys (w_rtm w)"
  "rm_connections (w_rtm (drop_user u w)) = rm_connections (w_rtm w)"
  "rm_channels (w_rtm (drop_user u w)) = rm_channels (w_rtm w)"
  "rm_count (w_rtm (drop_user u w)) = rm_count (w_rtm w)"
  by (simp_all add: drop_user_def)

lemma drop_users_frame [simp]:
  "w_users (fold drop_user us w) = w_users w" "w_conns (fold drop_user us w) = w_conns w"
  "w_chans (fold drop_user us w) = w_chans w" "w_pipes (fold drop_user us w) = w_pipes w"
  "w_atts (fold drop_user us w) = w_atts w" "w_mcu (fold drop_user us w) = w_mcu w" "w_admin (fold drop_user us w) = w_admin w"
  "w_next (fold drop_user us w) = w_next w" "w_tasks (fold drop_user us w) = w_tasks w"
  "rm_keys (w_rtm (fold drop_user us w)) = rm_keys (w_rtm w)"
  "rm_connections (w_rtm (fold drop_user us w)) = rm_connections (w_rtm w)"
  "rm_channels (w_rtm (fold drop_user us w)) = rm_channels (w_rtm w)"
  "rm_count (w_rtm (fold drop_user us w)) = rm_count (w_rtm w)"
  by (induction us arbitrary: w) simp_all

lemma drop_users_table:
  "\<forall>u \<in> set us. ur_connections (w_users w u) = [] \<Longrightarrow>
   rm_users (w_rtm (fold drop_user us w)) = gm_remove_all (map (\<lambda>u. ur_id (w_users w u)) us) (rm_users (w_rtm w))"
proof (induction us arbitrary: w)
  case (Cons u us)
  then show ?case
    using Cons.IH [of "drop_user u w"] by (simp add: drop_user_def gm_remove_all_def)
qed (simp add: gm_remove_all_def)

text \<open>
  Purging inactive users removes exactly the users that have had no connection for longer than the
  expiration, and leaves every other entry, provided the table lists each record under its own id.
\<close>

theorem purgeInactiveUsers_exact:
  assumes "gm_wf (rm_users (w_rtm w))" and "\<forall>(k, u) \<in> set (rm_users (w_rtm w)). ur_id (w_users w u) = k"
  shows "rm_users (w_rtm (purgeInactiveUsers now w)) =
    filter (\<lambda>e. \<not> user_inactive now (w_users w (snd e))) (rm_users (w_rtm w))"
proof -
  let ?P = "\<lambda>e. user_inactive now (w_users w (snd e))"
  have ids: "map (\<lambda>u. ur_id (w_users w u)) (map snd (filter ?P (rm_users (w_rtm w)))) =
      map fst (filter ?P (rm_users (w_rtm w)))"
    using assms(2) by (auto simp: case_prod_beta)
  have "rm_users (w_rtm (purgeInactiveUsers now w)) =
      gm_remove_all (map (\<lambda>u. ur_id (w_users w u)) (map snd (filter ?P (rm_users (w_rtm w))))) (rm_users (w_rtm w))"
    unfolding purgeInactiveUsers_def Let_def by (rule drop_users_table) (auto simp: user_inactive_def)
  also have "\<dots> = filter (\<lambda>e. \<not> ?P e) (rm_users (w_rtm w))"
    unfolding ids by (rule gm_purge_filter [OF assms(1)])
  finally show ?thesis .
qed

theorem purgeInactiveUsers_exact_witness:
  "rm_users (w_rtm (purgeInactiveUsers (200 * second)
     (upd_user 0 (\<lambda>u. u\<lparr>ur_id := ''al'', ur_connections := [5]\<rparr>) (upd_user 1 (\<lambda>u. u\<lparr>ur_id := ''bob''\<rparr>)
       (upd_rtm (\<lambda>m. m\<lparr>rm_users := [(''al'', 0), (''bob'', 1)]\<rparr>) example_world))))) = [(''al'', 0)]"
  by (subst purgeInactiveUsers_exact)
    (simp_all add: gm_wf_def user_inactive_def example_world_defs zero_time_def channelExpiration_def)

lemma collect_empty_filter:
  "\<forall>e \<in> set es. \<not> ch_locked (w_chans w (cr_channel (snd e))) \<Longrightarrow>
   collect_empty d w es =
     Some (filter (\<lambda>e. canBeCleanedUp (w_chans w (cr_channel (snd e))) \<and> cr_when (snd e) < d) es)"
  by (induction es) (simp_all add: CanBeCleanedUp_def)

definition same_members :: "world \<Rightarrow> world \<Rightarrow> bool" where
  "same_members w w' \<longleftrightarrow> (\<forall>h. ch_locked (w_chans w' h) = ch_locked (w_chans w h) \<and>
     ch_config (w_chans w' h) = ch_config (w_chans w h) \<and> ch_id (w_chans w' h) = ch_id (w_chans w h) \<and>
     ch_connections (w_chans w' h) = ch_connections (w_chans w h))"

lemma Channel_Cleanup_ok:
  assumes "\<not> ch_locked (w_chans w h)" and "canBeCleanedUp (w_chans w h)"
  obtains w' where "Channel_Cleanup h w = Some (True, w')" and "same_members w w'" and "w_rtm w' = w_rtm w"
    and "ch_closed (w_chans w' h)" and "\<And>g. g \<noteq> h \<Longrightarrow> w_chans w' g = w_chans w g"
  using assms by (auto simp: Channel_Cleanup_def Let_def same_members_def split: option.splits)

lemma same_members_trans: "same_members w1 w2 \<Longrightarrow> same_members w2 w3 \<Longrightarrow> same_members w1 w3"
  by (simp add: same_members_def)

lemma canBeCleanedUp_same: "same_members w w' \<Longrightarrow> canBeCleanedUp (w_chans w' h) = canBeCleanedUp (w_chans w h)"
  by (simp add: same_members_def canBeCleanedUp_def)

lemma cleanup_all_exact:
  assumes "\<forall>e \<in> set es. \<not> ch_locked (w_chans w (cr_channel (snd e))) \<and> canBeCleanedUp (w_chans w (cr_channel (snd e)))"
  obtains w' where "cleanup_all es w = (HNil, w')" and "same_members w w'"
    and "w_rtm w' = (w_rtm w)\<lparr>rm_channels := gm_remove_all (map fst es) (rm_channels (w_rtm w))\<rparr>"
    and "\<forall>h. ch_closed (w_chans w' h) \<longleftrightarrow> ch_closed (w_chans w h) \<or> h \<in> (cr_channel \<circ> snd) ` set es"
  using assms
proof (induction es arbitrary: w thesis)
  case Nil
  show ?case by (rule Nil.prems(1) [of w]) (simp_all add: same_members_def gm_remove_all_def)
next
  case (Cons e es)
  let ?h = "cr_channel (snd e)"
  obtain w1 where w1: "Channel_Cleanup ?h w = Some (True, w1)" "same_members w w1" "w_rtm w1 = w_rtm w"
      "ch_closed (w_chans w1 ?h)" "\<And>g. g \<noteq> ?h \<Longrightarrow> w_chans w1 g = w_chans w g"
    using Cons.prems(2) Channel_Cleanup_ok [of w ?h] by auto
  define w2 where "w2 = upd_rtm (\<lambda>m. m\<lparr>rm_channels := gm_del (fst e) (rm_channels m)\<rparr>) w1"
  have s2: "same_members w w2" using w1(2) by (simp add: w2_def same_members_def)
  have "\<forall>e \<in> set es. \<not> ch_locked (w_chans w2 (cr_channel (snd e))) \<and> canBeCleanedUp (w_chans w2 (cr_channel (snd e)))"
    using Cons.prems(2) s2 canBeCleanedUp_same [OF s2] by (simp add: same_members_def)
  then obtain w' where w': "cleanup_all es w2 = (HNil, w')" "same_members w2 w'"
      "w_rtm w' = (w_rtm w2)\<lparr>rm_channels := gm_remove_all (map fst es) (rm_channels (w_rtm w2))\<rparr>"
      "\<forall>h. ch_closed (w_chans w' h) \<longleftrightarrow> ch_closed (w_chans w2 h) \<or> h \<in> (cr_channel \<circ> snd) ` set es"
    using Cons.IH [of w2] by blast
  show ?case
  proof (rule Cons.prems(1) [of w'])
    show "cleanup_all (e # es) w = (HNil, w')" using w1(1) w'(1) by (simp add: w2_def)
    show "same_members w w'" using s2 w'(2) by (rule same_members_trans)
    show "w_rtm w' = (w_rtm w)\<lparr>rm_channels := gm_remove_all (map fst (e # es)) (rm_channels (w_rtm w))\<rparr>"
      using w'(3) w1(3) by (simp add: w2_def gm_remove_all_def)
    show "\<forall>h. ch_closed (w_chans w' h) \<longleftrightarrow> ch_closed (w_chans w h) \<or> h \<in> (cr_channel \<circ> snd) ` set (e # es)"
    proof
      fix h
      have "ch_closed (w_chans w1 h) \<longleftrightarrow> ch_closed (w_chans w h) \<or> h = ?h"
        using w1(4) w1(5) [of h] by (cases "h = ?h") auto
      then show "ch_closed (w_chans w' h) \<longleftrightarrow> ch_closed (w_chans w h) \<or> h \<in> (cr_channel \<circ> snd) ` set (e # es)"
        using w'(4) by (auto simp: w2_def)
    qed
  qed
qed

definition channel_expired :: "time \<Rightarrow> world \<Rightarrow> string \<times> channelRecord \<Rightarrow> bool" where
  "channel_expired now w e \<longleftrightarrow>
     ch_connections (w_chans w (cr_channel (snd e))) = [] \<and> cr_when (snd e) < now - channelExpiration"

text \<open>
  When no channel lock was leaked, purging empty channels returns, removes from the table exactly the
  channels without any member that are older than the expiration, marks exactly those closed, and
  changes the members of none.
\<close>

theorem purgeEmptyChannels_exact:
  assumes "gm_wf (rm_channels (w_rtm w))"
    and "\<forall>e \<in> set (rm_channels (w_rtm w)). \<not> ch_locked (w_chans w (cr_channel (snd e))) \<and>
      ch_config (w_chans w (cr_channel (snd e))) \<noteq> None"
  shows "\<exists>w'. purgeEmptyChannels now w = (HNil, w') \<and> same_members w w' \<and>
    rm_channels (w_rtm w') = filter (\<lambda>e. \<not> channel_expired now w e) (rm_channels (w_rtm w)) \<and>
    (\<forall>h. ch_closed (w_chans w' h) \<longleftrightarrow> ch_closed (w_chans w h) \<or>
       (\<exists>e \<in> set (rm_channels (w_rtm w)). channel_expired now w e \<and> cr_channel (snd e) = h))"
proof -
  define es where "es = filter (channel_expired now w) (rm_channels (w_rtm w))"
  have can: "canBeCleanedUp (w_chans w (cr_channel (snd e))) \<longleftrightarrow> ch_connections (w_chans w (cr_channel (snd e))) = []"
    if "e \<in> set (rm_channels (w_rtm w))" for e
    using assms(2) that by (auto simp: canBeCleanedUp_def Let_def)
  have es: "collect_empty (now - channelExpiration) w (rm_channels (w_rtm w)) = Some es"
    using assms(2) can unfolding es_def
    by (subst collect_empty_filter) (auto simp: channel_expired_def intro!: filter_cong)
  have "\<forall>e \<in> set es. \<not> ch_locked (w_chans w (cr_channel (snd e))) \<and> canBeCleanedUp (w_chans w (cr_channel (snd e)))"
    using assms(2) can by (auto simp: es_def channel_expired_def)
  then obtain w' where w': "cleanup_all es w = (HNil, w')" "same_members w w'"
      "w_rtm w' = (w_rtm w)\<lparr>rm_channels := gm_remove_all (map fst es) (rm_channels (w_rtm w))\<rparr>"
      "\<forall>h. ch_closed (w_chans w' h) \<longleftrightarrow> ch_closed (w_chans w h) \<or> h \<in> (cr_channel \<circ> snd) ` set es"
    by (rule cleanup_all_exact)
  have "rm_channels (w_rtm w') = filter (\<lambda>e. \<not> channel_expired now w e) (rm_channels (w_rtm w))"
    using w'(3) gm_purge_filter [OF assms(1), of "channel_expired now w"] by (simp add: es_def)
  moreover have "\<forall>h. ch_closed (w_chans w' h) \<longleftrightarrow> ch_closed (w_chans w h) \<or>
       (\<exists>e \<in> set (rm_channels (w_rtm w)). channel_expired now w e \<and> cr_channel (snd e) = h)"
    using w'(4) by (auto simp: es_def)
  ultimately show ?thesis
    using es w'(1,2) by (simp add: purgeEmptyChannels_def)
qed

theorem purgeEmptyChannels_exact_witness:
  "\<exists>w'. purgeEmptyChannels (200 * second)
     (upd_rtm (\<lambda>m. m\<lparr>rm_channels := [(''*c'', \<lparr>cr_when = 0, cr_channel = 0\<rparr>)]\<rparr>) example_channel_world) = (HNil, w') \<and>
     rm_channels (w_rtm w') = [(''*c'', \<lparr>cr_when = 0, cr_channel = 0\<rparr>)]"
  using purgeEmptyChannels_exact
    [of "upd_rtm (\<lambda>m. m\<lparr>rm_channels := [(''*c'', \<lparr>cr_when = 0, cr_channel = 0\<rparr>)]\<rparr>) example_channel_world" "200 * second"]
  by (auto simp: example_channel_defs gm_wf_def channel_expired_def)

end
