(* ===== verification/Webrtc.thy ===== *)
theory Webrtc
  imports Rtm_Manager
begin

text \<open>
  The WebRTC handler (\<open>src/signaling/rtm/webrtc.go\<close>): restriction check, group channels, call requests
  and responses, hangup and signalling. \<open>processWebRTCMessage\<close> is one definition per case of its
  \<open>switch\<close>; each gives the result of the call and the new state. A message is a value here, so the
  fields the code overwrites before sending are record updates.
\<close>

section \<open>Helpers\<close>

definition bad_message :: "string \<Rightarrow> u64 \<Rightarrow> handler_result" where
  "bad_message text ref = HErr (RTMErr (NewRTMTypeError RTMErrorIDBadMessage text ref))"

definition no_session :: "string \<Rightarrow> u64 \<Rightarrow> handler_result" where
  "no_session text ref = HErr (RTMErr (NewRTMTypeError RTMErrorIDNoSessionForUser text ref))"

definition go_error_text :: "go_error \<Rightarrow> string" where
  "go_error_text e = (case e of GoErr s \<Rightarrow> s | RTMErr r \<Rightarrow> RTMTypeError_Error r)"

text \<open>The user record behind \<open>c.Bound()\<close>, nil for another type or none.\<close>

definition bound_user :: "conn_ref \<Rightarrow> world \<Rightarrow> user_ref option" where
  "bound_user c w = (case cn_binder (w_conns w c) of Some (BoundUser u) \<Rightarrow> Some u | _ \<Rightarrow> None)"

definition auth_profile :: "AdminAuthToken option \<Rightarrow> RTMDataProfile" where
  "auth_profile auth = \<lparr>pr_Name = (case auth of None \<Rightarrow> [] | Some a \<Rightarrow> token_Name a)\<rparr>"

definition may_not_create :: "AdminAuthToken option \<Rightarrow> bool" where
  "may_not_create auth \<longleftrightarrow> (case auth of None \<Rightarrow> False | Some a \<Rightarrow> \<not> at_CanCreateChannels a)"

definition channel_pipeline_data :: "chan_ref \<Rightarrow> world \<Rightarrow> RTMDataWebRTCChannelPipeline option" where
  "channel_pipeline_data h w =
     map_option (\<lambda>p. \<lparr>cp_Pipeline = pipeline_ID (w_pipes w p), cp_Mode = pipeline_Mode (w_pipes w p)\<rparr>)
       (ch_pipeline (w_chans w h))"

definition webrtc_channel_reply :: "RTMTypeWebRTC \<Rightarrow> json option \<Rightarrow> RTMTypeWebRTCReply" where
  "webrtc_channel_reply msg data =
     \<lparr>wy_Type = RTMTypeNameWebRTC, wy_Subtype = RTMSubtypeNameWebRTCChannel, wy_ReplyTo = wm_ID msg,
      wy_State = [], wy_Channel = wm_Channel msg, wy_Hash = wm_Hash msg,
      wy_Version = currentWebRTCPayloadVersion, wy_Data = data\<rparr>"

section \<open>Restrictions\<close>

definition validateRestrictedWebRTCMessage ::
  "RTMTypeWebRTC \<Rightarrow> userRecord option \<Rightarrow> AdminAuthToken option \<times> string option" where
  "validateRestrictedWebRTCMessage msg ur =
     (case ur of
        None \<Rightarrow> (None, None)
      | Some r \<Rightarrow>
          (case ur_auth r of
             None \<Rightarrow> (None, None)
           | Some auth \<Rightarrow>
               (case at_GroupRestriction auth of
                  None \<Rightarrow> (Some auth, None)
                | Some gr \<Rightarrow>
                    if gm_get gr (wm_Group msg) = Some True then (Some auth, None)
                    else (Some auth, Some ''access denied''))))"

section \<open>Groups\<close>

definition group_channel_config :: "string \<Rightarrow> ChannelConfig" where
  "group_channel_config gid =
     \<lparr>cc_Group = gid, cc_Replace = True, cc_AfterAddOrRemove = True, cc_AfterReset = True\<rparr>"

text \<open>The \<open>Upsert\<close> on the channel table: the channel of the id, created if there is none.\<close>

definition upsert_group_channel :: "time \<Rightarrow> string \<Rightarrow> string \<Rightarrow> world \<Rightarrow> chan_ref \<times> world" where
  "upsert_group_channel now channelID gid w =
     (case gm_get (rm_channels (w_rtm w)) channelID of
        Some record \<Rightarrow> (cr_channel record, w)
      | None \<Rightarrow>
          (case CreateKnownChannel channelID (Some (group_channel_config gid)) w of
             (h, w1) \<Rightarrow>
               (h, upd_rtm (\<lambda>m. m\<lparr>rm_channels := gm_set channelID \<lparr>cr_when = now, cr_channel = h\<rparr> (rm_channels m)\<rparr>) w1)))"

text \<open>The end of the group case: hash, members, pipeline data, and the reply to the connection itself.\<close>

definition webrtc_group_reply :: "rtm_env \<Rightarrow> conn_ref \<Rightarrow> string \<Rightarrow> RTMTypeWebRTC \<Rightarrow> chan_ref \<Rightarrow> world \<Rightarrow> handler_result \<times> world" where
  "webrtc_group_reply env c uid msg h w =
     (let hash = computeWebRTCChannelHash (en_mac env) (wm_Type msg) uid (wm_Group msg) (ch_id (w_chans w h));
          msg1 = msg\<lparr>wm_Source := uid, wm_Channel := ch_id (w_chans w h), wm_Hash := b64_encode hash\<rparr>
      in case Channel_Connections h w of
           None \<Rightarrow> (HBlocked, w)
         | Some (members, _) \<Rightarrow>
             (let data = \<lparr>ce_Group = Some \<lparr>cg_Group = wm_Group msg1, cg_Members = members, cg_Reset = True\<rparr>,
                          ce_Pipeline = channel_pipeline_data h w, ce_Replaced = False\<rparr>
              in (HNil, send_to (PWebRTCReply (webrtc_channel_reply msg1 (Some (json_of_channel_extra data)))) c w)))"

definition webrtc_group ::
  "rtm_env \<Rightarrow> conn_ref \<Rightarrow> RTMTypeWebRTC \<Rightarrow> userRecord option \<Rightarrow> AdminAuthToken option \<Rightarrow> world \<Rightarrow> handler_result \<times> world" where
  "webrtc_group env c msg ur auth w =
     (case ur of
        None \<Rightarrow> (bad_message ''connection has no user'' (wm_ID msg), w)
      | Some r \<Rightarrow>
          if wm_Target msg = [] then (bad_message ''target is empty'' (wm_ID msg), w)
          else if wm_Target msg \<noteq> wm_Group msg then (bad_message ''target and group mismatch'' (wm_ID msg), w)
          else if wm_State msg = [] then (bad_message ''state is empty'' (wm_ID msg), w)
          else if wm_Source msg \<noteq> [] then (bad_message ''source must be empty'' (wm_ID msg), w)
          else case upsert_group_channel (en_now env) (CreateNamedGroupChannelID (wm_Group msg)) (wm_Group msg) w of
            (h, w1) \<Rightarrow>
              if may_not_create auth \<and> Channel_Size h w1 = None then (HBlocked, w1)
              else if may_not_create auth \<and> Channel_Size h w1 = Some 0 then
                (HErr (RTMErr (NewRTMTypeError RTMErrorIDCreateRestricted ''access denied'' (wm_ID msg))), w1)
              else case Channel_Add h (ur_id r) c w1 of
                (HErr e, w2) \<Rightarrow> (bad_message (go_error_text e) (wm_ID msg), w2)
              | (HNil, w2) \<Rightarrow> webrtc_group_reply env c (ur_id r) msg h w2
              | (x, w2) \<Rightarrow> (x, w2))"

section \<open>Calls\<close>

definition channels_SetIfAbsent :: "string \<Rightarrow> channelRecord \<Rightarrow> world \<Rightarrow> world" where
  "channels_SetIfAbsent cid record w =
     (if gm_get (rm_channels (w_rtm w)) cid = None
      then upd_rtm (\<lambda>m. m\<lparr>rm_channels := gm_set cid record (rm_channels m)\<rparr>) w else w)"

definition webrtc_call_request ::
  "rtm_env \<Rightarrow> conn_ref \<Rightarrow> RTMTypeWebRTC \<Rightarrow> userRecord \<Rightarrow> AdminAuthToken option \<Rightarrow> world \<Rightarrow> handler_result \<times> world" where
  "webrtc_call_request env c msg r auth w =
     (if wm_Channel msg \<noteq> [] \<or> wm_Hash msg \<noteq> [] then (bad_message ''channel and hash must be empty'' (wm_ID msg), w)
      else if wm_Data msg \<noteq> None then (bad_message ''data must be empty'' (wm_ID msg), w)
      else if may_not_create auth then
        (HErr (RTMErr (NewRTMTypeError RTMErrorIDCreateRestricted ''access denied'' (wm_ID msg))), w)
      else case CreateRandomChannel (en_rnd env) None w of
        (h, w1) \<Rightarrow>
          (case Channel_Add h (ur_id r) c w1 of
             (HErr e, w2) \<Rightarrow> (bad_message (go_error_text e) (wm_ID msg), w2)
           | (HNil, w2) \<Rightarrow>
               (let cid = ch_id (w_chans w2 h);
                    w3 = channels_SetIfAbsent cid \<lparr>cr_when = en_now env, cr_channel = h\<rparr> w2;
                    extra = map_option (\<lambda>pd. json_of_channel_extra \<lparr>ce_Group = None, ce_Pipeline = Some pd, ce_Replaced = False\<rparr>)
                              (channel_pipeline_data h w3);
                    hash = computeWebRTCChannelHash (en_mac env) (wm_Type msg) (ur_id r) (wm_Target msg) cid;
                    msg1 = msg\<lparr>wm_Source := ur_id r, wm_Channel := cid, wm_Hash := b64_encode hash, wm_Data := extra\<rparr>;
                    w4 = send_to (PWebRTCReply (webrtc_channel_reply msg1 (wm_Data msg1))) c w3;
                    msg2 = msg1\<lparr>wm_ID := 0, wm_Profile := Some (auth_profile auth)\<rparr>
                in case LookupConnectionsByID (wm_Target msg2) w4 of
                     None \<Rightarrow> (no_session ''target not found'' (wm_ID msg2), w4)
                   | Some connections \<Rightarrow> (HNil, send_all (PWebRTC msg2) connections w4))
           | (x, w2) \<Rightarrow> (x, w2)))"

text \<open>The message that tells the other connections of the callee that the call was answered.\<close>

definition cleared_message :: "RTMTypeWebRTC \<Rightarrow> RTMTypeWebRTC" where
  "cleared_message msg = zero_webrtc\<lparr>wm_Envelope := True, wm_Type := RTMTypeNameWebRTC, wm_Subtype := RTMSubtypeNameWebRTCCall,
     wm_Initiator := True, wm_Channel := wm_Channel msg, wm_Source := wm_Target msg,
     wm_Version := currentWebRTCPayloadVersion\<rparr>"

text \<open>The end of a response: source and profile are set, then the message goes to the target's connection in the channel.\<close>

definition webrtc_call_answer ::
  "RTMTypeWebRTC \<Rightarrow> string \<Rightarrow> RTMDataProfile \<Rightarrow> chan_ref \<Rightarrow> world \<Rightarrow> handler_result \<times> world" where
  "webrtc_call_answer msg uid profile h w =
     (let msg1 = msg\<lparr>wm_Source := uid, wm_ID := 0, wm_Profile := Some profile\<rparr>
      in case Channel_Get h (wm_Target msg1) w of
           None \<Rightarrow> (HBlocked, w)
         | Some (None, _) \<Rightarrow> (no_session ''target not found'' (wm_ID msg1), w)
         | Some (Some conn, ok) \<Rightarrow>
             if ok then (HNil, send_to (PWebRTC msg1) conn w)
             else (no_session ''target not found'' (wm_ID msg1), w))"

definition webrtc_call_response ::
  "rtm_env \<Rightarrow> conn_ref \<Rightarrow> RTMTypeWebRTC \<Rightarrow> userRecord \<Rightarrow> AdminAuthToken option \<Rightarrow> world \<Rightarrow> handler_result \<times> world" where
  "webrtc_call_response env c msg r auth w =
     (if wm_Channel msg = [] \<or> wm_Hash msg = [] \<or> wm_Data msg = None then
        (bad_message ''channel, hash or data is empty'' (wm_ID msg), w)
      else case gm_get (rm_channels (w_rtm w)) (wm_Channel msg) of
        None \<Rightarrow> (bad_message ''channel not found'' (wm_ID msg), w)
      | Some record \<Rightarrow>
          (let h = cr_channel record; uid = ur_id r; profile = auth_profile auth
           in case checkWebRTCMessage (en_mac env) (w_chans w h) uid msg of
                Some e \<Rightarrow> (HErr e, w)
              | None \<Rightarrow>
                  (case decode_accept (case wm_Data msg of Some j \<Rightarrow> j | None \<Rightarrow> JNull) of
                     None \<Rightarrow> (HErr (GoErr ''json''), w)
                   | Some None \<Rightarrow> (HPanic, w)
                   | Some (Some extra) \<Rightarrow>
                       if wm_Group msg \<noteq> [] then
                         if \<not> ac_Accept extra then (bad_message ''accept required for group call'' (wm_ID msg), w)
                         else
                           (let hash = computeWebRTCChannelHash (en_mac env) (wm_Type msg) uid (wm_Target msg) (ch_id (w_chans w h))
                            in webrtc_call_answer (msg\<lparr>wm_Hash := b64_encode hash\<rparr>) uid profile h w)
                       else
                         case (if ac_Accept extra then Channel_Add h uid c w else (HNil, w)) of
                           (HErr e, w1) \<Rightarrow> (bad_message (go_error_text e) (wm_ID msg), w1)
                         | (HNil, w1) \<Rightarrow>
                             (case LookupConnectionsByID uid w1 of
                                None \<Rightarrow> webrtc_call_answer msg uid profile h w1
                              | Some connections \<Rightarrow>
                                  if \<not> ac_Accept extra \<and> ac_Reason extra = ''reject_busy'' \<and> 1 < length connections
                                  then (HNil, w1)
                                  else webrtc_call_answer msg uid profile h
                                    (send_all (PWebRTC (cleared_message msg)) (filter (\<lambda>d. d \<noteq> c) connections) w1))
                         | (x, w1) \<Rightarrow> (x, w1))))"

definition webrtc_call ::
  "rtm_env \<Rightarrow> conn_ref \<Rightarrow> RTMTypeWebRTC \<Rightarrow> userRecord option \<Rightarrow> AdminAuthToken option \<Rightarrow> world \<Rightarrow> handler_result \<times> world" where
  "webrtc_call env c msg ur auth w =
     (case ur of
        None \<Rightarrow> (bad_message ''connection has no user'' (wm_ID msg), w)
      | Some r \<Rightarrow>
          if wm_Target msg = [] then (bad_message ''target is empty'' (wm_ID msg), w)
          else if wm_Target msg = ur_id r then (bad_message ''target same as source'' (wm_ID msg), w)
          else if wm_State msg = [] then (bad_message ''state is empty'' (wm_ID msg), w)
          else if wm_Source msg \<noteq> [] then (bad_message ''source must be empty'' (wm_ID msg), w)
          else if wm_Initiator msg then webrtc_call_request env c msg r auth w
          else webrtc_call_response env c msg r auth w)"

section \<open>Hangup and signalling\<close>

text \<open>Which connection a message is for: nothing in group mode, else the target's entry in the channel.\<close>

definition webrtc_target :: "chan_ref \<Rightarrow> RTMTypeWebRTC \<Rightarrow> world \<Rightarrow> (conn_ref option \<times> bool) option" where
  "webrtc_target h msg w =
     (if wm_Group msg \<noteq> [] \<and> wm_Target msg = wm_Group msg then Some (None, True)
      else if wm_Target msg \<noteq> [] then Channel_Get h (wm_Target msg) w
      else Some (None, False))"

definition webrtc_forward ::
  "chan_ref \<Rightarrow> string \<Rightarrow> RTMTypeWebRTC \<Rightarrow> conn_ref option \<Rightarrow> bool \<Rightarrow> world \<Rightarrow> handler_result \<times> world" where
  "webrtc_forward h uid msg targetConnection ok w =
     (if ok \<or> targetConnection \<noteq> None then Forward h uid (wm_Target msg) targetConnection msg w
      else (no_session ''target not found'' (wm_ID msg), w))"

definition webrtc_hangup_absent :: "string \<Rightarrow> RTMTypeWebRTC \<Rightarrow> world \<Rightarrow> handler_result \<times> world" where
  "webrtc_hangup_absent uid msg w =
     (let msg1 = msg\<lparr>wm_Source := uid, wm_ID := 0\<rparr>
      in case LookupConnectionsByID (wm_Target msg1) w of
           None \<Rightarrow> (no_session ''target not found'' (wm_ID msg), w)
         | Some connections \<Rightarrow> (HNil, send_all (PWebRTC msg1) connections w))"

definition webrtc_hangup_signal ::
  "rtm_env \<Rightarrow> conn_ref \<Rightarrow> RTMTypeWebRTC \<Rightarrow> userRecord option \<Rightarrow> world \<Rightarrow> handler_result \<times> world" where
  "webrtc_hangup_signal env c msg ur w =
     (case ur of
        None \<Rightarrow> (bad_message ''connection has no user'' (wm_ID msg), w)
      | Some r \<Rightarrow>
          if wm_State msg = [] then (bad_message ''state is empty'' (wm_ID msg), w)
          else if wm_Source msg \<noteq> [] then (bad_message ''source must be empty'' (wm_ID msg), w)
          else if wm_Channel msg = [] \<or> wm_Hash msg = [] \<or> wm_Data msg = None then
            (bad_message ''channel hash or data is empty'' (wm_ID msg), w)
          else case gm_get (rm_channels (w_rtm w)) (wm_Channel msg) of
            None \<Rightarrow> (bad_message ''channel not found'' (wm_ID msg), w)
          | Some record \<Rightarrow>
              (let h = cr_channel record; uid = ur_id r
               in case checkWebRTCMessage (en_mac env) (w_chans w h) uid msg of
                    Some e \<Rightarrow> (HErr e, w)
                  | None \<Rightarrow>
                      (case webrtc_target h msg w of
                         None \<Rightarrow> (HBlocked, w)
                       | Some (targetConnection, ok) \<Rightarrow>
                           if wm_Subtype msg = RTMSubtypeNameWebRTCHangup then
                             (case Channel_Remove h uid w of
                                (HBlocked, w1) \<Rightarrow> (HBlocked, w1)
                              | (_, w1) \<Rightarrow>
                                  if \<not> ok then webrtc_hangup_absent uid msg w1
                                  else webrtc_forward h uid msg targetConnection ok w1)
                           else webrtc_forward h uid msg targetConnection ok w)))"

section \<open>Dispatch\<close>

definition processWebRTCMessage :: "rtm_env \<Rightarrow> conn_ref \<Rightarrow> RTMTypeWebRTC \<Rightarrow> world \<Rightarrow> handler_result \<times> world" where
  "processWebRTCMessage env c msg w =
     (if wm_Version msg < minimalWebRTCPayloadVersion then
        (bad_message ''outdated WebRTC payload version'' (wm_ID msg), w)
      else if wm_Profile msg \<noteq> None then (bad_message ''profile cannot be set by client'' (wm_ID msg), w)
      else
        let ur = map_option (w_users w) (bound_user c w)
        in case validateRestrictedWebRTCMessage msg ur of
             (_, Some e) \<Rightarrow> (HErr (RTMErr (NewRTMTypeError RTMErrorIDAccessRestricted e (wm_ID msg))), w)
           | (auth, None) \<Rightarrow>
               if wm_Subtype msg = RTMSubtypeNameWebRTCGroup then webrtc_group env c msg ur auth w
               else if wm_Subtype msg = RTMSubtypeNameWebRTCCall then webrtc_call env c msg ur auth w
               else if wm_Subtype msg = RTMSubtypeNameWebRTCHangup \<or> wm_Subtype msg = RTMSubtypeNameWebRTCSignal
               then webrtc_hangup_signal env c msg ur w
               else (bad_message ''unknown subtype'' (wm_ID msg), w))"

text \<open>The post-processing shared by \<open>onWebRTC\<close> and \<open>onChats\<close>: unknown-session errors are not reported.\<close>

definition hide_no_session :: "handler_result \<Rightarrow> handler_result" where
  "hide_no_session r =
     (case r of
        HErr (RTMErr e) \<Rightarrow>
          (case er_ErrorData e of
             None \<Rightarrow> HPanic
           | Some d \<Rightarrow> if ed_Code d = RTMErrorIDNoSessionForUser then HNil else r)
      | _ \<Rightarrow> r)"

definition onWebRTC :: "rtm_env \<Rightarrow> conn_ref \<Rightarrow> RTMTypeWebRTC \<Rightarrow> world \<Rightarrow> handler_result \<times> world" where
  "onWebRTC env c msg w =
     (case processWebRTCMessage env c msg w of (r, w') \<Rightarrow> (hide_no_session r, w'))"

end
