(* ===== verification/Effects.thy ===== *)
theory Effects
  imports Webrtc
begin

text \<open>
  What a message handler may do to the state, as a sequence of elementary effects: queue a payload,
  create or register a channel, join, leave, or leak a lock. \<open>processWebRTCMessage\<close> is decomposed once
  into the effects its checks allow; what follows for the state (who can be impersonated, which
  channels a restricted user touches, which invariants survive) is then proved per effect.
\<close>

section \<open>Effects\<close>

datatype effect =
    ESend conn_ref payload
  | ENew string "ChannelConfig option"
  | ERegister string channelRecord
  | EJoin chan_ref string conn_ref bool
  | EWedge chan_ref
  | ELeave chan_ref string

fun apply_effect :: "effect \<Rightarrow> world \<Rightarrow> world" where
  "apply_effect (ESend d p) w = send_to p d w"
| "apply_effect (ENew cid cfg) w = snd (NewChannel cid cfg w)"
| "apply_effect (ERegister k rec) w = upd_rtm (\<lambda>m. m\<lparr>rm_channels := gm_set k rec (rm_channels m)\<rparr>) w"
| "apply_effect (EJoin h uid c r) w = channel_store h uid c r w"
| "apply_effect (EWedge h) w = upd_chan h (\<lambda>ch. ch\<lparr>ch_locked := True\<rparr>) w"
| "apply_effect (ELeave h uid) w = snd (channel_remove h uid None w)"

inductive effects :: "(world \<Rightarrow> effect \<Rightarrow> bool) \<Rightarrow> world \<Rightarrow> world \<Rightarrow> bool" for A where
  none [intro, simp]: "effects A w w"
| step: "effects A w w1 \<Longrightarrow> A w1 e \<Longrightarrow> effects A w (apply_effect e w1)"

lemma effects_one: "A w e \<Longrightarrow> effects A w (apply_effect e w)"
  by (rule effects.step [OF effects.none])

lemma effects_trans: "effects A w2 w3 \<Longrightarrow> effects A w1 w2 \<Longrightarrow> effects A w1 w3"
  by (induction rule: effects.induct) (auto intro: effects.step)

lemma effects_mono: "effects A w w' \<Longrightarrow> (\<And>v e. A v e \<Longrightarrow> B v e) \<Longrightarrow> effects B w w'"
  by (induction rule: effects.induct) (auto intro: effects.step)

text \<open>An invariant every allowed effect keeps holds after all of them.\<close>

lemma effects_invariant:
  assumes "effects A w w'" and "I w" and "\<And>v e. I v \<Longrightarrow> A v e \<Longrightarrow> I (apply_effect e v)"
  shows "I w'"
  using assms by (induction rule: effects.induct) auto

lemma effects_send: "(\<And>v. A v (ESend d p)) \<Longrightarrow> effects A w (send_to p d w)"
  using effects_one [of A w "ESend d p"] by simp

lemma effects_send_all:
  "(\<And>v d. d \<in> set ds \<Longrightarrow> A v (ESend d p)) \<Longrightarrow> effects A w (send_all p ds w)"
  unfolding send_all_def
proof (induction ds arbitrary: w)
  case (Cons d ds)
  have "effects A (send_to p d w) (fold (send_to p) ds (send_to p d w))"
    by (rule Cons.IH) (simp add: Cons.prems)
  moreover have "effects A w (send_to p d w)"
    by (rule effects_send) (simp add: Cons.prems)
  ultimately show ?case by (auto intro: effects_trans)
qed simp

lemma effects_w_send: "(\<And>v. A v (ESend d p)) \<Longrightarrow> effects A w (snd (w_send d p w))"
  using effects_send [of A d p w] by (simp add: send_to_def)

lemma effects_pipeline_Send:
  "(\<And>v d. A v (ESend d p)) \<Longrightarrow> effects A w (snd (pipeline_Send q p w))"
  by (auto simp: pipeline_Send_def split: option.splits intro: effects_w_send)

section \<open>Named channels\<close>

text \<open>
  A registered channel is either a standard channel with the default configuration or the channel of
  a group with the group's configuration, and its id says which.
\<close>

definition chan_named :: "string \<Rightarrow> Channel \<Rightarrow> bool" where
  "chan_named k ch \<longleftrightarrow> ch_id ch = k \<and>
     ((\<exists>s. k = ChannelPrefixStandard @ s \<and> ch_config ch = Some ChannelDefaultConfig) \<or>
      (\<exists>g. k = ChannelPrefixNamedGroup @ g \<and> ch_config ch = Some (group_channel_config g)))"

definition channel_table_ok :: "world \<Rightarrow> bool" where
  "channel_table_ok w \<longleftrightarrow> gm_wf (rm_channels (w_rtm w)) \<and>
     (\<forall>(k, rec) \<in> set (rm_channels (w_rtm w)). cr_channel rec < w_next w \<and>
        chan_named k (w_chans w (cr_channel rec)) \<and> \<not> ch_closed (w_chans w (cr_channel rec)))"

lemma channel_table_okD:
  assumes "channel_table_ok w" and "gm_get (rm_channels (w_rtm w)) k = Some rec"
  shows "cr_channel rec < w_next w" and "chan_named k (w_chans w (cr_channel rec))"
    and "\<not> ch_closed (w_chans w (cr_channel rec))"
  using assms by (auto simp: channel_table_ok_def dest!: map_of_SomeD)

lemma chan_named_group: "chan_named (ChannelPrefixNamedGroup @ g) ch \<Longrightarrow> ch_config ch = Some (group_channel_config g)"
  by (auto simp: chan_named_def ChannelPrefixStandard_def ChannelPrefixNamedGroup_def)

section \<open>What the WebRTC handler is allowed\<close>

text \<open>
  \<open>n\<close> is the allocation counter before the call, so that channels from \<open>n\<close> on are new; \<open>prof\<close> the profile
  of the authenticated user and \<open>own\<close> the user's connections.
\<close>

definition stamped :: "RTMTypeWebRTC \<Rightarrow> string \<Rightarrow> RTMDataProfile \<Rightarrow> conn_ref set \<Rightarrow> conn_ref \<Rightarrow> payload \<Rightarrow> bool" where
  "stamped msg uid prof own d p \<longleftrightarrow>
     (case p of
        PWebRTC m \<Rightarrow> (wm_Source m = uid \<and> wm_Profile m \<in> {None, Some prof}) \<or> (d \<in> own \<and> m = cleared_message msg)
      | PWebRTCReply y \<Rightarrow> True
      | _ \<Rightarrow> False)"

definition touchable :: "nat \<Rightarrow> RTMTypeWebRTC \<Rightarrow> world \<Rightarrow> chan_ref \<Rightarrow> bool" where
  "touchable n msg w h \<longleftrightarrow> h < w_next w \<and> \<not> ch_locked (w_chans w h) \<and>
     (n \<le> h \<or> wm_Group msg = [] \<or> cc_Group (channel_config (w_chans w h)) = wm_Group msg)"

fun webrtc_allowed ::
  "nat \<Rightarrow> RTMTypeWebRTC \<Rightarrow> string \<Rightarrow> conn_ref \<Rightarrow> RTMDataProfile \<Rightarrow> conn_ref set \<Rightarrow> world \<Rightarrow> effect \<Rightarrow> bool" where
  "webrtc_allowed n msg uid c prof own w (ESend d p) = stamped msg uid prof own d p"
| "webrtc_allowed n msg uid c prof own w (ENew cid cfg) =
     ((cfg = None \<and> (\<exists>s. cid = ChannelPrefixStandard @ s)) \<or>
      (cfg = Some (group_channel_config (wm_Group msg)) \<and> cid = ChannelPrefixNamedGroup @ wm_Group msg))"
| "webrtc_allowed n msg uid c prof own w (ERegister k rec) =
     (gm_get (rm_channels (w_rtm w)) k = None \<and> cr_channel rec < w_next w \<and>
      chan_named k (w_chans w (cr_channel rec)) \<and> \<not> ch_closed (w_chans w (cr_channel rec)))"
| "webrtc_allowed n msg uid c prof own w (EJoin h uid' c' r) =
     (uid' = uid \<and> c' = c \<and> touchable n msg w h \<and> \<not> ch_closed (w_chans w h) \<and>
      gm_get (ch_connections (w_chans w h)) uid \<noteq> Some c)"
| "webrtc_allowed n msg uid c prof own w (EWedge h) =
     (touchable n msg w h \<and> \<not> cc_Replace (channel_config (w_chans w h)) \<and>
      (\<exists>d. d \<noteq> c \<and> gm_get (ch_connections (w_chans w h)) uid = Some d))"
| "webrtc_allowed n msg uid c prof own w (ELeave h uid') = (uid' = uid \<and> touchable n msg w h)"

lemma NewChannel_result:
  assumes "NewChannel cid cfg w = (h, w')"
  shows "h = w_next w" and "w_next w < w_next w'" and "rm_channels (w_rtm w') = rm_channels (w_rtm w)"
    and "ch_id (w_chans w' h) = cid"
    and "ch_config (w_chans w' h) = Some (case cfg of None \<Rightarrow> ChannelDefaultConfig | Some x \<Rightarrow> x)"
    and "ch_connections (w_chans w' h) = []" and "\<not> ch_closed (w_chans w' h)" and "\<not> ch_locked (w_chans w' h)"
    and "\<And>g. g \<noteq> h \<Longrightarrow> w_chans w' g = w_chans w g"
    and "w_conns w' = w_conns w" and "w_users w' = w_users w" and "rm_users (w_rtm w') = rm_users (w_rtm w)"
    and "rm_connections (w_rtm w') = rm_connections (w_rtm w)" and "rm_keys (w_rtm w') = rm_keys (w_rtm w)"
  using assms
  by (auto simp: NewChannel_def rtm_Pipeline_def mcu_Pipeline_def mcu_NewHandle_def Let_def
      split: option.splits if_splits prod.splits)

section \<open>Decomposition\<close>

lemma same_touchable: "same_but_queues w w' \<Longrightarrow> touchable n msg w' h = touchable n msg w h"
  by (simp add: touchable_def same_but_queuesD)

lemma Channel_Add_effects:
  assumes "touchable n msg w h"
  shows "effects (webrtc_allowed n msg uid c prof own) w (snd (Channel_Add h uid c w))"
proof -
  let ?A = "webrtc_allowed n msg uid c prof own"
  let ?ch = "w_chans w h"
  have unlocked: "\<not> ch_locked ?ch" using assms by (simp add: touchable_def)
  consider (closed) "ch_closed ?ch"
    | (fresh) "\<not> ch_closed ?ch" "gm_get (ch_connections ?ch) uid = None"
    | (same) "\<not> ch_closed ?ch" "gm_get (ch_connections ?ch) uid = Some c"
    | (wedge) d where "\<not> ch_closed ?ch" "gm_get (ch_connections ?ch) uid = Some d" "d \<noteq> c" "\<not> cc_Replace (channel_config ?ch)"
    | (replace) d where "\<not> ch_closed ?ch" "gm_get (ch_connections ?ch) uid = Some d" "d \<noteq> c" "cc_Replace (channel_config ?ch)"
    by (cases "gm_get (ch_connections ?ch) uid") auto
  then show ?thesis
  proof cases
    case fresh
    then have "snd (Channel_Add h uid c w) = apply_effect (EJoin h uid c False) w"
      using unlocked by (simp add: Channel_Add_def Let_def)
    moreover have "?A w (EJoin h uid c False)" using fresh assms by simp
    ultimately show ?thesis using effects_one by metis
  next
    case wedge
    then have "snd (Channel_Add h uid c w) = apply_effect (EWedge h) w"
      using unlocked by (simp add: Channel_Add_def Let_def)
    moreover have "?A w (EWedge h)" using wedge assms by simp
    ultimately show ?thesis using effects_one by metis
  next
    case replace
    define w1 where "w1 = onGroupReplace h uid d c w"
    have "effects ?A w w1"
      unfolding w1_def onGroupReplace_def by (rule effects_send) (simp add: stamped_def)
    moreover have "?A w1 (EJoin h uid c True)"
      using replace assms by (simp add: w1_def same_touchable [OF onGroupReplace_same])
    moreover have "snd (Channel_Add h uid c w) = apply_effect (EJoin h uid c True) w1"
      using replace unlocked by (simp add: Channel_Add_def Let_def w1_def)
    ultimately show ?thesis using effects.step by metis
  qed (use unlocked in \<open>simp_all add: Channel_Add_def Let_def\<close>)
qed

lemma webrtc_group_reply_effects:
  "effects (webrtc_allowed n msg uid c prof own) w (snd (webrtc_group_reply env c uid msg' h w))"
  by (auto simp: webrtc_group_reply_def Let_def stamped_def split: option.splits intro!: effects_send)

lemma webrtc_call_answer_effects:
  "effects (webrtc_allowed n msg uid c prof own) w (snd (webrtc_call_answer msg' uid prof h w))"
  by (auto simp: webrtc_call_answer_def Let_def stamped_def split: option.splits intro!: effects_send)

lemma upsert_group_channel_effects:
  assumes "channel_table_ok w" and "n = w_next w"
    and "upsert_group_channel now (CreateNamedGroupChannelID (wm_Group msg)) (wm_Group msg) w = (h, w1)"
  shows "effects (webrtc_allowed n msg uid c prof own) w w1" and "h < w_next w1"
    and "cc_Group (channel_config (w_chans w1 h)) = wm_Group msg"
proof -
  let ?A = "webrtc_allowed n msg uid c prof own"
  let ?k = "CreateNamedGroupChannelID (wm_Group msg)"
  have "effects ?A w w1 \<and> h < w_next w1 \<and> cc_Group (channel_config (w_chans w1 h)) = wm_Group msg"
  proof (cases "gm_get (rm_channels (w_rtm w)) ?k")
    case (Some rec)
    then have "h = cr_channel rec" "w1 = w"
      using assms(3) by (auto simp: upsert_group_channel_def)
    then show ?thesis
      using channel_table_okD [OF assms(1) Some] chan_named_group [of "wm_Group msg"]
      by (simp add: CreateNamedGroupChannelID_def channel_config_def group_channel_config_def)
  next
    case None
    define w0 where "w0 = snd (NewChannel ?k (Some (group_channel_config (wm_Group msg))) w)"
    define rec where "rec = \<lparr>cr_when = now, cr_channel = h\<rparr>"
    have new: "NewChannel ?k (Some (group_channel_config (wm_Group msg))) w = (h, w0)"
      and w1: "w1 = apply_effect (ERegister ?k rec) w0"
      using None assms(3)
      by (auto simp: upsert_group_channel_def CreateKnownChannel_def w0_def rec_def split: prod.splits)
    note res = NewChannel_result [OF new]
    have "effects ?A w w0"
      using effects_one [of ?A w "ENew ?k (Some (group_channel_config (wm_Group msg)))"] new
      by (simp add: CreateNamedGroupChannelID_def)
    moreover have "?A w0 (ERegister ?k rec)"
      using None res by (auto simp: rec_def chan_named_def CreateNamedGroupChannelID_def)
    ultimately have "effects ?A w w1" unfolding w1 by (rule effects.step)
    then show ?thesis
      using res by (simp add: w1 channel_config_def group_channel_config_def)
  qed
  then show "effects ?A w w1" "h < w_next w1" "cc_Group (channel_config (w_chans w1 h)) = wm_Group msg"
    by auto
qed

lemma webrtc_group_effects:
  assumes "channel_table_ok w" and "n = w_next w"
  shows "effects (webrtc_allowed n msg (ur_id r) c prof own) w (snd (webrtc_group env c msg (Some r) auth w))"
proof -
  let ?A = "webrtc_allowed n msg (ur_id r) c prof own"
  obtain h w1 where up: "upsert_group_channel (en_now env) (CreateNamedGroupChannelID (wm_Group msg)) (wm_Group msg) w = (h, w1)"
    by (cases "upsert_group_channel (en_now env) (CreateNamedGroupChannelID (wm_Group msg)) (wm_Group msg) w")
  note ups = upsert_group_channel_effects [OF assms up]
  obtain x w2 where add: "Channel_Add h (ur_id r) c w1 = (x, w2)"
    by (cases "Channel_Add h (ur_id r) c w1")
  have "effects ?A w1 w2"
  proof (cases "ch_locked (w_chans w1 h)")
    case True
    then show ?thesis using add by (auto simp: Channel_Add_def)
  next
    case False
    then have "touchable n msg w1 h" using ups by (simp add: touchable_def)
    from Channel_Add_effects [OF this, of "ur_id r" c prof own] add show ?thesis by simp
  qed
  moreover have "effects ?A w2 (snd (webrtc_group_reply env c (ur_id r) msg h w2))"
    by (rule webrtc_group_reply_effects)
  ultimately show ?thesis
    using ups(1) up add
    by (auto simp: webrtc_group_def split: handler_result.splits intro: effects_trans)
qed

lemma channel_store_rtm [simp]:
  "w_rtm (channel_store h uid c r w) = w_rtm w" "w_next (channel_store h uid c r w) = w_next w"
  "w_users (channel_store h uid c r w) = w_users w"
  by (simp_all add: channel_store_def Let_def)

lemma webrtc_call_request_effects:
  assumes "channel_table_ok w" and "n = w_next w"
  shows "effects (webrtc_allowed n msg (ur_id r) c (auth_profile auth) own) w
    (snd (webrtc_call_request env c msg r auth w))"
proof -
  let ?A = "webrtc_allowed n msg (ur_id r) c (auth_profile auth) own"
  obtain h w1 where new: "NewChannel (ChannelPrefixStandard @ en_rnd env) None w = (h, w1)"
    by (cases "NewChannel (ChannelPrefixStandard @ en_rnd env) None w")
  note res = NewChannel_result [OF new]
  have e1: "effects ?A w w1"
    using effects_one [of ?A w "ENew (ChannelPrefixStandard @ en_rnd env) None"] new by simp
  define w2 where "w2 = channel_store h (ur_id r) c False w1"
  have add: "Channel_Add h (ur_id r) c w1 = (HNil, w2)"
    using res by (simp add: Channel_Add_def Let_def w2_def)
  have "touchable n msg w1 h"
    using res assms(2) by (simp add: touchable_def)
  from Channel_Add_effects [OF this, of "ur_id r" c "auth_profile auth" own] e1 add
  have e2: "effects ?A w w2" by (auto intro: effects_trans)
  define cid where "cid = ch_id (w_chans w2 h)"
  define rec where "rec = \<lparr>cr_when = en_now env, cr_channel = h\<rparr>"
  have named: "chan_named cid (w_chans w2 h)" "\<not> ch_closed (w_chans w2 h)" "h < w_next w2"
    using res by (auto simp: w2_def channel_store_chans chan_named_def cid_def)
  define w3 where "w3 = channels_SetIfAbsent cid rec w2"
  have e3: "effects ?A w w3"
  proof (cases "gm_get (rm_channels (w_rtm w2)) cid = None")
    case True
    with named have "?A w2 (ERegister cid rec)" by (simp add: rec_def)
    from effects.step [OF e2 this] True show ?thesis by (simp add: w3_def channels_SetIfAbsent_def)
  qed (auto simp: w3_def channels_SetIfAbsent_def e2)
  have reply: "effects ?A w (send_to (PWebRTCReply y) c w3)" for y
    by (rule effects_trans [OF effects_send e3]) (simp add: stamped_def)
  have invite: "effects ?A w (send_all (PWebRTC m) ds (send_to (PWebRTCReply y) c w3))"
    if "wm_Source m = ur_id r" "wm_Profile m = Some (auth_profile auth)" for m ds y
    by (rule effects_trans [OF effects_send_all reply]) (simp add: stamped_def that)
  show ?thesis
    by (simp add: webrtc_call_request_def CreateRandomChannel_def new add Let_def
        cid_def [symmetric] rec_def [symmetric] w3_def [symmetric] reply invite split: option.splits)
qed

lemma checked_touchable:
  assumes "channel_table_ok w" and "gm_get (rm_channels (w_rtm w)) k = Some rec"
    and "checkWebRTCMessage mac (w_chans w (cr_channel rec)) uid msg = None"
    and "\<not> ch_locked (w_chans w (cr_channel rec))"
  shows "touchable n msg w (cr_channel rec)"
  using assms(3,4) channel_table_okD [OF assms(1,2)]
  by (auto simp: touchable_def checkWebRTCMessage_def Let_def split: if_splits)

lemma accept_add_effects:
  assumes "channel_table_ok w" and "gm_get (rm_channels (w_rtm w)) k = Some rec"
    and "checkWebRTCMessage mac (w_chans w (cr_channel rec)) uid msg = None"
    and "(if b then Channel_Add (cr_channel rec) uid c w else (HNil, w)) = (x, w1)"
  shows "effects (webrtc_allowed n msg uid c prof own) w w1"
proof (cases "b \<and> \<not> ch_locked (w_chans w (cr_channel rec))")
  case True
  with assms Channel_Add_effects [OF checked_touchable [OF assms(1-3)], where uid = uid and c = c and prof = prof and own = own]
  show ?thesis by simp
next
  case False
  with assms(4) show ?thesis
    by (auto simp: Channel_Add_def split: if_splits)
qed

lemma Channel_Add_users:
  "w_rtm (snd (Channel_Add h uid c w)) = w_rtm w" "w_users (snd (Channel_Add h uid c w)) = w_users w"
  by (auto simp: Channel_Add_def Let_def split: option.splits)

lemma webrtc_call_response_effects:
  assumes "channel_table_ok w" and "own = (case LookupConnectionsByID (ur_id r) w of None \<Rightarrow> {} | Some ds \<Rightarrow> set ds)"
  shows "effects (webrtc_allowed n msg (ur_id r) c (auth_profile auth) own) w
    (snd (webrtc_call_response env c msg r auth w))"
proof (cases "wm_Channel msg = [] \<or> wm_Hash msg = [] \<or> wm_Data msg = None")
  case False
  let ?A = "webrtc_allowed n msg (ur_id r) c (auth_profile auth) own"
  show ?thesis
  proof (cases "gm_get (rm_channels (w_rtm w)) (wm_Channel msg)")
    case None
    with False show ?thesis by (simp add: webrtc_call_response_def)
  next
    case (Some rec)
    let ?h = "cr_channel rec"
    show ?thesis
    proof (cases "checkWebRTCMessage (en_mac env) (w_chans w ?h) (ur_id r) msg")
      case check: None
      have add: "effects ?A w w1 \<and> w_rtm w1 = w_rtm w \<and> w_users w1 = w_users w"
        if "(if b then Channel_Add ?h (ur_id r) c w else (HNil, w)) = (x, w1)" for b x w1
        using accept_add_effects [OF assms(1) Some check that] that Channel_Add_users [of ?h "ur_id r" c w]
        by (auto split: if_splits)
      have cleared: "effects ?A w1 (snd (webrtc_call_answer m (ur_id r) (auth_profile auth) ?h
          (send_all (PWebRTC (cleared_message msg)) (filter (\<lambda>d. d \<noteq> c) ds) w1)))"
        if "set ds \<subseteq> own" for m ds w1
        by (rule effects_trans [OF webrtc_call_answer_effects effects_send_all]) (use that in \<open>auto simp: stamped_def\<close>)
      have own: "set ds \<subseteq> own" if "LookupConnectionsByID (ur_id r) w1 = Some ds" "w_rtm w1 = w_rtm w" "w_users w1 = w_users w" for ds w1
        using that assms(2) by (auto simp: LookupConnectionsByID_def lookupUserEntryByID_def)
      have normal: "effects ?A w (snd (case (if b then Channel_Add ?h (ur_id r) c w else (HNil, w)) of
          (HErr e, w1) \<Rightarrow> (bad_message (go_error_text e) (wm_ID msg), w1)
        | (HNil, w1) \<Rightarrow> (case LookupConnectionsByID (ur_id r) w1 of
             None \<Rightarrow> webrtc_call_answer msg (ur_id r) (auth_profile auth) ?h w1
           | Some ds \<Rightarrow> if q ds then (HNil, w1)
               else webrtc_call_answer msg (ur_id r) (auth_profile auth) ?h
                 (send_all (PWebRTC (cleared_message msg)) (filter (\<lambda>d. d \<noteq> c) ds) w1))
        | (y, w1) \<Rightarrow> (y, w1)))" for b q
      proof (cases "if b then Channel_Add ?h (ur_id r) c w else (HNil, w)")
        case (Pair x w1)
        have e: "effects ?A w w1" "w_rtm w1 = w_rtm w" "w_users w1 = w_users w"
          using add [OF Pair] by auto
        have later: "effects ?A w v" if "effects ?A w1 v" for v
          using that e(1) by (rule effects_trans)
        show ?thesis
          unfolding Pair using e(1) own [OF _ e(2,3)]
          by (auto split: handler_result.splits option.splits
              intro!: later cleared webrtc_call_answer_effects)
      qed
      show ?thesis
        unfolding webrtc_call_response_def
        using False Some check normal webrtc_call_answer_effects
        by (simp add: Let_def split: option.splits)
    qed (use False Some in \<open>simp add: webrtc_call_response_def Let_def\<close>)
  qed
qed (auto simp: webrtc_call_response_def)

lemma Channel_Remove_effects:
  assumes "h < w_next w" and "n \<le> h \<or> wm_Group msg = [] \<or> cc_Group (channel_config (w_chans w h)) = wm_Group msg"
  shows "effects (webrtc_allowed n msg uid c prof own) w (snd (Channel_Remove h uid w))"
proof (cases "ch_locked (w_chans w h)")
  case False
  have "snd (Channel_Remove h uid w) = apply_effect (ELeave h uid) w"
    using False channel_remove_None [of h uid w] by (auto simp: Channel_Remove_def split: prod.splits option.splits)
  moreover have "webrtc_allowed n msg uid c prof own w (ELeave h uid)"
    using assms False by (simp add: touchable_def)
  ultimately show ?thesis using effects_one by metis
qed (simp add: Channel_Remove_def)

lemma result_of_send_snd [simp]: "snd (result_of_send r) = snd r"
  by (simp add: result_of_send_def split: prod.splits option.splits)

lemma Forward_effects:
  assumes "wm_Profile m = None"
  shows "effects (webrtc_allowed n msg uid c prof own) w (snd (Forward h uid target conn m w))"
  using assms
  by (auto simp: Forward_def Let_def stamped_def split: option.splits
      intro!: effects_pipeline_Send effects_w_send)

lemma webrtc_forward_effects:
  assumes "wm_Profile m = None"
  shows "effects (webrtc_allowed n msg uid c prof own) w (snd (webrtc_forward h uid m conn ok w))"
  using assms by (simp add: webrtc_forward_def Forward_effects)

lemma webrtc_hangup_absent_effects:
  assumes "wm_Profile m = None"
  shows "effects (webrtc_allowed n msg uid c prof own) w (snd (webrtc_hangup_absent uid m w))"
  using assms
  by (auto simp: webrtc_hangup_absent_def Let_def stamped_def split: option.splits intro!: effects_send_all)

lemma webrtc_hangup_signal_effects:
  assumes "channel_table_ok w" and "wm_Profile msg = None"
  shows "effects (webrtc_allowed n msg (ur_id r) c prof own) w (snd (webrtc_hangup_signal env c msg (Some r) w))"
proof (cases "gm_get (rm_channels (w_rtm w)) (wm_Channel msg)")
  case (Some rec)
  let ?A = "webrtc_allowed n msg (ur_id r) c prof own"
  let ?h = "cr_channel rec"
  note fwd = webrtc_forward_effects [OF assms(2)] webrtc_hangup_absent_effects [OF assms(2)]
  have hangup: "effects ?A w (snd (case Channel_Remove ?h (ur_id r) w of
        (HBlocked, w1) \<Rightarrow> (HBlocked, w1)
      | (_, w1) \<Rightarrow> if \<not> ok then webrtc_hangup_absent (ur_id r) msg w1
                  else webrtc_forward ?h (ur_id r) msg conn ok w1))"
    if "checkWebRTCMessage (en_mac env) (w_chans w ?h) (ur_id r) msg = None" for ok conn
  proof (cases "Channel_Remove ?h (ur_id r) w")
    case (Pair x w1)
    have "wm_Group msg = [] \<or> cc_Group (channel_config (w_chans w ?h)) = wm_Group msg"
      using that by (auto simp: checkWebRTCMessage_def Let_def split: if_splits)
    then have "effects ?A w w1"
      using Channel_Remove_effects [of ?h w n msg "ur_id r" c prof own] channel_table_okD(1) [OF assms(1) Some] Pair
      by simp
    then have later: "effects ?A w v" if "effects ?A w1 v" for v
      using that by (rule effects_trans [rotated])
    show ?thesis
      unfolding Pair by (auto split: handler_result.splits intro!: later fwd)
  qed
  show ?thesis
    using Some hangup fwd by (simp add: webrtc_hangup_signal_def Let_def split: option.splits)
qed (simp add: webrtc_hangup_signal_def)

text \<open>Every effect of a message is one its sender's identity, profile and group allow.\<close>

definition user_profile :: "userRecord \<Rightarrow> RTMDataProfile" where
  "user_profile r = auth_profile (ur_auth r)"

definition user_connections :: "string \<Rightarrow> world \<Rightarrow> conn_ref set" where
  "user_connections uid w = (case LookupConnectionsByID uid w of None \<Rightarrow> {} | Some ds \<Rightarrow> set ds)"

lemma processWebRTCMessage_effects:
  assumes "channel_table_ok w" and "bound_user c w = Some u" and "r = w_users w u"
  shows "effects (webrtc_allowed (w_next w) msg (ur_id r) c (user_profile r) (user_connections (ur_id r) w)) w
    (snd (processWebRTCMessage env c msg w))"
proof (cases "validateRestrictedWebRTCMessage msg (Some r)")
  case (Pair auth e)
  then have auth: "auth = ur_auth r"
    by (auto simp: validateRestrictedWebRTCMessage_def split: option.splits if_splits)
  show ?thesis
    using webrtc_group_effects [OF assms(1) refl] webrtc_call_request_effects [OF assms(1) refl]
      webrtc_call_response_effects [OF assms(1) user_connections_def] webrtc_hangup_signal_effects [OF assms(1)] assms Pair
    by (auto simp: processWebRTCMessage_def Let_def webrtc_call_def auth user_profile_def split: option.splits)
qed

section \<open>Consequences\<close>

lemma apply_effect_queue:
  assumes "webrtc_allowed n msg uid c prof own w e"
  shows "\<exists>q. cn_send (w_conns (apply_effect e w) d) = cn_send (w_conns w d) @ q \<and>
    (\<forall>p \<in> set q. stamped msg uid prof own d p)"
proof (cases e)
  case (ESend d' p)
  with assms show ?thesis by (auto simp: send_to_queue)
next
  case (ENew cid cfg)
  then show ?thesis
    using NewChannel_result(10) [of cid cfg w] by (cases "NewChannel cid cfg w") auto
qed (auto simp: channel_store_def channel_remove_def Let_def OnClosed_def split: option.splits)

text \<open>
  C1. Nobody can be impersonated towards others through the WebRTC handler: whatever a client sends, every
  WebRTC message the handler queues for anyone names the sender's authenticated id as its source and
  carries no profile but the one of the sender's token, with one exception. To connections of the
  sender's own user the handler also queues the notice that a call was answered (\<open>cleared_message\<close>), whose
  source is the target the client named.
\<close>

theorem webrtc_sender_not_forged:
  assumes "channel_table_ok w" and "bound_user c w = Some u" and "r = w_users w u"
    and "processWebRTCMessage env c msg w = (res, w')"
  shows "\<exists>q. cn_send (w_conns w' d) = cn_send (w_conns w d) @ q \<and>
    (\<forall>m. PWebRTC m \<in> set q \<longrightarrow>
       (wm_Source m = ur_id r \<and> wm_Profile m \<in> {None, Some (user_profile r)}) \<or>
       (d \<in> user_connections (ur_id r) w \<and> m = cleared_message msg))"
proof -
  let ?S = "stamped msg (ur_id r) (user_profile r) (user_connections (ur_id r) w)"
  have eff: "effects (webrtc_allowed (w_next w) msg (ur_id r) c (user_profile r) (user_connections (ur_id r) w)) w w'"
    using processWebRTCMessage_effects [OF assms(1-3), of msg env] assms(4) by simp
  have "\<exists>q. cn_send (w_conns w' d) = cn_send (w_conns w d) @ q \<and> (\<forall>p \<in> set q. ?S d p)"
    using eff
  proof (rule effects_invariant)
    fix v e
    assume "\<exists>q. cn_send (w_conns v d) = cn_send (w_conns w d) @ q \<and> (\<forall>p \<in> set q. ?S d p)"
      and "webrtc_allowed (w_next w) msg (ur_id r) c (user_profile r) (user_connections (ur_id r) w) v e"
    then obtain q q' where "cn_send (w_conns v d) = cn_send (w_conns w d) @ q" "\<forall>p \<in> set q. ?S d p"
        "cn_send (w_conns (apply_effect e v) d) = cn_send (w_conns v d) @ q'" "\<forall>p \<in> set q'. ?S d p"
      using apply_effect_queue by blast
    then show "\<exists>q. cn_send (w_conns (apply_effect e v) d) = cn_send (w_conns w d) @ q \<and> (\<forall>p \<in> set q. ?S d p)"
      by (intro exI [of _ "q @ q'"]) auto
  qed simp
  then show ?thesis
    by (fastforce simp: stamped_def)
qed

text \<open>Two users, Al on connection 1 and Bob on connection 2, and no channel.\<close>

definition example_auth :: AdminAuthToken where
  "example_auth = zero_auth_token\<lparr>at_CanCreateChannels := True\<rparr>"

definition example_users_world :: world where
  "example_users_world = example_world\<lparr>w_next := 10,
     w_conns := (\<lambda>c. (conn_New [] 0)\<lparr>cn_binder := Some (BoundUser c)\<rparr>),
     w_users := (\<lambda>u. \<lparr>ur_id = (if u = 1 then ''al'' else ''bob''), ur_auth = Some example_auth, ur_when = 0,
       ur_exit = zero_time, ur_connections = [u]\<rparr>),
     w_rtm := example_rtm\<lparr>rm_users := [(''al'', 1), (''bob'', 2)]\<rparr>\<rparr>"

definition example_call :: RTMTypeWebRTC where
  "example_call = zero_webrtc\<lparr>wm_Type := RTMTypeNameWebRTC, wm_Subtype := RTMSubtypeNameWebRTCCall,
     wm_Target := ''bob'', wm_Initiator := True, wm_State := ''s''\<rparr>"

lemma example_users_ok:
  "channel_table_ok example_users_world" "bound_user c example_users_world = Some c"
  by (simp_all add: channel_table_ok_def bound_user_def example_users_world_def example_rtm_def rtm_NewManager_def)

theorem webrtc_sender_not_forged_witness:
  "\<exists>q. cn_send (w_conns (snd (processWebRTCMessage example_env 1 example_call example_users_world)) 2) = q \<and>
     (\<forall>m. PWebRTC m \<in> set q \<longrightarrow> wm_Source m = ''al'' \<or> m = cleared_message example_call)"
proof -
  have "ur_id (w_users example_users_world 1) = ''al''" "cn_send (w_conns example_users_world 2) = []"
    by (simp_all add: example_users_world_def conn_New_def)
  then show ?thesis
    using webrtc_sender_not_forged [OF example_users_ok refl surjective_pairing, of example_env 1 example_call 2]
    by auto
qed

text \<open>Which channels an effect changes, and that it keeps every channel's id and configuration.\<close>

definition touched_ok :: "world \<Rightarrow> RTMTypeWebRTC \<Rightarrow> world \<Rightarrow> bool" where
  "touched_ok w msg v \<longleftrightarrow> w_next w \<le> w_next v \<and>
     (\<forall>h < w_next w. ch_config (w_chans v h) = ch_config (w_chans w h) \<and> ch_id (w_chans v h) = ch_id (w_chans w h) \<and>
        (w_chans v h = w_chans w h \<or> wm_Group msg = [] \<or> cc_Group (channel_config (w_chans w h)) = wm_Group msg))"

lemma channel_config_eq: "ch_config a = ch_config b \<Longrightarrow> channel_config a = channel_config b"
  by (simp add: channel_config_def)

lemma touched_ok_step:
  assumes "touched_ok w msg v" and "webrtc_allowed (w_next w) msg uid c prof own v e"
  shows "touched_ok w msg (apply_effect e v)"
proof -
  have upd: "touched_ok w msg v'"
    if "w_next v' = w_next v" and "w_chans v' = (w_chans v)(h := f (w_chans v h))"
      and "ch_config (f (w_chans v h)) = ch_config (w_chans v h)" and "ch_id (f (w_chans v h)) = ch_id (w_chans v h)"
      and "touchable (w_next w) msg v h" for v' h f
    using that assms(1) by (auto simp: touched_ok_def touchable_def dest: channel_config_eq)
  show ?thesis
  proof (cases e)
    case (ENew cid cfg)
    obtain h v' where new: "NewChannel cid cfg v = (h, v')" by (cases "NewChannel cid cfg v")
    note res = NewChannel_result [OF new]
    have "w_chans v' g = w_chans v g" if "g < w_next w" for g
      using res(1) res(9) [of g] that assms(1) by (auto simp: touched_ok_def)
    with ENew new res(2) assms(1) show ?thesis
      by (simp add: touched_ok_def)
  next
    case (EJoin h u d b)
    show ?thesis
      unfolding EJoin by (rule upd [of _ h "\<lambda>ch. ch\<lparr>ch_connections := gm_set u d (ch_connections ch)\<rparr>"])
        (use assms(2) EJoin in \<open>simp_all add: channel_store_chans\<close>)
  next
    case (EWedge h)
    show ?thesis
      unfolding EWedge by (rule upd [of _ h "\<lambda>ch. ch\<lparr>ch_locked := True\<rparr>"]) (use assms(2) EWedge in simp_all)
  next
    case (ELeave h u)
    have "w_next (snd (channel_remove h u None v)) = w_next v"
      by (simp add: channel_remove_def Let_def split: option.splits)
    then show ?thesis
      unfolding ELeave by (intro upd [of _ h "\<lambda>ch. ch\<lparr>ch_connections := gm_del u (ch_connections ch)\<rparr>"])
        (use assms(2) ELeave in \<open>simp_all add: channel_remove_chans\<close>)
  qed (use assms(1) in \<open>simp_all add: touched_ok_def\<close>)
qed

lemma processWebRTCMessage_touched:
  assumes "channel_table_ok w" and "bound_user c w = Some u" and "processWebRTCMessage env c msg w = (res, w')"
  shows "touched_ok w msg w'"
proof (rule effects_invariant)
  show "effects (webrtc_allowed (w_next w) msg (ur_id (w_users w u)) c (user_profile (w_users w u))
      (user_connections (ur_id (w_users w u)) w)) w w'"
    using processWebRTCMessage_effects [OF assms(1,2) refl, of msg env] assms(3) by simp
  show "touched_ok w msg w" by (simp add: touched_ok_def)
qed (rule touched_ok_step)

text \<open>
  C2. A restricted user is confined to the groups of the token: whatever message a user whose token has a
  group restriction sends, no channel that existed before changes (no join, no leave, no lock) unless
  it is the channel of a group the token allows, with one exception. A token that allows the empty group
  name, which guest claims without a path give, lets messages without a group pass, and these may
  change any channel they name.
\<close>

theorem restricted_user_confined:
  assumes "channel_table_ok w" and "bound_user c w = Some u"
    and "ur_auth (w_users w u) = Some auth" and "at_GroupRestriction auth = Some gr"
    and "processWebRTCMessage env c msg w = (res, w')"
    and "h < w_next w" and "w_chans w' h \<noteq> w_chans w h"
  shows "gm_get gr (cc_Group (channel_config (w_chans w h))) = Some True \<or>
    (wm_Group msg = [] \<and> gm_get gr [] = Some True)"
proof -
  have "gm_get gr (wm_Group msg) = Some True"
  proof (rule ccontr)
    assume "gm_get gr (wm_Group msg) \<noteq> Some True"
    then have "validateRestrictedWebRTCMessage msg (Some (w_users w u)) = (Some auth, Some ''access denied'')"
      using assms(3,4) by (simp add: validateRestrictedWebRTCMessage_def)
    then have "w' = w"
      using assms(2,5) by (auto simp: processWebRTCMessage_def Let_def split: if_splits)
    with assms(7) show False by simp
  qed
  moreover have "wm_Group msg = [] \<or> cc_Group (channel_config (w_chans w h)) = wm_Group msg"
    using processWebRTCMessage_touched [OF assms(1,2,5)] assms(6,7) by (auto simp: touched_ok_def)
  ultimately show ?thesis by auto
qed

definition example_group_join :: RTMTypeWebRTC where
  "example_group_join = zero_webrtc\<lparr>wm_Type := RTMTypeNameWebRTC, wm_Subtype := RTMSubtypeNameWebRTCGroup,
     wm_Target := ''g'', wm_Group := ''g'', wm_State := ''s''\<rparr>"

text \<open>Bob is in the channel of group g; Al's token allows the group g only and no new channels.\<close>

definition example_guest_world :: world where
  "example_guest_world = example_users_world\<lparr>
     w_users := (\<lambda>u. \<lparr>ur_id = (if u = 1 then ''al'' else ''bob''),
       ur_auth = Some (zero_auth_token\<lparr>at_GroupRestriction := Some [(''g'', True)]\<rparr>), ur_when = 0,
       ur_exit = zero_time, ur_connections = [u]\<rparr>),
     w_chans := (\<lambda>_. \<lparr>ch_closed = False, ch_id = ''@g'', ch_config = Some (group_channel_config ''g''),
       ch_connections = [(''bob'', 2)], ch_pipeline = None, ch_locked = False\<rparr>),
     w_rtm := example_rtm\<lparr>rm_channels := [(''@g'', \<lparr>cr_when = 0, cr_channel = 5\<rparr>)]\<rparr>\<rparr>"

lemma example_guest_ok:
  "channel_table_ok example_guest_world" "bound_user c example_guest_world = Some c"
  by (simp_all add: channel_table_ok_def bound_user_def example_users_world_def example_guest_world_def
      chan_named_def ChannelPrefixNamedGroup_def gm_wf_def)

lemma example_guest_joins:
  "ch_connections (w_chans (snd (processWebRTCMessage example_env 1 example_group_join example_guest_world)) 5) =
     [(''bob'', 2), (''al'', 1)]"
  by (simp add: processWebRTCMessage_def example_group_join_def zero_webrtc_def minimalWebRTCPayloadVersion_def Let_def
      bound_user_def example_guest_world_def example_users_world_def validateRestrictedWebRTCMessage_def webrtc_group_def
      upsert_group_channel_def CreateNamedGroupChannelID_def ChannelPrefixNamedGroup_def may_not_create_def
      zero_auth_token_def Channel_Size_def Channel_Add_def channel_store_chans webrtc_group_reply_def Channel_Connections_def)

theorem restricted_user_confined_witness:
  "gm_get [(''g'', True)] (cc_Group (channel_config (w_chans example_guest_world 5))) = Some True \<or>
   (wm_Group example_group_join = [] \<and> gm_get [(''g'', True)] [] = Some True)"
proof (rule restricted_user_confined [OF example_guest_ok, where auth = "zero_auth_token\<lparr>at_GroupRestriction := Some [(''g'', True)]\<rparr>"])
  show "processWebRTCMessage example_env 1 example_group_join example_guest_world =
      (fst (processWebRTCMessage example_env 1 example_group_join example_guest_world),
       snd (processWebRTCMessage example_env 1 example_group_join example_guest_world))"
    by simp
  show "w_chans (snd (processWebRTCMessage example_env 1 example_group_join example_guest_world)) 5 \<noteq>
      w_chans example_guest_world 5"
    using example_guest_joins by (auto simp: example_guest_world_def)
qed (simp_all add: example_guest_world_def example_users_world_def zero_auth_token_def)

text \<open>The channel table stays well-formed under every allowed effect.\<close>

lemma channel_table_ok_step:
  assumes "channel_table_ok w" and "webrtc_allowed n msg uid c prof own w e"
  shows "channel_table_ok (apply_effect e w)"
proof -
  have upd: "channel_table_ok w'"
    if "w_next w' = w_next w" and "w_rtm w' = w_rtm w" and "w_chans w' = (w_chans w)(h := f (w_chans w h))"
      and "ch_config (f (w_chans w h)) = ch_config (w_chans w h)" and "ch_id (f (w_chans w h)) = ch_id (w_chans w h)"
      and "ch_closed (f (w_chans w h)) = ch_closed (w_chans w h)" for w' h f
    using that assms(1) by (auto simp: channel_table_ok_def chan_named_def)
  show ?thesis
  proof (cases e)
    case (ENew cid cfg)
    obtain h w' where new: "NewChannel cid cfg w = (h, w')" by (cases "NewChannel cid cfg w")
    note res = NewChannel_result [OF new]
    have "w_chans w' g = w_chans w g" if "g < w_next w" for g
      using res(1) res(9) [of g] that by auto
    with ENew new res(2,3) assms(1) show ?thesis
      by (fastforce simp: channel_table_ok_def)
  next
    case (ERegister k rec)
    have "fst x = k \<Longrightarrow> x \<notin> set (rm_channels (w_rtm w))" for x
      using assms(2) ERegister by (auto simp: gm_get_None_iff image_iff)
    moreover have "set (gm_set k rec m) \<subseteq> insert (k, rec) (set m)" for m
      by (induction m) auto
    ultimately show ?thesis
      using assms ERegister by (fastforce simp: channel_table_ok_def)
  next
    case (EJoin h u d b)
    show ?thesis
      unfolding EJoin by (rule upd [of _ h "\<lambda>ch. ch\<lparr>ch_connections := gm_set u d (ch_connections ch)\<rparr>"])
        (simp_all add: channel_store_chans)
  next
    case (EWedge h)
    show ?thesis
      unfolding EWedge by (rule upd [of _ h "\<lambda>ch. ch\<lparr>ch_locked := True\<rparr>"]) simp_all
  next
    case (ELeave h u)
    have "w_next (snd (channel_remove h u None w)) = w_next w" "w_rtm (snd (channel_remove h u None w)) = w_rtm w"
      by (simp_all add: channel_remove_def Let_def split: option.splits)
    then show ?thesis
      unfolding ELeave by (intro upd [of _ h "\<lambda>ch. ch\<lparr>ch_connections := gm_del u (ch_connections ch)\<rparr>"])
        (simp_all add: channel_remove_chans)
  qed (use assms(1) in \<open>simp_all add: channel_table_ok_def\<close>)
qed

section \<open>Panics\<close>

lemma Channel_Add_no_panic: "Channel_Add h uid c w = (HPanic, w') \<Longrightarrow> False"
  by (auto simp: Channel_Add_def Let_def split: option.splits if_splits)

lemma answer_no_panic: "fst (webrtc_call_answer msg uid prof h w) \<noteq> HPanic"
  by (auto simp: webrtc_call_answer_def Let_def no_session_def split: option.splits)

lemma group_no_panic: "fst (webrtc_group env c msg ur auth w) \<noteq> HPanic"
  by (auto simp: webrtc_group_def bad_message_def webrtc_group_reply_def Let_def
      split: option.splits prod.splits handler_result.splits dest: Channel_Add_no_panic)

lemma request_no_panic: "fst (webrtc_call_request env c msg r auth w) \<noteq> HPanic"
  by (auto simp: webrtc_call_request_def bad_message_def no_session_def Let_def
      split: option.splits prod.splits handler_result.splits dest: Channel_Add_no_panic)

lemma forward_no_panic: "fst (webrtc_forward h uid msg conn ok w) \<noteq> HPanic"
  by (auto simp: webrtc_forward_def Forward_def no_session_def result_of_send_def Let_def
      split: option.splits prod.splits)

lemma hangup_signal_no_panic: "fst (webrtc_hangup_signal env c msg ur w) \<noteq> HPanic"
  using forward_no_panic
  by (auto simp: webrtc_hangup_signal_def bad_message_def webrtc_hangup_absent_def no_session_def Let_def
      split: option.splits prod.splits handler_result.splits)

lemma decode_accept_null: "decode_accept j = Some None \<longleftrightarrow> j = JNull"
  by (cases j) (auto simp: decode_accept_def decode_ptr_def)

lemma response_panic:
  assumes "fst (webrtc_call_response env c msg r auth w) = HPanic"
  shows "wm_Data msg = Some JNull"
proof (rule ccontr)
  assume "wm_Data msg \<noteq> Some JNull"
  with assms show False
    using answer_no_panic
    by (auto simp: webrtc_call_response_def bad_message_def Let_def decode_accept_null
        split: option.splits prod.splits handler_result.splits if_splits dest: Channel_Add_no_panic)
qed

lemma processWebRTCMessage_panic:
  assumes "processWebRTCMessage env c msg w = (HPanic, w')"
  shows "wm_Subtype msg = RTMSubtypeNameWebRTCCall \<and> \<not> wm_Initiator msg \<and> wm_Data msg = Some JNull"
  using assms group_no_panic [of env c msg] request_no_panic [of env c msg] response_panic [of env c msg]
    hangup_signal_no_panic [of env c msg]
  by (auto simp: processWebRTCMessage_def Let_def bad_message_def webrtc_call_def
      split: if_splits prod.splits option.splits) (metis fst_conv)+

text \<open>The one case in which the handler panics: a call response whose \<open>data\<close> member is \<open>null\<close>.\<close>

definition example_null_response :: RTMTypeWebRTC where
  "example_null_response = zero_webrtc\<lparr>wm_Type := RTMTypeNameWebRTC, wm_Subtype := RTMSubtypeNameWebRTCCall,
     wm_Target := ''al'', wm_State := ''s'', wm_Channel := ''*c'', wm_Data := Some JNull,
     wm_Hash := b64_encode (computeWebRTCChannelHash example_mac RTMTypeNameWebRTC ''al'' ''bob'' ''*c'')\<rparr>"

definition example_two_party_world :: world where
  "example_two_party_world = example_users_world\<lparr>w_chans := (\<lambda>_. example_channel),
     w_rtm := example_rtm\<lparr>rm_users := [(''al'', 1), (''bob'', 2)],
       rm_channels := [(''*c'', \<lparr>cr_when = 0, cr_channel = 5\<rparr>)]\<rparr>\<rparr>"

lemma example_null_response_panics:
  "processWebRTCMessage example_env 2 example_null_response example_two_party_world = (HPanic, example_two_party_world)"
proof -
  have check: "checkWebRTCMessage example_mac example_channel ''bob'' example_null_response = None"
    by (simp add: checkWebRTCMessage_def Let_def b64_round_trip b64_encode_nonempty checkWebRTCChannelHash_def
        example_null_response_def zero_webrtc_def computeWebRTCChannelHash_def example_mac_def example_channel_def)
  have hash: "wm_Hash example_null_response \<noteq> []"
    by (simp add: example_null_response_def computeWebRTCChannelHash_def example_mac_def b64_encode_nonempty)
  have fields: "wm_Version example_null_response = 0" "wm_Profile example_null_response = None"
      "wm_Subtype example_null_response = RTMSubtypeNameWebRTCCall" "wm_Target example_null_response = ''al''"
      "wm_State example_null_response = ''s''" "wm_Source example_null_response = []"
      "\<not> wm_Initiator example_null_response" "wm_Channel example_null_response = ''*c''"
      "wm_Data example_null_response = Some JNull"
    by (simp_all add: example_null_response_def zero_webrtc_def)
  have world: "bound_user 2 example_two_party_world = Some 2" "ur_id (w_users example_two_party_world 2) = ''bob''"
      "ur_auth (w_users example_two_party_world 2) = Some example_auth" "w_chans example_two_party_world 5 = example_channel"
      "gm_get (rm_channels (w_rtm example_two_party_world)) ''*c'' = Some \<lparr>cr_when = 0, cr_channel = 5\<rparr>"
    by (simp_all add: bound_user_def example_two_party_world_def example_users_world_def)
  show ?thesis
    using check hash
    by (simp add: processWebRTCMessage_def fields world validateRestrictedWebRTCMessage_def example_auth_def
        zero_auth_token_def minimalWebRTCPayloadVersion_def webrtc_call_def webrtc_call_response_def
        decode_accept_null [THEN iffD2] rtm_subtype_defs example_env_def)
qed

end
