(* ===== verification/Chats.thy ===== *)
theory Chats
  imports Effects
begin

text \<open>
  The chat handler (\<open>src/signaling/rtm/chats.go\<close>): messages of users to a channel, with their checks,
  and the system messages that tell a channel who joined and who left.
\<close>

definition minimalChatsPayloadVersion :: u64 where "minimalChatsPayloadVersion = 0"
definition currentChatsPayloadVersion :: u64 where "currentChatsPayloadVersion = 20201201"
definition maximalChatsTextMessageSize :: nat where "maximalChatsTextMessageSize = 2 ^ 14"
definition maximalChatsRichTextMessageSize :: nat where
  "maximalChatsRichTextMessageSize = maximalChatsTextMessageSize + 1638"

section \<open>Operations\<close>

definition validateRestrictedChatsMessage :: "RTMTypeChats \<Rightarrow> userRecord option \<Rightarrow> AdminAuthToken option \<times> string option" where
  "validateRestrictedChatsMessage msg ur = (None, None)"

text \<open>
  The checks on the decoded data: the error text, or the data with trimmed texts. The kind of a user
  text is the empty string.
\<close>

definition check_chats_message :: "RTMDataChatsMessage \<Rightarrow> string + RTMDataChatsMessage" where
  "check_chats_message extra =
     (if cd_Sender extra \<noteq> [] then Inl ''message sender must be empty''
      else if cd_Target extra \<noteq> [] then Inl ''message target must be empty''
      else if cd_Kind extra = RTMChatsMessageKindMessageUserText then
        if maximalChatsTextMessageSize < length (cd_Text extra) then Inl ''message text size limit exceeded''
        else if maximalChatsRichTextMessageSize < length (cd_RichText extra) then
          Inl ''message rich text size limit exceeded''
        else
          let extra1 = extra\<lparr>cd_Text := trim_space (cd_Text extra)\<rparr>
          in if cd_Text extra1 = [] then Inl ''message text is empty''
             else
               let extra2 = extra1\<lparr>cd_RichText := trim_space (cd_RichText extra1)\<rparr>
               in if cd_Extra extra2 \<noteq> None then Inl ''message contains unexpected extra data''
                  else Inr extra2
      else Inl ''unknown message kind'')"

definition chats_payload :: "string \<Rightarrow> string \<Rightarrow> RTMDataProfile option \<Rightarrow> RTMDataChatsMessage \<Rightarrow> RTMTypeChats" where
  "chats_payload subtype cid profile extra =
     \<lparr>cm_ID = 0, cm_Type = RTMTypeNameChats, cm_Subtype = subtype, cm_Channel = cid, cm_Profile = profile,
      cm_Group = [], cm_Version = currentChatsPayloadVersion, cm_Data = Some (json_of_chats_message extra)\<rparr>"

definition chats_reply :: "u64 \<Rightarrow> string \<Rightarrow> RTMDataChatsMessage \<Rightarrow> RTMTypeChatsReply" where
  "chats_reply ref cid extra =
     \<lparr>cy_Type = RTMTypeNameChats, cy_Subtype = RTMSubtypeNameChatsMessage, cy_ReplyTo = ref, cy_Channel = cid,
      cy_Group = [], cy_Version = currentChatsPayloadVersion, cy_Data = Some (json_of_chats_message extra)\<rparr>"

definition queued_report :: "string \<Rightarrow> RTMDataChatsMessage" where
  "queued_report messageID = zero_chats_message\<lparr>cd_ID := messageID, cd_Kind := RTMChatsMessageKindMessageQueued\<rparr>"

text \<open>
  The delivery, under the channel's chat mutex: the reply to the sender, which must not fail, then the
  message to every other connection of the channel, then the delivery report to the sender.
\<close>

definition chats_deliver ::
  "conn_ref \<Rightarrow> u64 \<Rightarrow> chan_ref \<Rightarrow> RTMDataProfile \<Rightarrow> RTMDataChatsMessage \<Rightarrow> world \<Rightarrow> handler_result \<times> world" where
  "chats_deliver c ref h profile extra w =
     (let cid = ch_id (w_chans w h)
      in case w_send c (PChatsReply (chats_reply ref cid extra)) w of
           (Some e, w1) \<Rightarrow> (HErr (GoErr e), w1)
         | (None, w1) \<Rightarrow>
             (case Channel_Connections h w1 of
                None \<Rightarrow> (HBlocked, w1)
              | Some (_, connections) \<Rightarrow>
                  (let w2 = send_all (PChats (chats_payload RTMSubtypeNameChatsMessage cid (Some profile) extra))
                         (filter (\<lambda>d. d \<noteq> c) connections) w1
                   in (HNil, send_to (PChats (chats_payload RTMSubtypeNameChatsSystem cid None
                         (queued_report (cd_ID extra)))) c w2))))"

definition chats_message :: "rtm_env \<Rightarrow> conn_ref \<Rightarrow> RTMTypeChats \<Rightarrow> userRecord option \<Rightarrow> world \<Rightarrow> handler_result \<times> world" where
  "chats_message env c msg ur w =
     (case ur of
        None \<Rightarrow> (bad_message ''connection has no user'' (cm_ID msg), w)
      | Some r \<Rightarrow>
          if cm_Channel msg = [] \<or> cm_Data msg = None then (bad_message ''channel or data is empty'' (cm_ID msg), w)
          else case gm_get (rm_channels (w_rtm w)) (cm_Channel msg) of
            None \<Rightarrow> (bad_message ''channel not found'' (cm_ID msg), w)
          | Some record \<Rightarrow>
              (case Channel_Get (cr_channel record) (ur_id r) w of
                 None \<Rightarrow> (HBlocked, w)
               | Some (cc, _) \<Rightarrow>
                   if cc \<noteq> Some c then (bad_message ''connection not in channel'' (cm_ID msg), w)
                   else case decode_chats_message (case cm_Data msg of Some j \<Rightarrow> j | None \<Rightarrow> JNull) of
                     None \<Rightarrow> (bad_message ''message data parse error'' (cm_ID msg), w)
                   | Some None \<Rightarrow> (HPanic, w)
                   | Some (Some extra) \<Rightarrow>
                       (case check_chats_message extra of
                          Inl e \<Rightarrow> (bad_message e (cm_ID msg), w)
                        | Inr extra1 \<Rightarrow>
                            chats_deliver c (cm_ID msg) (cr_channel record) (auth_profile (ur_auth r))
                              (extra1\<lparr>cd_TS := unix_of (en_now env), cd_ID := en_rnd env, cd_Sender := ur_id r\<rparr>) w)))"

definition processChatsMessage :: "rtm_env \<Rightarrow> conn_ref \<Rightarrow> RTMTypeChats \<Rightarrow> world \<Rightarrow> handler_result \<times> world" where
  "processChatsMessage env c msg w =
     (if cm_Version msg < minimalChatsPayloadVersion then
        (bad_message ''outdated Chats payload version'' (cm_ID msg), w)
      else
        let ur = map_option (w_users w) (bound_user c w)
        in case validateRestrictedChatsMessage msg ur of
             (_, Some e) \<Rightarrow> (HErr (RTMErr (NewRTMTypeError RTMErrorIDAccessRestricted e (cm_ID msg))), w)
           | (_, None) \<Rightarrow>
               if cm_Subtype msg = RTMSubtypeNameChatsMessage then chats_message env c msg ur w
               else (bad_message ''unknown subtype'' (cm_ID msg), w))"

definition onChats :: "rtm_env \<Rightarrow> conn_ref \<Rightarrow> RTMTypeChats \<Rightarrow> world \<Rightarrow> handler_result \<times> world" where
  "onChats env c msg w = (case processChatsMessage env c msg w of (r, w') \<Rightarrow> (hide_no_session r, w'))"

text \<open>
  The system message for a join or a leave; \<open>ur.auth\<close> of a connection without a user dereferences nil.
\<close>

definition system_message :: "rtm_env \<Rightarrow> userRecord \<Rightarrow> ChannelOp \<Rightarrow> string \<Rightarrow> RTMDataChatsMessage" where
  "system_message env r op uid =
     (let displayName = (case ur_auth r of Some a \<Rightarrow> token_Name a | None \<Rightarrow> ''Unknown user'');
          extra = zero_chats_message\<lparr>cd_ID := en_rnd env, cd_Kind := RTMChatsMessageKindSystemText,
                    cd_TS := unix_of (en_now env), cd_Sender := uid\<rparr>
      in case op of
           ChannelOpAdd \<Rightarrow> extra\<lparr>cd_Text := displayName @ '' has joined the meeting.'',
             cd_Extra := Some [(''id'', JStr ''joined'')]\<rparr>
         | ChannelOpRemove \<Rightarrow> extra\<lparr>cd_Text := displayName @ '' has left the meeting.'',
             cd_Extra := Some [(''id'', JStr ''left'')]\<rparr>
         | ChannelOpReset \<Rightarrow> extra)"

definition emitChannelChatsAddOrRemove ::
  "rtm_env \<Rightarrow> conn_ref \<Rightarrow> chan_ref \<Rightarrow> ChannelOp \<Rightarrow> string \<Rightarrow> world \<Rightarrow> handler_result \<times> world" where
  "emitChannelChatsAddOrRemove env c h op uid w =
     (case bound_user c w of
        None \<Rightarrow> (HPanic, w)
      | Some u \<Rightarrow>
          (let r = w_users w u;
               payload = PChats (chats_payload RTMSubtypeNameChatsSystem (ch_id (w_chans w h))
                 (Some (auth_profile (ur_auth r))) (system_message env r op uid))
           in case Channel_Connections h w of
                None \<Rightarrow> (HBlocked, w)
              | Some (_, connections) \<Rightarrow> (HNil, send_all payload (filter (\<lambda>d. d \<noteq> c) connections) w)))"

section \<open>Properties\<close>

lemma check_chats_message_Inr:
  "check_chats_message extra = Inr extra' \<longleftrightarrow>
     cd_Sender extra = [] \<and> cd_Target extra = [] \<and> cd_Kind extra = [] \<and> cd_Extra extra = None \<and>
     length (cd_Text extra) \<le> maximalChatsTextMessageSize \<and>
     length (cd_RichText extra) \<le> maximalChatsRichTextMessageSize \<and> trim_space (cd_Text extra) \<noteq> [] \<and>
     extra' = extra\<lparr>cd_Text := trim_space (cd_Text extra), cd_RichText := trim_space (cd_RichText extra)\<rparr>"
  by (auto simp: check_chats_message_def Let_def RTMChatsMessageKindMessageUserText_def split: if_splits)

text \<open>The state after a chat message was delivered.\<close>

lemma chats_deliver_state:
  assumes "\<not> ch_locked (w_chans w h)" and "\<not> cn_closed (w_conns w c)" and "length (cn_send (w_conns w c)) < sendCap"
  shows "chats_deliver c ref h profile extra w =
    (HNil, send_to (PChats (chats_payload RTMSubtypeNameChatsSystem (ch_id (w_chans w h)) None (queued_report (cd_ID extra)))) c
      (send_all (PChats (chats_payload RTMSubtypeNameChatsMessage (ch_id (w_chans w h)) (Some profile) extra))
        (filter (\<lambda>d. d \<noteq> c) (map snd (ch_connections (w_chans w h))))
        (send_to (PChatsReply (chats_reply ref (ch_id (w_chans w h)) extra)) c w)))"
  using assms by (simp add: chats_deliver_def w_send_def RawSend_def send_to_def Channel_Connections_def Let_def)

lemma chats_message_delivers:
  assumes "bound_user c w = Some u" and "r = w_users w u" and "cm_Subtype msg = RTMSubtypeNameChatsMessage"
    and "gm_get (rm_channels (w_rtm w)) (cm_Channel msg) = Some record" and "h = cr_channel record"
    and "cm_Channel msg \<noteq> []" and "\<not> ch_locked (w_chans w h)"
    and "gm_get (ch_connections (w_chans w h)) (ur_id r) = Some c"
    and "cm_Data msg = Some j" and "decode_chats_message j = Some (Some extra)"
    and "check_chats_message extra = Inr extra1"
  shows "processChatsMessage env c msg w = chats_deliver c (cm_ID msg) h (user_profile r)
    (extra1\<lparr>cd_TS := unix_of (en_now env), cd_ID := en_rnd env, cd_Sender := ur_id r\<rparr>) w"
  using assms
  by (simp add: processChatsMessage_def minimalChatsPayloadVersion_def validateRestrictedChatsMessage_def Let_def
      chats_message_def Channel_Get_def user_profile_def)

text \<open>
  C3. A valid chat message from a member of a channel is delivered exactly once to every other member with
  room in its queue, with the sender's authenticated id, a fresh id and the trimmed text; the sender
  gets the reply first and the delivery report after it, and not the message itself.
\<close>

theorem chat_delivered_once_to_others:
  assumes "bound_user c w = Some u" and "r = w_users w u" and "cm_Subtype msg = RTMSubtypeNameChatsMessage"
    and "gm_get (rm_channels (w_rtm w)) (cm_Channel msg) = Some record" and "h = cr_channel record"
    and "cm_Channel msg \<noteq> []" and "\<not> ch_locked (w_chans w h)" and "distinct (map snd (ch_connections (w_chans w h)))"
    and "gm_get (ch_connections (w_chans w h)) (ur_id r) = Some c"
    and "cm_Data msg = Some j" and "decode_chats_message j = Some (Some extra)"
    and "check_chats_message extra = Inr extra1"
    and "\<not> cn_closed (w_conns w c)" and "length (cn_send (w_conns w c)) + 1 < sendCap"
    and "extra2 = extra1\<lparr>cd_TS := unix_of (en_now env), cd_ID := en_rnd env, cd_Sender := ur_id r\<rparr>"
    and "cid = ch_id (w_chans w h)"
  shows "\<exists>w'. processChatsMessage env c msg w = (HNil, w') \<and>
    cn_send (w_conns w' c) = cn_send (w_conns w c) @ [PChatsReply (chats_reply (cm_ID msg) cid extra2),
      PChats (chats_payload RTMSubtypeNameChatsSystem cid None (queued_report (en_rnd env)))] \<and>
    (\<forall>d. d \<noteq> c \<longrightarrow> cn_send (w_conns w' d) =
       (if d \<in> snd ` set (ch_connections (w_chans w h)) \<and> \<not> cn_closed (w_conns w d) \<and>
           length (cn_send (w_conns w d)) < sendCap
        then cn_send (w_conns w d) @
          [PChats (chats_payload RTMSubtypeNameChatsMessage cid (Some (user_profile r)) extra2)]
        else cn_send (w_conns w d)))"
proof -
  define ds where "ds = filter (\<lambda>d. d \<noteq> c) (map snd (ch_connections (w_chans w h)))"
  define w1 where "w1 = send_to (PChatsReply (chats_reply (cm_ID msg) cid extra2)) c w"
  define w2 where "w2 = send_all (PChats (chats_payload RTMSubtypeNameChatsMessage cid (Some (user_profile r)) extra2)) ds w1"
  define w3 where "w3 = send_to (PChats (chats_payload RTMSubtypeNameChatsSystem cid None (queued_report (en_rnd env)))) c w2"
  have run: "processChatsMessage env c msg w = (HNil, w3)"
    using chats_message_delivers [OF assms(1-7,9-12), of env]
      chats_deliver_state [OF assms(7,13), of "cm_ID msg" "user_profile r" extra2] assms(14-16)
    by (simp add: w3_def w2_def w1_def ds_def)
  have ds: "distinct ds" "c \<notin> set ds" "set ds = snd ` set (ch_connections (w_chans w h)) - {c}"
    using assms(8) by (auto simp: ds_def)
  have q1: "cn_send (w_conns w1 c) = cn_send (w_conns w c) @ [PChatsReply (chats_reply (cm_ID msg) cid extra2)]"
    using assms(13,14) by (simp add: w1_def send_to_queue)
  have q2: "cn_send (w_conns w2 c) = cn_send (w_conns w1 c)"
    using ds(2) by (simp add: w2_def send_all_queue_other)
  have "cn_send (w_conns w3 c) = cn_send (w_conns w2 c) @
      [PChats (chats_payload RTMSubtypeNameChatsSystem cid None (queued_report (en_rnd env)))]"
    using assms(13,14) q1 q2 by (simp add: w3_def send_to_queue) (simp add: w2_def w1_def)
  moreover have "cn_send (w_conns w3 d) =
      (if d \<in> snd ` set (ch_connections (w_chans w h)) \<and> \<not> cn_closed (w_conns w d) \<and> length (cn_send (w_conns w d)) < sendCap
       then cn_send (w_conns w d) @ [PChats (chats_payload RTMSubtypeNameChatsMessage cid (Some (user_profile r)) extra2)]
       else cn_send (w_conns w d))" if "d \<noteq> c" for d
    using that ds
    by (cases "d \<in> set ds")
      (simp_all add: w3_def w2_def w1_def send_to_queue send_all_queue send_all_queue_other)
  ultimately show ?thesis
    using run q1 q2 by auto
qed

definition example_chat_world :: world where
  "example_chat_world = example_two_party_world\<lparr>
     w_chans := (\<lambda>_. example_channel\<lparr>ch_connections := [(''bob'', 2), (''al'', 1)]\<rparr>)\<rparr>"

definition example_chat :: RTMTypeChats where
  "example_chat = zero_chats\<lparr>cm_Subtype := RTMSubtypeNameChatsMessage, cm_Channel := ''*c'',
     cm_Data := Some (JObj [(''text'', JStr '' hi '')])\<rparr>"

theorem chat_delivered_once_to_others_witness:
  "\<exists>w'. processChatsMessage example_env 2 example_chat example_chat_world = (HNil, w') \<and>
     length (cn_send (w_conns w' 2)) = 2 \<and> length (cn_send (w_conns w' 1)) = 1"
proof -
  have data: "decode_chats_message (JObj [(''text'', JStr '' hi '')]) = Some (Some (zero_chats_message\<lparr>cd_Text := '' hi ''\<rparr>))"
    by (simp add: decode_chats_message_def decode_struct_def chats_message_fields_def set_chats_message_field_def set_str_def)
  have trim: "trim_space '' hi '' = ''hi''" "trim_space [] = []" by code_simp+
  have check: "check_chats_message (zero_chats_message\<lparr>cd_Text := '' hi ''\<rparr>) =
      Inr (zero_chats_message\<lparr>cd_Text := ''hi'', cd_RichText := []\<rparr>)"
    by (simp add: check_chats_message_Inr zero_chats_message_def maximalChatsTextMessageSize_def
        maximalChatsRichTextMessageSize_def trim)
  have user: "bound_user 2 example_chat_world = Some 2" "ur_id (w_users example_chat_world 2) = ''bob''"
      "cn_send (w_conns example_chat_world d) = []" "\<not> cn_closed (w_conns example_chat_world d)" for d
    by (simp_all add: bound_user_def example_chat_world_def example_two_party_world_def example_users_world_def conn_New_def)
  have chan: "gm_get (rm_channels (w_rtm example_chat_world)) ''*c'' = Some \<lparr>cr_when = 0, cr_channel = 5\<rparr>"
      "w_chans example_chat_world 5 = example_channel\<lparr>ch_connections := [(''bob'', 2), (''al'', 1)]\<rparr>"
    by (simp_all add: example_chat_world_def example_two_party_world_def)
  have msg: "cm_Subtype example_chat = RTMSubtypeNameChatsMessage" "cm_Channel example_chat = ''*c''"
      "cm_Data example_chat = Some (JObj [(''text'', JStr '' hi '')])"
    by (simp_all add: example_chat_def)
  show ?thesis
    using chat_delivered_once_to_others [OF user(1) refl msg(1) chan(1) [folded msg(2)] refl _ _ _ _ msg(3) data check _ _ refl refl, of example_env]
    by (auto simp: user chan msg example_channel_def sendCap_def)
qed

lemma send_all_new: "p \<in> set (cn_send (w_conns (send_all q ds w) d)) \<Longrightarrow>
    p \<in> set (cn_send (w_conns w d)) \<or> p = q \<and> d \<in> set ds"
  unfolding send_all_def by (induction ds arbitrary: w) (fastforce simp: send_to_queue split: if_splits)+

text \<open>What the delivery puts into the queues of the others.\<close>

lemma chats_deliver_new:
  assumes "chats_deliver c ref h profile extra w = (res, w')" and "d \<noteq> c"
    and "p \<in> set (cn_send (w_conns w' d))" and "p \<notin> set (cn_send (w_conns w d))"
  shows "p = PChats (chats_payload RTMSubtypeNameChatsMessage (ch_id (w_chans w h)) (Some profile) extra) \<and>
    d \<in> snd ` set (ch_connections (w_chans w h))"
proof (cases "w_send c (PChatsReply (chats_reply ref (ch_id (w_chans w h)) extra)) w")
  case (Pair e w1)
  have q: "cn_send (w_conns w1 d) = cn_send (w_conns w d)" and ch: "w_chans w1 = w_chans w"
    using Pair assms(2) by (auto simp: w_send_def split: sum.splits)
  show ?thesis
    using assms Pair q ch
    by (auto simp: chats_deliver_def Let_def Channel_Connections_def send_to_queue
        dest!: send_all_new split: option.splits if_splits)
qed

lemma processChatsMessage_new:
  assumes "processChatsMessage env c msg w = (res, w')" and "d \<noteq> c"
    and "p \<in> set (cn_send (w_conns w' d))" and "p \<notin> set (cn_send (w_conns w d))"
  obtains u rec extra extra1 where "bound_user c w = Some u"
    "gm_get (rm_channels (w_rtm w)) (cm_Channel msg) = Some rec"
    "gm_get (ch_connections (w_chans w (cr_channel rec))) (ur_id (w_users w u)) = Some c"
    "check_chats_message extra = Inr extra1"
    "chats_deliver c (cm_ID msg) (cr_channel rec) (auth_profile (ur_auth (w_users w u)))
       (extra1\<lparr>cd_TS := unix_of (en_now env), cd_ID := en_rnd env, cd_Sender := ur_id (w_users w u)\<rparr>) w = (res, w')"
  using assms
  by (auto simp: processChatsMessage_def validateRestrictedChatsMessage_def chats_message_def Let_def Channel_Get_def
      split: if_splits option.splits sum.splits)

text \<open>
  C33. Whatever chat message a client sends, what the handler puts into the queue of another connection is
  a chat message for a member of the named channel, of which the sender is a member too; its kind is
  user text, its text is not empty and at most 16384 bytes long, its rich text at most 18022 bytes
  long, neither begins or ends with a white space character, and its meta data are the server's: the
  id is the fresh one, the time stamp the server's clock, the sender and the profile those of the
  connection's user, with no target and no extra data.
\<close>

theorem accepted_chat_within_limits:
  assumes "processChatsMessage env c msg w = (res, w')" and "d \<noteq> c"
    and "p \<in> set (cn_send (w_conns w' d))" and "p \<notin> set (cn_send (w_conns w d))"
  shows "\<exists>u rec h e. bound_user c w = Some u \<and>
    gm_get (rm_channels (w_rtm w)) (cm_Channel msg) = Some rec \<and> h = cr_channel rec \<and>
    gm_get (ch_connections (w_chans w h)) (ur_id (w_users w u)) = Some c \<and> d \<in> snd ` set (ch_connections (w_chans w h)) \<and>
    p = PChats (chats_payload RTMSubtypeNameChatsMessage (ch_id (w_chans w h)) (Some (auth_profile (ur_auth (w_users w u)))) e) \<and>
    cd_Kind e = RTMChatsMessageKindMessageUserText \<and>
    0 < length (cd_Text e) \<and> length (cd_Text e) \<le> 16384 \<and> length (cd_RichText e) \<le> 18022 \<and>
    (\<forall>r \<in> set space_runes. \<not> has_prefix (cd_Text e) r \<and> \<not> has_prefix (rev (cd_Text e)) (rev r) \<and>
       \<not> has_prefix (cd_RichText e) r \<and> \<not> has_prefix (rev (cd_RichText e)) (rev r)) \<and>
    cd_ID e = en_rnd env \<and> cd_TS e = unix_of (en_now env) \<and> cd_Sender e = ur_id (w_users w u) \<and>
    cd_Target e = [] \<and> cd_Extra e = None"
proof -
  obtain u rec extra extra1 where run: "bound_user c w = Some u"
    "gm_get (rm_channels (w_rtm w)) (cm_Channel msg) = Some rec"
    "gm_get (ch_connections (w_chans w (cr_channel rec))) (ur_id (w_users w u)) = Some c"
    and check: "check_chats_message extra = Inr extra1"
    and del: "chats_deliver c (cm_ID msg) (cr_channel rec) (auth_profile (ur_auth (w_users w u)))
       (extra1\<lparr>cd_TS := unix_of (en_now env), cd_ID := en_rnd env, cd_Sender := ur_id (w_users w u)\<rparr>) w = (res, w')"
    using assms by (rule processChatsMessage_new)
  let ?e = "extra1\<lparr>cd_TS := unix_of (en_now env), cd_ID := en_rnd env, cd_Sender := ur_id (w_users w u)\<rparr>"
  have "cd_Kind ?e = RTMChatsMessageKindMessageUserText" "0 < length (cd_Text ?e)" "length (cd_Text ?e) \<le> 16384"
      "length (cd_RichText ?e) \<le> 18022" "cd_Target ?e = []" "cd_Extra ?e = None"
      "cd_Text ?e = trim_space (cd_Text extra)" "cd_RichText ?e = trim_space (cd_RichText extra)"
    using check length_trim_space [of "cd_Text extra"] length_trim_space [of "cd_RichText extra"]
    by (auto simp: check_chats_message_Inr RTMChatsMessageKindMessageUserText_def maximalChatsTextMessageSize_def
        maximalChatsRichTextMessageSize_def)
  then show ?thesis
    using run chats_deliver_new [OF del assms(2-4)] trim_space_ends
    by (intro exI [of _ u] exI [of _ rec] exI [of _ "cr_channel rec"] exI [of _ ?e] conjI ballI) simp_all
qed

text \<open>The example's message reaches the other member.\<close>

lemma example_chat_queued:
  "\<exists>w' p. processChatsMessage example_env 2 example_chat example_chat_world = (HNil, w') \<and>
     cn_send (w_conns w' 1) = [p] \<and> cn_send (w_conns example_chat_world 1) = []"
proof -
  have "map_option (\<lambda>w'. length (cn_send (w_conns w' 1)))
      (case processChatsMessage example_env 2 example_chat example_chat_world of (HNil, w') \<Rightarrow> Some w' | _ \<Rightarrow> None) = Some 1"
    and "cn_send (w_conns example_chat_world 1) = []"
    by code_simp+
  then show ?thesis
    by (auto split: prod.splits handler_result.splits simp: length_Suc_conv)
qed

theorem accepted_chat_within_limits_witness:
  "\<exists>w' e. processChatsMessage example_env 2 example_chat example_chat_world = (HNil, w') \<and>
     0 < length (cd_Text e) \<and> length (cd_Text e) \<le> 16384 \<and>
     (\<exists>h profile. PChats (chats_payload RTMSubtypeNameChatsMessage (ch_id (w_chans example_chat_world h)) profile e) \<in>
        set (cn_send (w_conns w' 1)))"
proof -
  obtain w' p where run: "processChatsMessage example_env 2 example_chat example_chat_world = (HNil, w')"
    and q: "cn_send (w_conns w' 1) = [p]" "cn_send (w_conns example_chat_world 1) = []"
    using example_chat_queued by blast
  have "p \<in> set (cn_send (w_conns w' 1))" "p \<notin> set (cn_send (w_conns example_chat_world 1))" "(1::nat) \<noteq> 2"
    using q by simp_all
  from accepted_chat_within_limits [OF run this(3,1,2)] run q show ?thesis by fastforce
qed

end
