(* ===== verification/Events.thy ===== *)
theory Events
  imports Chats
begin

text \<open>
  The events of a connection (\<open>src/signaling/rtm/events.go\<close>): connect, disconnect, text, error and the
  change of the server status; and how the read pump of \<open>src/signaling/connection/connection.go\<close>
  dispatches a text message and reacts to its result.
\<close>

section \<open>Connect and disconnect\<close>

definition hello_message :: "string \<Rightarrow> Self option \<Rightarrow> ServerStatus option \<Rightarrow> RTMTypeHello" where
  "hello_message ty self status = \<lparr>he_Type = ty, he_Self = self, he_ServerStatus = status\<rparr>"

text \<open>
  The \<open>Upsert\<close> of \<open>OnConnect\<close>: the first connection of a user stores the record the connection brought, a
  later one is added to the stored record and bound to it. The call locks the new record and, inside,
  the stored one, so it would wait forever if they were the same.
\<close>

definition connect_user :: "time \<Rightarrow> conn_ref \<Rightarrow> user_ref \<Rightarrow> world \<Rightarrow> (user_ref \<times> bool \<times> world) option" where
  "connect_user now c nur w =
     (case gm_get (rm_users (w_rtm w)) (ur_id (w_users w nur)) of
        None \<Rightarrow>
          Some (nur, True,
            upd_rtm (\<lambda>m. m\<lparr>rm_users := gm_set (ur_id (w_users w nur)) nur (rm_users m)\<rparr>)
              (upd_user nur (\<lambda>r. r\<lparr>ur_connections := ur_connections r @ [c], ur_when := now\<rparr>) w))
      | Some ur \<Rightarrow>
          if ur = nur then None
          else Some (ur, False,
            upd_conn c (Bind (Some (BoundUser ur)))
              (upd_user ur (\<lambda>r. r\<lparr>ur_connections := ur_connections r @ [c]\<rparr>) w)))"

definition send_hello :: "conn_ref \<Rightarrow> string \<Rightarrow> Self option \<Rightarrow> world \<Rightarrow> handler_result \<times> world" where
  "send_hello c ty self w = result_of_send (w_send c (PHello (hello_message ty self (getServerStatus w))) w)"

definition rtm_OnConnect :: "rtm_env \<Rightarrow> conn_ref \<Rightarrow> world \<Rightarrow> handler_result \<times> world" where
  "rtm_OnConnect env c w =
     (case cn_binder (w_conns w c) of
        None \<Rightarrow> send_hello c RTMTypeNameHello None w
      | Some (BoundAttached _) \<Rightarrow> (HPanic, w)
      | Some (BoundUser nur) \<Rightarrow>
          (case connect_user (en_now env) c nur w of
             None \<Rightarrow> (HBlocked, w)
           | Some (ur, first, w1) \<Rightarrow>
               (case ur_auth (w_users w1 ur) of
                  None \<Rightarrow> (HPanic, w1)
                | Some auth \<Rightarrow>
                    send_hello c RTMTypeNameHello
                      (Some \<lparr>self_ID = ur_id (w_users w1 ur), self_Name = token_Name auth, self_Auth = at_Auth auth\<rparr>)
                      (if first then inc_metric (mt_userNew_update Suc) w1 else w1))))"

text \<open>
  \<open>OnDisconnect\<close> copies the other connections of the user into a slice that is one shorter; this is an
  index out of range when the connection is not in the list. A connection is in the list at most
  once, so the copy is the list without it.
\<close>

definition rtm_OnDisconnect :: "rtm_env \<Rightarrow> conn_ref \<Rightarrow> world \<Rightarrow> handler_result \<times> world" where
  "rtm_OnDisconnect env c w =
     (case cn_binder (w_conns w c) of
        None \<Rightarrow> (HNil, w)
      | Some (BoundAttached _) \<Rightarrow> (HPanic, w)
      | Some (BoundUser b) \<Rightarrow>
          (let uid = ur_id (w_users w b)
           in case gm_get (rm_users (w_rtm w)) uid of
                None \<Rightarrow>
                  (HNil, upd_rtm (\<lambda>m. m\<lparr>rm_users := gm_set uid (w_next w) (rm_users m)\<rparr>)
                    (upd_user (w_next w) (\<lambda>_. \<lparr>ur_id = cn_id (w_conns w c), ur_auth = None, ur_when = zero_time,
                       ur_exit = zero_time, ur_connections = []\<rparr>) (w\<lparr>w_next := Suc (w_next w)\<rparr>)))
              | Some ur \<Rightarrow>
                  if c \<notin> set (ur_connections (w_users w ur)) then (HPanic, w)
                  else
                    let connections = filter (\<lambda>d. d \<noteq> c) (ur_connections (w_users w ur))
                    in (HNil, upd_user ur (\<lambda>r. r\<lparr>ur_exit := (if connections = [] then en_now env else ur_exit r),
                          ur_connections := connections\<rparr>) w)))"

definition rtm_OnBeforeDisconnect :: "conn_ref \<Rightarrow> string option \<Rightarrow> world \<Rightarrow> handler_result \<times> world" where
  "rtm_OnBeforeDisconnect c err w =
     (case err of
        None \<Rightarrow> result_of_send (w_send c (PHello (hello_message RTMTypeNameGoodbye None None)) w)
      | Some _ \<Rightarrow> (HNil, w))"

section \<open>Text messages\<close>

text \<open>
  The ping case. \<open>RefreshAdminAuthToken\<close> succeeds for tokens of the program's own type; then a token that
  expires within fifteen minutes is signed anew and sent along.
\<close>

definition process_ping :: "rtm_env \<Rightarrow> conn_ref \<Rightarrow> (string, json) gomap \<Rightarrow> world \<Rightarrow> handler_result \<times> world" where
  "process_ping env c ping w =
     (case cn_binder (w_conns w c) of
        None \<Rightarrow> (HNil, w)
      | Some (BoundAttached _) \<Rightarrow> (HPanic, w)
      | Some (BoundUser u) \<Rightarrow>
          (case ur_auth (w_users w u) of
             None \<Rightarrow> (HNil, w)
           | Some auth \<Rightarrow>
               (let (refreshed, adm) = RefreshAdminAuthToken (en_now env) auth (w_admin w);
                    w1 = w\<lparr>w_admin := adm\<rparr>;
                    pong = (\<lambda>p. result_of_send (w_send c (PPong (gm_set ''type'' (JStr RTMTypeNamePong) p)) w1))
                in if refreshed \<and> time_unix (at_ExpiresAt auth) < en_now env + 15 * minute then
                     (case SignAdminAuthToken (en_jwt_sign env) (en_now env) auth adm of
                        Inl e \<Rightarrow> (HErr (GoErr (''failed to create new signed token on ping reply: '' @ e)), w1)
                      | Inr newToken \<Rightarrow> pong (gm_set ''auth'' (JStr newToken) ping))
                   else pong ping)))"

definition json_error :: go_error where "json_error = GoErr ''json''"

definition processTextMessage :: "rtm_env \<Rightarrow> conn_ref \<Rightarrow> RTMTypeTransaction \<Rightarrow> json \<Rightarrow> world \<Rightarrow> handler_result \<times> world" where
  "processTextMessage env c transaction msg w =
     (if tr_Type transaction = RTMTypeNamePing then
        (case decode_map msg of
           Some (Some ping) \<Rightarrow> process_ping env c ping w
         | Some None \<Rightarrow> (HPanic, w)
         | None \<Rightarrow> (HErr json_error, w))
      else if tr_Type transaction = RTMTypeNameWebRTC then
        (case decode_webrtc msg of Some webrtc \<Rightarrow> onWebRTC env c webrtc w | None \<Rightarrow> (HErr json_error, w))
      else if tr_Type transaction = RTMTypeNameChats then
        (case decode_chats msg of Some chats \<Rightarrow> onChats env c chats w | None \<Rightarrow> (HErr json_error, w))
      else (HErr (GoErr (''unknown incoming type '' @ tr_Type transaction)), w))"

text \<open>
  \<open>OnText\<close>: \<open>None\<close> is a text that is not JSON. The transaction table of a connection stays empty, since no
  caller of the program registers a callback; a found callback would be run in place of the dispatch.
\<close>

definition rtm_OnText :: "rtm_env \<Rightarrow> conn_ref \<Rightarrow> json option \<Rightarrow> world \<Rightarrow> handler_result \<times> world" where
  "rtm_OnText env c msg w =
     (case msg of
        None \<Rightarrow> (HErr json_error, w)
      | Some j \<Rightarrow>
          (case decode_transaction j of
             None \<Rightarrow> (HErr json_error, w)
           | Some transaction \<Rightarrow>
               (case Transaction (tr_Transaction transaction) (Some (\<lambda>_. None)) (w_conns w c) of
                  (Some _, conn) \<Rightarrow> (HNil, upd_conn c (\<lambda>_. conn) w)
                | (None, conn) \<Rightarrow> processTextMessage env c transaction j (upd_conn c (\<lambda>_. conn) w))))"

definition rtm_OnError :: "conn_ref \<Rightarrow> go_error \<Rightarrow> world \<Rightarrow> go_error option \<times> world" where
  "rtm_OnError c err w =
     (case err of
        RTMErr e \<Rightarrow> (None, send_to (PError e) c w)
      | GoErr s \<Rightarrow> (Some (GoErr s), w))"

text \<open>
  What the loop of \<open>readPump\<close> does with one text message: it goes on, it ends with an error (after
  which the connection is closed), the process ends, or the goroutine waits forever.
\<close>

datatype read_result = ReadOn | ReadEnd go_error | ReadPanic | ReadBlocked

definition readPump_text :: "rtm_env \<Rightarrow> conn_ref \<Rightarrow> json option \<Rightarrow> world \<Rightarrow> read_result \<times> world" where
  "readPump_text env c msg w =
     (case rtm_OnText env c msg w of
        (HNil, w1) \<Rightarrow> (ReadOn, w1)
      | (HErr e, w1) \<Rightarrow>
          (case rtm_OnError c e w1 of
             (None, w2) \<Rightarrow> (ReadOn, w2)
           | (Some e', w2) \<Rightarrow> (ReadEnd e', w2))
      | (HPanic, w1) \<Rightarrow> (ReadPanic, w1)
      | (HBlocked, w1) \<Rightarrow> (ReadBlocked, w1))"

section \<open>Server status\<close>

definition OnServerStatus :: "ServerStatus \<Rightarrow> world \<Rightarrow> world" where
  "OnServerStatus newServerStatus w =
     (if (case getServerStatus w of None \<Rightarrow> False | Some s \<Rightarrow> ServerStatus_Equal s newServerStatus) then w
      else
        let w1 = setServerStatus newServerStatus w
        in send_all (PHello (hello_message RTMTypeNameServer None (Some newServerStatus)))
             (map snd (rm_connections (w_rtm w1))) w1)"

section \<open>Properties\<close>

text \<open>
  A new server status reaches every registered connection with room in its queue exactly once, and is
  what later hello messages carry; the same status again changes nothing.
\<close>

theorem server_status_broadcast:
  assumes "distinct (map snd (rm_connections (w_rtm w)))"
    and "\<forall>s. getServerStatus w = Some s \<longrightarrow> \<not> ServerStatus_Equal s new"
    and "w' = OnServerStatus new w"
  shows "getServerStatus w' = Some new \<and> OnServerStatus new w' = w' \<and>
    cn_send (w_conns w' c) =
      (if c \<in> snd ` set (rm_connections (w_rtm w)) \<and> \<not> cn_closed (w_conns w c) \<and> length (cn_send (w_conns w c)) < sendCap
       then cn_send (w_conns w c) @ [PHello (hello_message RTMTypeNameServer None (Some new))]
       else cn_send (w_conns w c))"
proof -
  define w1 where "w1 = setServerStatus new w"
  define ds where "ds = map snd (rm_connections (w_rtm w))"
  have w': "w' = send_all (PHello (hello_message RTMTypeNameServer None (Some new))) ds w1"
    using assms(2,3) by (auto simp: OnServerStatus_def Let_def w1_def ds_def setServerStatus_def split: option.splits)
  have st: "getServerStatus w' = Some new"
    by (simp add: w' w1_def getServerStatus_def setServerStatus_def)
  then have "OnServerStatus new w' = w'"
    by (simp add: OnServerStatus_def ServerStatus_Equal_def)
  moreover have "cn_send (w_conns w' c) =
      (if c \<in> set ds \<and> \<not> cn_closed (w_conns w c) \<and> length (cn_send (w_conns w c)) < sendCap
       then cn_send (w_conns w c) @ [PHello (hello_message RTMTypeNameServer None (Some new))]
       else cn_send (w_conns w c))"
    using assms(1)
    by (cases "c \<in> set ds") (simp_all add: w' ds_def send_all_queue send_all_queue_other w1_def setServerStatus_def)
  ultimately show ?thesis
    using st by (simp add: ds_def)
qed

theorem server_status_broadcast_witness:
  "cn_send (w_conns (OnServerStatus \<lparr>ss_Kustomer = Some \<lparr>ptr_addr = 1, ptr_val = 7\<rparr>\<rparr>
     (upd_rtm (\<lambda>m. m\<lparr>rm_connections := [(''1'', 3)]\<rparr>) example_world)) 3) =
   [PHello (hello_message RTMTypeNameServer None (Some \<lparr>ss_Kustomer = Some \<lparr>ptr_addr = 1, ptr_val = 7\<rparr>\<rparr>))]"
  using server_status_broadcast [of "upd_rtm (\<lambda>m. m\<lparr>rm_connections := [(''1'', 3)]\<rparr>) example_world"
      "\<lparr>ss_Kustomer = Some \<lparr>ptr_addr = 1, ptr_val = 7\<rparr>\<rparr>" _ 3]
  by (simp add: getServerStatus_def ServerStatus_Equal_def example_world_defs conn_New_def sendCap_def)

lemma hide_no_session_code:
  assumes "hide_no_session r = HErr (RTMErr e)"
  shows "\<exists>d. er_ErrorData e = Some d \<and> ed_Code d \<noteq> RTMErrorIDNoSessionForUser"
  using assms by (auto simp: hide_no_session_def split: handler_result.splits go_error.splits option.splits if_splits)

lemma process_ping_no_rtm_error: "fst (process_ping env c ping w) \<noteq> HErr (RTMErr e)"
  by (auto simp: process_ping_def result_of_send_def Let_def
      split: option.splits bound_value.splits prod.splits sum.splits if_splits)

lemma rtm_OnText_error_code:
  assumes "rtm_OnText env c msg w = (HErr (RTMErr e), w1)"
  shows "\<exists>d. er_ErrorData e = Some d \<and> ed_Code d \<noteq> RTMErrorIDNoSessionForUser"
proof -
  have code: "\<exists>d. er_ErrorData e = Some d \<and> ed_Code d \<noteq> RTMErrorIDNoSessionForUser"
    if "processTextMessage env c tr j v = (HErr (RTMErr e), w1)" for tr j v
    using that process_ping_no_rtm_error [of env c _ v e]
    by (auto simp: processTextMessage_def onWebRTC_def onChats_def json_error_def
        split: if_splits option.splits prod.splits intro: hide_no_session_code) (metis fst_conv)
  show ?thesis
    using assms by (auto simp: rtm_OnText_def json_error_def split: option.splits prod.splits intro: code)
qed

text \<open>
  C32. A client error does not end its connection and an unknown session is not disclosed: whatever a
  message handler returns as an RTM error is sent to the client and the connection goes on, and no
  error sent this way has the code for an unknown session.
\<close>

theorem rtm_errors_reported_not_fatal:
  assumes "rtm_OnText env c msg w = (HErr (RTMErr e), w1)"
  shows "readPump_text env c msg w = (ReadOn, send_to (PError e) c w1) \<and>
    (\<exists>d. er_ErrorData e = Some d \<and> ed_Code d \<noteq> RTMErrorIDNoSessionForUser)"
  using assms rtm_OnText_error_code [OF assms] by (simp add: readPump_text_def rtm_OnError_def)

lemma example_unknown_subtype:
  "rtm_OnText example_env 1 (Some (JObj [(''type'', JStr ''webrtc'')])) example_users_world =
     (HErr (RTMErr (NewRTMTypeError RTMErrorIDBadMessage ''unknown subtype'' 0)), example_users_world)"
proof -
  have keep: "upd_conn c (\<lambda>_. w_conns w c) w = w" for c w
    by (simp add: upd_conn_def)
  have auth: "ur_auth (w_users example_users_world 1) = Some example_auth" "at_GroupRestriction example_auth = None"
    by (simp_all add: example_users_world_def example_auth_def zero_auth_token_def)
  have "decode_webrtc (JObj [(''type'', JStr ''webrtc'')]) = Some (zero_webrtc\<lparr>wm_Envelope := True, wm_Type := ''webrtc''\<rparr>)"
    by (simp add: decode_webrtc_def decode_struct_def in_webrtc_fields set_webrtc_field_simps set_str_def)
  moreover have "processWebRTCMessage example_env 1 (zero_webrtc\<lparr>wm_Envelope := True, wm_Type := ''webrtc''\<rparr>) example_users_world =
      (bad_message ''unknown subtype'' 0, example_users_world)"
    using auth
    by (simp add: processWebRTCMessage_def zero_webrtc_def minimalWebRTCPayloadVersion_def Let_def example_users_ok
        validateRestrictedWebRTCMessage_def rtm_subtype_defs)
  moreover have "decode_transaction (JObj [(''type'', JStr ''webrtc'')]) = Some \<lparr>tr_Type = ''webrtc'', tr_Transaction = []\<rparr>"
    by (simp add: decode_transaction_def decode_struct_def set_transaction_field_def set_str_def zero_transaction_def)
  ultimately show ?thesis
    by (simp add: rtm_OnText_def Transaction_def keep processTextMessage_def onWebRTC_def rtm_type_defs
        bad_message_def hide_no_session_def NewRTMTypeError_def rtm_error_defs)
qed

theorem rtm_errors_reported_not_fatal_witness:
  "fst (readPump_text example_env 1 (Some (JObj [(''type'', JStr ''webrtc'')])) example_users_world) = ReadOn"
  using rtm_errors_reported_not_fatal [OF example_unknown_subtype] by simp

end
