(* ===== verification/Mcu_Pipeline.thy ===== *)
theory Mcu_Pipeline
  imports Events
begin

text \<open>
  The life of a pipeline (\<open>src/signaling/mcu/pipeline.go\<close>): connecting, the callbacks of its MCU
  connection, the watcher and reconnect timers, and closing; closing a connection with the callbacks
  registered on it; and the MCU websocket handler and events (\<open>src/signaling/mcu/handlers.go\<close>,
  \<open>http.go\<close>, \<open>events.go\<close>). A running timer is a pending task; stopping it removes the task.
\<close>

section \<open>Timers\<close>

definition stop_timer :: "task \<Rightarrow> world \<Rightarrow> world" where
  "stop_timer t w = w\<lparr>w_tasks := filter (\<lambda>x. x \<noteq> t) (w_tasks w)\<rparr>"

definition pipeline_watch :: "pipe_ref \<Rightarrow> world \<Rightarrow> world" where
  "pipeline_watch p w =
     (let w1 = (if pl_watcher (w_pipes w p) then stop_timer (TWatchTimer p) w else w)
      in spawn (TWatchTimer p) (upd_pipe p (\<lambda>x. x\<lparr>pl_watcher := True\<rparr>) w1))"

definition watch_timer :: "pipe_ref \<Rightarrow> world \<Rightarrow> world" where
  "watch_timer p w =
     (let w1 = upd_pipe p (\<lambda>x. x\<lparr>pl_watcher := False\<rparr>) w; pl = w_pipes w1 p
      in if pl_closed pl then w1
         else
           let w2 = spawn (TPipelineWatch p) w1
           in if pl_connection pl = None \<and> \<not> pl_connecting pl then spawn (TPipelineReconnect p) w2 else w2)"

definition pipeline_reconnect :: "pipe_ref \<Rightarrow> world \<Rightarrow> world" where
  "pipeline_reconnect p w =
     (if pl_connecting (w_pipes w p) then w
      else
        let w1 = (if pl_reconnector (w_pipes w p) then stop_timer (TReconnectTimer p) w else w)
        in spawn (TReconnectTimer p) (upd_pipe p (\<lambda>x. x\<lparr>pl_connecting := True, pl_reconnector := True\<rparr>) w1))"

text \<open>The reset handler is the closure of \<open>NewChannel\<close>: it starts the channel's \<open>AfterReset\<close>, if any.\<close>

definition pipeline_onReset :: "pipe_ref \<Rightarrow> world \<Rightarrow> world" where
  "pipeline_onReset p w =
     (case pl_handlers (w_pipes w p) of
        None \<Rightarrow> w
      | Some h \<Rightarrow> if cc_AfterReset (channel_config (w_chans w h)) then spawn (TAfterReset h) w else w)"

definition reconnect_timer :: "rtm_env \<Rightarrow> pipe_ref \<Rightarrow> world \<Rightarrow> world" where
  "reconnect_timer env p w =
     (let w1 = upd_pipe p (\<lambda>x. x\<lparr>pl_reconnector := False\<rparr>) w; pl = w_pipes w1 p
      in if \<not> pl_connecting pl \<or> pl_closed pl then w1
         else case Attach env (pl_plugin pl) (pl_handle pl) p w1 of
           (Inl _, w2) \<Rightarrow> spawn (TPipelineReconnect p) (upd_pipe p (\<lambda>x. x\<lparr>pl_connecting := False\<rparr>) w2)
         | (Inr _, w2) \<Rightarrow>
             (let w3 = upd_pipe p (\<lambda>x. x\<lparr>pl_connecting := False\<rparr>) w2;
                  w4 = pipeline_onReset p w3
              in if pl_watcher (w_pipes w3 p) then spawn (TPipelineWatch p) (stop_timer (TWatchTimer p) w4) else w4))"

section \<open>Connecting\<close>

definition pipeline_Connect :: "rtm_env \<Rightarrow> pipe_ref \<Rightarrow> chan_ref \<Rightarrow> world \<Rightarrow> handler_result \<times> world" where
  "pipeline_Connect env p h w =
     (if pl_closed (w_pipes w p) then (HErr (GoErr ''pipeline is closed''), w)
      else
        let w1 = upd_pipe p (\<lambda>x. x\<lparr>pl_handlers := Some h\<rparr>) w; pl = w_pipes w1 p
        in case Attach env (pl_plugin pl) (pl_handle pl) p w1 of
             (Inl _, w2) \<Rightarrow> (HNil, spawn (TPipelineWatch p) (spawn (TPipelineReconnect p) w2))
           | (Inr _, w2) \<Rightarrow> (HNil, spawn (TPipelineWatch p) w2))"

text \<open>The connect handler of \<open>NewChannel\<close>: the channel is announced to the MCU through the pipeline.\<close>

definition channel_pipeline_announce :: "pipe_ref \<Rightarrow> chan_ref \<Rightarrow> world \<Rightarrow> handler_result \<times> world" where
  "channel_pipeline_announce p h w =
     (case pipeline_Send p (PWebRTCReply (channel_reply (ch_id (w_chans w h))
         \<lparr>ce_Group = None,
          ce_Pipeline = Some \<lparr>cp_Pipeline = pipeline_ID (w_pipes w p), cp_Mode = pipeline_Mode (w_pipes w p)\<rparr>,
          ce_Replaced = False\<rparr>)) w of
        (None, w1) \<Rightarrow> (HNil, w1)
      | (Some e, w1) \<Rightarrow> (HErr (GoErr (''failed to send channel data to pipeline: '' @ e)), w1))"

definition pipeline_onConnect :: "pipe_ref \<Rightarrow> conn_ref \<Rightarrow> world \<Rightarrow> handler_result \<times> world" where
  "pipeline_onConnect p c w =
     (let w1 = upd_pipe p (\<lambda>x. x\<lparr>pl_connecting := False, pl_connection := Some c\<rparr>) w;
          w2 = upd_conn c (OnClosed (CbPipelineClosed p)) w1
      in case pl_handlers (w_pipes w2 p) of
           None \<Rightarrow> (HPanic, w2)
         | Some h \<Rightarrow> channel_pipeline_announce p h w2)"

definition pipeline_onClosed :: "pipe_ref \<Rightarrow> conn_ref \<Rightarrow> world \<Rightarrow> world" where
  "pipeline_onClosed p c w =
     (let pl = w_pipes w p
      in if pl_connection pl \<noteq> Some c then w
         else if pl_connecting pl \<or> pl_closed pl then w
         else spawn (TPipelineReconnect p) (upd_pipe p (\<lambda>x. x\<lparr>pl_connection := None\<rparr>) w))"

text \<open>The text handler of \<open>NewChannel\<close> logs a failed delivery and returns nil.\<close>

definition pipeline_onText :: "pipe_ref \<Rightarrow> conn_ref \<Rightarrow> json option \<Rightarrow> world \<Rightarrow> handler_result \<times> world" where
  "pipeline_onText p c data w =
     (let pl = w_pipes w p
      in if pl_connection pl \<noteq> Some c \<or> pl_closed pl then (HNil, w)
         else case pl_handlers pl of
           None \<Rightarrow> (HPanic, w)
         | Some h \<Rightarrow>
             (case Option.bind data decode_webrtc of
                None \<Rightarrow> (HErr (GoErr ''failed to decode JSON data from pipeline''), w)
              | Some msg \<Rightarrow>
                  (case deliver h msg w of
                     (HErr _, w1) \<Rightarrow> (HNil, w1)
                   | (r, w1) \<Rightarrow> (r, w1))))"

section \<open>Closing a connection\<close>

definition run_closed_cb :: "conn_ref \<Rightarrow> closed_cb \<Rightarrow> world \<Rightarrow> handler_result \<times> world" where
  "run_closed_cb c cb w =
     (case cb of
        CbChannelRemove h uid d \<Rightarrow>
          if ch_locked (w_chans w h) then (HBlocked, w) else (HNil, snd (channel_remove h uid (Some d) w))
      | CbPipelineClosed p \<Rightarrow> (HNil, pipeline_onClosed p c w)
      | CbAttachedClosed a \<Rightarrow> (HNil, upd_att a (\<lambda>r. r\<lparr>ar_connection := None\<rparr>) w))"

fun run_closed_cbs :: "conn_ref \<Rightarrow> closed_cb list \<Rightarrow> world \<Rightarrow> handler_result \<times> world" where
  "run_closed_cbs c [] w = (HNil, w)"
| "run_closed_cbs c (cb # cbs) w =
     (case run_closed_cb c cb w of
        (HNil, w1) \<Rightarrow> run_closed_cbs c cbs w1
      | (r, w1) \<Rightarrow> (r, w1))"

definition close_conn :: "time \<Rightarrow> conn_ref \<Rightarrow> world \<Rightarrow> handler_result \<times> world" where
  "close_conn now c w =
     (case conn_Close now (w_conns w c) of
        (cbs, conn) \<Rightarrow> run_closed_cbs c cbs (upd_conn c (\<lambda>_. conn) w))"

definition pipeline_Close :: "rtm_env \<Rightarrow> pipe_ref \<Rightarrow> world \<Rightarrow> handler_result \<times> world" where
  "pipeline_Close env p w =
     (let pl = w_pipes w p;
          w1 = upd_pipe p (\<lambda>x. x\<lparr>pl_connection := None, pl_closed := True, pl_reconnector := False, pl_watcher := False\<rparr>) w;
          w2 = (if pl_reconnector pl then stop_timer (TReconnectTimer p) w1 else w1);
          w3 = (if pl_watcher pl then stop_timer (TWatchTimer p) w2 else w2)
      in case pl_connection pl of
           None \<Rightarrow> (HNil, w3)
         | Some c \<Rightarrow> close_conn (en_now env) c (snd (Detach (pl_plugin pl) (pl_handle pl) w3)))"

section \<open>The MCU websocket handler\<close>

datatype upgrade = UpgradeHandshakeError | UpgradeError string | Upgraded string

definition websocketSubProtocolName :: string where "websocketSubProtocolName = ''kwmmcu-protocol''"

text \<open>What a websocket handler leaves: its writes, its error, and the connection it serves, if any.\<close>

record ws_outcome =
  wo_writes :: "unit http_write list"
  wo_err :: "string option"
  wo_conn :: "conn_ref option"

definition ws_refuse :: "unit http_write list \<Rightarrow> string option \<Rightarrow> ws_outcome" where
  "ws_refuse ws e = \<lparr>wo_writes = ws, wo_err = e, wo_conn = None\<rparr>"

definition mcu_new_conn :: "time \<Rightarrow> world \<Rightarrow> conn_ref \<times> world" where
  "mcu_new_conn now w =
     (let n = mm_count (w_mcu w) + 1; c = w_next w
      in (c, upd_conn c (\<lambda>_. conn_New (show_nat (unat n)) now)
               (upd_mcu (\<lambda>m. m\<lparr>mm_count := n\<rparr>) (w\<lparr>w_next := Suc c\<rparr>))))"

text \<open>
  The rest of the handler for an attach request. It runs in the goroutine of the request, where the
  server recovers a panic of the connect handler: the connection is then never served.
\<close>

definition mcu_attach_conn :: "att_ref \<Rightarrow> conn_ref \<Rightarrow> world \<Rightarrow> ws_outcome \<times> world" where
  "mcu_attach_conn a c w =
     (let w1 = upd_att a (\<lambda>r. r\<lparr>ar_connection := Some c\<rparr>) w
      in case (case ar_onConnect (w_atts w1 a) of Some p \<Rightarrow> pipeline_onConnect p c w1 | None \<Rightarrow> (HPanic, w1)) of
           (HPanic, w2) \<Rightarrow> (ws_refuse [] None, w2)
         | (_, w2) \<Rightarrow>
             (let w3 = upd_att a (\<lambda>r. r\<lparr>ar_onConnect := None\<rparr>) w2;
                  w4 = upd_conn c (Bind (Some (BoundAttached a)) \<circ> OnClosed (CbAttachedClosed a)) w3
              in (\<lparr>wo_writes = [], wo_err = None, wo_conn = Some c\<rparr>, w4)))"

definition mcu_upgraded :: "time \<Rightarrow> att_ref option \<Rightarrow> world \<Rightarrow> ws_outcome \<times> world" where
  "mcu_upgraded now ar w =
     (case mcu_new_conn now w of
        (c, w1) \<Rightarrow>
          (case ar of
             None \<Rightarrow> (\<lparr>wo_writes = [], wo_err = None, wo_conn = Some c\<rparr>, w1)
           | Some a \<Rightarrow> mcu_attach_conn a c w1))"

definition mcu_HandleWebsocketConnect :: "rtm_env \<Rightarrow> string \<Rightarrow> upgrade \<Rightarrow> world \<Rightarrow> ws_outcome \<times> world" where
  "mcu_HandleWebsocketConnect env transaction up w =
     (let found = gm_get (mm_attached (w_mcu w)) transaction
      in if transaction \<noteq> [] \<and>
            (case found of None \<Rightarrow> True | Some a \<Rightarrow> ar_connection (w_atts w a) \<noteq> None \<or> ar_onConnect (w_atts w a) = None)
         then (ws_refuse [http_NotFound] None, w)
         else case up of
           UpgradeHandshakeError \<Rightarrow> (ws_refuse [] None, w)
         | UpgradeError e \<Rightarrow> (ws_refuse [] (Some e), w)
         | Upgraded subprotocol \<Rightarrow>
             if subprotocol \<noteq> websocketSubProtocolName then (ws_refuse [] None, w)
             else mcu_upgraded (en_now env) (if transaction = [] then None else found) w)"

definition mcu_HTTPWebsocketHandler :: "rtm_env \<Rightarrow> string \<Rightarrow> string \<Rightarrow> upgrade \<Rightarrow> world \<Rightarrow> ws_outcome \<times> world" where
  "mcu_HTTPWebsocketHandler env meth transaction up w =
     (if meth \<noteq> ''GET'' then (ws_refuse [HttpError [] StatusMethodNotAllowed] None, w)
      else case mcu_HandleWebsocketConnect env transaction up w of
        (out, w1) \<Rightarrow>
          (case wo_err out of
             None \<Rightarrow> (out, w1)
           | Some e \<Rightarrow> (out\<lparr>wo_writes := wo_writes out @ [HttpError [] StatusInternalServerError]\<rparr>, w1)))"

text \<open>\<open>serveWebsocketConnection\<close> keeps a control connection in the list while \<open>ServeWS\<close> runs.\<close>

definition mcu_serve_begin :: "conn_ref \<Rightarrow> world \<Rightarrow> world" where
  "mcu_serve_begin c w = upd_mcu (\<lambda>m. m\<lparr>mm_connections := mm_connections m @ [c]\<rparr>) w"

definition mcu_serve_end :: "conn_ref \<Rightarrow> world \<Rightarrow> world" where
  "mcu_serve_end c w = upd_mcu (\<lambda>m. m\<lparr>mm_connections := remove1 c (mm_connections m)\<rparr>) w"

definition decode_transaction_message :: "json \<Rightarrow> string option" where
  "decode_transaction_message =
     decode_struct [''transaction''] (\<lambda>k. set_str (\<lambda>s _. s)) []"

definition mcu_OnText :: "conn_ref \<Rightarrow> json option \<Rightarrow> world \<Rightarrow> handler_result \<times> world" where
  "mcu_OnText c msg w =
     (case Option.bind msg decode_transaction_message of
        None \<Rightarrow> (HErr json_error, w)
      | Some tid \<Rightarrow>
          (case Transaction tid None (w_conns w c) of
             (Some _, conn) \<Rightarrow> (HNil, upd_conn c (\<lambda>_. conn) w)
           | (None, conn) \<Rightarrow>
               (let w1 = upd_conn c (\<lambda>_. conn) w
                in case cn_binder (w_conns w1 c) of
                     None \<Rightarrow> (HNil, w1)
                   | Some (BoundUser _) \<Rightarrow> (HPanic, w1)
                   | Some (BoundAttached a) \<Rightarrow>
                       (case ar_onText (w_atts w1 a) of
                          None \<Rightarrow> (HNil, w1)
                        | Some p \<Rightarrow> pipeline_onText p c msg w1))))"

text \<open>The other events do nothing, and every error ends the read pump.\<close>

definition mcu_OnConnect :: "conn_ref \<Rightarrow> world \<Rightarrow> handler_result \<times> world" where
  "mcu_OnConnect c w = (HNil, w)"

definition mcu_OnDisconnect :: "conn_ref \<Rightarrow> world \<Rightarrow> handler_result \<times> world" where
  "mcu_OnDisconnect c w = (HNil, w)"

definition mcu_OnBeforeDisconnect :: "conn_ref \<Rightarrow> string option \<Rightarrow> world \<Rightarrow> handler_result \<times> world" where
  "mcu_OnBeforeDisconnect c err w = (HNil, w)"

definition mcu_OnError :: "conn_ref \<Rightarrow> go_error \<Rightarrow> world \<Rightarrow> go_error option \<times> world" where
  "mcu_OnError c err w = (Some err, w)"

definition mcu_readPump_text :: "conn_ref \<Rightarrow> json option \<Rightarrow> world \<Rightarrow> read_result \<times> world" where
  "mcu_readPump_text c msg w =
     (case mcu_OnText c msg w of
        (HNil, w1) \<Rightarrow> (ReadOn, w1)
      | (HErr e, w1) \<Rightarrow>
          (case mcu_OnError c e w1 of
             (None, w2) \<Rightarrow> (ReadOn, w2)
           | (Some e', w2) \<Rightarrow> (ReadEnd e', w2))
      | (HPanic, w1) \<Rightarrow> (ReadPanic, w1)
      | (HBlocked, w1) \<Rightarrow> (ReadBlocked, w1))"

section \<open>Properties\<close>

lemma stop_timer_frame [simp]:
  "w_rtm (stop_timer t w) = w_rtm w" "w_mcu (stop_timer t w) = w_mcu w" "w_admin (stop_timer t w) = w_admin w"
  "w_users (stop_timer t w) = w_users w" "w_conns (stop_timer t w) = w_conns w" "w_chans (stop_timer t w) = w_chans w"
  "w_pipes (stop_timer t w) = w_pipes w" "w_atts (stop_timer t w) = w_atts w" "w_next (stop_timer t w) = w_next w"
  "w_metrics (stop_timer t w) = w_metrics w"
  by (simp_all add: stop_timer_def)

lemma pipeline_onClosed_frame [simp]:
  "w_rtm (pipeline_onClosed p c w) = w_rtm w" "w_users (pipeline_onClosed p c w) = w_users w"
  "w_conns (pipeline_onClosed p c w) = w_conns w" "w_chans (pipeline_onClosed p c w) = w_chans w"
  "w_next (pipeline_onClosed p c w) = w_next w" "w_metrics (pipeline_onClosed p c w) = w_metrics w"
  "pl_closed (w_pipes (pipeline_onClosed p c w) q) = pl_closed (w_pipes w q)"
  by (auto simp: pipeline_onClosed_def Let_def)

text \<open>
  A closed pipeline is silent: connecting it fails, sending through it succeeds without sending,
  texts of its connection are dropped, and its watcher and reconnect timers neither attach it again
  nor queue anything.
\<close>

theorem closed_pipeline_is_silent:
  assumes "pl_closed (w_pipes w p)"
  shows "pipeline_Connect env p h w = (HErr (GoErr ''pipeline is closed''), w) \<and>
    pipeline_Send p msg w = (None, w) \<and> pipeline_onText p c data w = (HNil, w) \<and>
    w_conns (reconnect_timer env p w) = w_conns w \<and> w_mcu (reconnect_timer env p w) = w_mcu w \<and>
    w_tasks (reconnect_timer env p w) = w_tasks w \<and> w_tasks (watch_timer p w) = w_tasks w \<and>
    w_conns (watch_timer p w) = w_conns w"
  using assms
  by (simp add: pipeline_Connect_def pipeline_Send_def pipeline_onText_def reconnect_timer_def watch_timer_def Let_def)

theorem closed_pipeline_is_silent_witness:
  "pipeline_Send 0 (PMcu \<lparr>mx_Type = [], mx_Transaction = [], mx_Plugin = [], mx_Handle = 0\<rparr>)
     (upd_pipe 0 (\<lambda>x. x\<lparr>pl_closed := True, pl_connection := Some 3\<rparr>) example_world) =
   (None, upd_pipe 0 (\<lambda>x. x\<lparr>pl_closed := True, pl_connection := Some 3\<rparr>) example_world)"
  using closed_pipeline_is_silent [of "upd_pipe 0 (\<lambda>x. x\<lparr>pl_closed := True, pl_connection := Some 3\<rparr>) example_world" 0]
  by simp

text \<open>
  Closing a pipeline does not disarm an attach request that is still pending: the websocket request
  that answers it is accepted, and its connection becomes the connection of the closed pipeline,
  without being told anything. Nothing closes or detaches it afterwards, since the pipeline is closed
  once.
\<close>

lemma late_attach_after_close:
  assumes "pl_closed (w_pipes w p)" and "pl_handlers (w_pipes w p) = Some h" and "transaction \<noteq> []"
    and "gm_get (mm_attached (w_mcu w)) transaction = Some a"
    and "ar_connection (w_atts w a) = None" and "ar_onConnect (w_atts w a) = Some p"
    and "mcu_HandleWebsocketConnect env transaction (Upgraded websocketSubProtocolName) w = (out, w')"
  shows "\<exists>c. wo_conn out = Some c \<and> pl_connection (w_pipes w' p) = Some c \<and> pl_closed (w_pipes w' p) \<and>
    cn_send (w_conns w' c) = [] \<and> \<not> cn_closed (w_conns w' c)"
  using assms
  by (auto simp: mcu_HandleWebsocketConnect_def mcu_upgraded_def mcu_attach_conn_def mcu_new_conn_def pipeline_onConnect_def
      channel_pipeline_announce_def pipeline_Send_def conn_New_def OnClosed_def Bind_def Let_def)

lemma pipeline_Connect_attaches:
  assumes "GetConnection (w_mcu w) = (Some k, m)" and "\<not> cn_closed (w_conns w k)"
    and "length (cn_send (w_conns w k)) < sendCap" and "\<not> pl_closed (w_pipes w p)"
    and "pipeline_Connect env p h w = (r, w1)"
  shows "r = HNil" and "cn_send (w_conns w1 k) = cn_send (w_conns w k) @
      [PMcu \<lparr>mx_Type = ''attach'', mx_Transaction = en_rnd env, mx_Plugin = pl_plugin (w_pipes w p),
        mx_Handle = pl_handle (w_pipes w p)\<rparr>]"
    and "gm_get (mm_attached (w_mcu w1)) (en_rnd env) = Some (w_next w)"
    and "w_atts w1 (w_next w) = \<lparr>ar_when = en_now env, ar_connection = None, ar_onConnect = Some p, ar_onText = Some p\<rparr>"
    and "w_pipes w1 p = (w_pipes w p)\<lparr>pl_handlers := Some h\<rparr>" and "w_chans w1 = w_chans w" and "w_next w1 = Suc (w_next w)"
proof -
  define att where "att = PMcu \<lparr>mx_Type = ''attach'', mx_Transaction = en_rnd env, mx_Plugin = pl_plugin (w_pipes w p),
      mx_Handle = pl_handle (w_pipes w p)\<rparr>"
  define w0 where "w0 = upd_mcu (\<lambda>_. m\<lparr>mm_attached := gm_set (en_rnd env) (w_next w) (mm_attached m)\<rparr>)
    (upd_att (w_next w) (\<lambda>_. \<lparr>ar_when = en_now env, ar_connection = None, ar_onConnect = Some p, ar_onText = Some p\<rparr>)
      ((upd_pipe p (\<lambda>x. x\<lparr>pl_handlers := Some h\<rparr>) w)\<lparr>w_next := Suc (w_next w)\<rparr>))"
  have "w_send k att w0 = (None, send_to att k w0)"
    using assms(2,3) by (simp add: w_send_def send_to_def RawSend_def w0_def)
  then have "Attach env (pl_plugin (w_pipes w p)) (pl_handle (w_pipes w p)) p (upd_pipe p (\<lambda>x. x\<lparr>pl_handlers := Some h\<rparr>) w) =
      (Inr k, send_to att k w0)"
    using assms(1) by (simp add: Attach_def Let_def att_def w0_def)
  then have run: "(r, w1) = (HNil, spawn (TPipelineWatch p) (send_to att k w0))"
    using assms(4,5) by (simp add: pipeline_Connect_def Let_def)
  then show "r = HNil" and "cn_send (w_conns w1 k) = cn_send (w_conns w k) @ [att]"
      and "gm_get (mm_attached (w_mcu w1)) (en_rnd env) = Some (w_next w)"
      and "w_atts w1 (w_next w) = \<lparr>ar_when = en_now env, ar_connection = None, ar_onConnect = Some p, ar_onText = Some p\<rparr>"
      and "w_pipes w1 p = (w_pipes w p)\<lparr>pl_handlers := Some h\<rparr>" and "w_chans w1 = w_chans w" and "w_next w1 = Suc (w_next w)"
    using assms(2,3) by (simp_all add: send_to_queue w0_def)
qed

lemma mcu_upgraded_attaches:
  assumes "ar_onConnect (w_atts w a) = Some p" and "pl_handlers (w_pipes w p) = Some h" and "\<not> pl_closed (w_pipes w p)"
    and "mcu_upgraded now (Some a) w = (out, w')" and "c = w_next w"
  shows "wo_conn out = Some c" and "pl_connection (w_pipes w' p) = Some c" and "\<not> pl_closed (w_pipes w' p)"
    and "ar_connection (w_atts w' a) = Some c" and "w_mcu w' = (w_mcu w)\<lparr>mm_count := mm_count (w_mcu w) + 1\<rparr>"
    and "\<not> cn_closed (w_conns w' c)"
    and "cn_send (w_conns w' c) = [PWebRTCReply (channel_reply (ch_id (w_chans w h))
      \<lparr>ce_Group = None, ce_Pipeline = Some \<lparr>cp_Pipeline = pl_id (w_pipes w p), cp_Mode = pipelineModeMCUForward\<rparr>, ce_Replaced = False\<rparr>)]"
  using assms
  by (auto simp: mcu_upgraded_def mcu_attach_conn_def mcu_new_conn_def pipeline_onConnect_def channel_pipeline_announce_def pipeline_Send_def
      w_send_def RawSend_def conn_New_def OnClosed_def Bind_def sendCap_def pipeline_ID_def pipeline_Mode_def Let_def)

text \<open>
  The attach handshake: when a pipeline connects and a control connection is open, the control
  connection is sent an attach request with a fresh transaction id; the first websocket request with
  that id becomes the pipeline's connection and is sent the channel it serves, messages sent through
  the pipeline then go to it, and a second request with the id is answered with not found.
\<close>

theorem attach_handshake:
  assumes "GetConnection (w_mcu w) = (Some k, m)" and "\<not> cn_closed (w_conns w k)"
    and "length (cn_send (w_conns w k)) < sendCap" and "\<not> pl_closed (w_pipes w p)" and "en_rnd env \<noteq> []"
    and "pipeline_Connect env p h w = (r, w1)"
    and "mcu_HandleWebsocketConnect env (en_rnd env) (Upgraded websocketSubProtocolName) w1 = (out, w2)"
  shows "\<exists>c. wo_conn out = Some c \<and> pl_connection (w_pipes w2 p) = Some c \<and>
    cn_send (w_conns w2 c) = [PWebRTCReply (channel_reply (ch_id (w_chans w h))
      \<lparr>ce_Group = None, ce_Pipeline = Some \<lparr>cp_Pipeline = pl_id (w_pipes w p), cp_Mode = pipelineModeMCUForward\<rparr>, ce_Replaced = False\<rparr>)] \<and>
    pipeline_Send p msg w2 = (None, send_to msg c w2) \<and>
    mcu_HandleWebsocketConnect env (en_rnd env) up w2 = (ws_refuse [http_NotFound] None, w2)"
proof -
  note con = pipeline_Connect_attaches [OF assms(1-4,6)]
  have up: "mcu_upgraded (en_now env) (Some (w_next w)) w1 = (out, w2)"
    using assms(5,7) con(3,4) by (simp add: mcu_HandleWebsocketConnect_def)
  define c where "c = w_next w1"
  have att: "ar_onConnect (w_atts w1 (w_next w)) = Some p" "pl_handlers (w_pipes w1 p) = Some h" "\<not> pl_closed (w_pipes w1 p)"
    using con(4,5) assms(4) by simp_all
  note res = mcu_upgraded_attaches [OF att up c_def]
  have "pipeline_Send p msg w2 = (None, send_to msg c w2)"
    using res(2,3,6,7) by (simp add: pipeline_Send_def w_send_def send_to_def RawSend_def sendCap_def)
  moreover have "mcu_HandleWebsocketConnect env (en_rnd env) up w2 = (ws_refuse [http_NotFound] None, w2)"
    using assms(5) con(3) res(4,5) by (simp add: mcu_HandleWebsocketConnect_def)
  ultimately show ?thesis
    using res con(5,6) by auto
qed

theorem attach_handshake_witness:
  "\<exists>c. pl_connection (w_pipes (snd (mcu_HandleWebsocketConnect example_env ''rnd'' (Upgraded websocketSubProtocolName)
      (snd (pipeline_Connect example_env 5 6 (upd_mcu (\<lambda>m. m\<lparr>mm_connections := [3]\<rparr>) example_world))))) 5) = Some c"
proof -
  let ?w = "upd_mcu (\<lambda>m. m\<lparr>mm_connections := [3]\<rparr>) example_world"
  have g: "GetConnection (w_mcu ?w) = (Some 3, (w_mcu ?w)\<lparr>mm_connection := Some 3\<rparr>)"
    by (simp add: GetConnection_def list_front_def Let_def example_world_defs)
  have env: "en_rnd example_env = ''rnd''" by (simp add: example_env_def)
  have conn: "\<not> cn_closed (w_conns ?w 3)" "length (cn_send (w_conns ?w 3)) < sendCap" "\<not> pl_closed (w_pipes ?w 5)"
      "en_rnd example_env \<noteq> []"
    by (simp_all add: example_world_defs conn_New_def sendCap_def env)
  show ?thesis
    using attach_handshake [OF g conn surjective_pairing surjective_pairing, of 6] by (auto simp: env)
qed

end
