(* ===== verification/Clients.thy ===== *)
theory Clients
  imports Prelude
begin

text \<open>
  \<open>src/clients\<close>: the registry of OpenID clients that may request guest access. Keys are opaque; the
  decoding of key material (\<open>gojwk\<close>) and \<open>url.Parse\<close> are arguments.
\<close>

section \<open>Client registrations (\<open>models.go\<close>, \<open>clients.go\<close>)\<close>

definition ApplicationTypeWeb :: string where "ApplicationTypeWeb = ''web''"
definition ApplicationTypeNative :: string where "ApplicationTypeNative = ''native''"

record 'k jwk =
  jwk_Kid :: string
  jwk_Use :: string
  jwk_material :: 'k

record 'k ClientRegistration =
  rg_ID :: string
  rg_Secret :: string
  rg_Name :: string
  rg_ApplicationType :: string
  rg_Trusted :: bool
  rg_TrustedScopes :: "string list"
  rg_Insecure :: bool
  rg_Origins :: "string list"
  rg_JWKS :: "'k jwk list option"
  rg_RawRequestObjectSigningAlg :: string

record Details =
  dt_ID :: string
  dt_DisplayName :: string
  dt_Trusted :: bool

record ('pub, 'priv) Secured =
  sc_ID :: string
  sc_DisplayName :: string
  sc_ApplicationType :: string
  sc_Kid :: string
  sc_PublicKey :: "'pub option"
  sc_PrivateKey :: "'priv option"
  sc_TrustedScopes :: "string list"

text \<open>
  The key of a registration: with one key that one whatever the key id says, with several the first
  whose id matches, \<open>default\<close> standing for no id (\<open>rawKid\<close> is \<open>None\<close> when it is not a string).
\<close>

definition findKeyByKid :: "string option \<Rightarrow> 'k ClientRegistration \<Rightarrow> string + 'k jwk" where
  "findKeyByKid rawKid cr =
     (case rg_JWKS cr of
        None \<Rightarrow> Inl ''no jwks''
      | Some keys \<Rightarrow>
          (let kid = (case rawKid of None \<Rightarrow> [] | Some k \<Rightarrow> k);
               kid' = (if kid = [] then ''default'' else kid);
               key = (case keys of
                        [] \<Rightarrow> None
                      | [k] \<Rightarrow> Some k
                      | _ \<Rightarrow> find (\<lambda>k. kid' = jwk_Kid k) keys)
           in case key of
                None \<Rightarrow> Inl ''unknown kid''
              | Some k \<Rightarrow>
                  if jwk_Use k \<noteq> ''sig'' then Inl ''unsupported key use value - must be sig'' else Inr k))"

definition Secure ::
  "('k \<Rightarrow> string + 'pub) \<Rightarrow> string option \<Rightarrow> 'k ClientRegistration \<Rightarrow> string + ('pub, 'priv) Secured" where
  "Secure decodePublicKey rawKid cr =
     (case findKeyByKid rawKid cr of
        Inl e \<Rightarrow> Inl e
      | Inr k \<Rightarrow>
          (case decodePublicKey (jwk_material k) of
             Inl e \<Rightarrow> Inl (''failed to decode public key: '' @ e)
           | Inr pubKey \<Rightarrow> Inr \<lparr>sc_ID = rg_ID cr, sc_DisplayName = rg_Name cr,
               sc_ApplicationType = rg_ApplicationType cr, sc_Kid = jwk_Kid k,
               sc_PublicKey = Some pubKey, sc_PrivateKey = None,
               sc_TrustedScopes = rg_TrustedScopes cr\<rparr>))"

definition Private ::
  "('k \<Rightarrow> string + 'pub) \<Rightarrow> ('k \<Rightarrow> string + 'priv) \<Rightarrow> string option \<Rightarrow> 'k ClientRegistration \<Rightarrow>
   string + ('pub, 'priv) Secured" where
  "Private decodePublicKey decodePrivateKey rawKid cr =
     (case findKeyByKid rawKid cr of
        Inl e \<Rightarrow> Inl e
      | Inr k \<Rightarrow>
          (case decodePrivateKey (jwk_material k) of
             Inl e \<Rightarrow> Inl (''failed to decode private key: '' @ e)
           | Inr privKey \<Rightarrow>
               (case decodePublicKey (jwk_material k) of
                  Inl e \<Rightarrow> Inl (''failed to decode public key: '' @ e)
                | Inr pubKey \<Rightarrow> Inr \<lparr>sc_ID = rg_ID cr, sc_DisplayName = rg_Name cr,
                    sc_ApplicationType = rg_ApplicationType cr, sc_Kid = jwk_Kid k,
                    sc_PublicKey = Some pubKey, sc_PrivateKey = Some privKey,
                    sc_TrustedScopes = rg_TrustedScopes cr\<rparr>)))"

section \<open>The registry (\<open>registry.go\<close>)\<close>

record url =
  url_Scheme :: string
  url_Host :: string

record 'k Registry =
  rs_trustedURI :: "url option"
  rs_clients :: "(string, 'k ClientRegistration) gomap"

definition Register :: "'k ClientRegistration \<Rightarrow> 'k Registry \<Rightarrow> string + 'k Registry" where
  "Register client r =
     (if rg_ID client = [] then Inl ''invalid client_id''
      else let client' = (if rg_ApplicationType client = []
             then client\<lparr>rg_ApplicationType := ApplicationTypeWeb\<rparr> else client)
        in if rg_ApplicationType client' = ApplicationTypeWeb
           then Inr (r\<lparr>rs_clients := gm_set (rg_ID client') client' (rs_clients r)\<rparr>)
           else Inl (''unknown application_type: '' @ rg_ApplicationType client'))"

text \<open>
  \<open>NewRegistry\<close> after the configuration file is read: invalid clients are skipped with a warning. The file
  is an argument (\<open>Inl\<close> for a read or parse error). An entry that is null is a nil pointer, which
  \<open>Register\<close> dereferences: \<open>None\<close> is that panic.
\<close>

fun register_all :: "'k ClientRegistration option list \<Rightarrow> 'k Registry \<Rightarrow> 'k Registry option" where
  "register_all [] r = Some r"
| "register_all (None # rest) r = None"
| "register_all (Some client # rest) r =
     (case Register client r of
        Inl _ \<Rightarrow> register_all rest r
      | Inr r' \<Rightarrow> register_all rest r')"

definition NewRegistry ::
  "url option \<Rightarrow> (string \<Rightarrow> string + 'k ClientRegistration option list) \<Rightarrow> string \<Rightarrow> (string + 'k Registry) option" where
  "NewRegistry trustedURI readConf registrationConfFilepath =
     (case (if registrationConfFilepath \<noteq> [] then readConf registrationConfFilepath else Inr []) of
        Inl e \<Rightarrow> Some (Inl e)
      | Inr clients \<Rightarrow> map_option Inr (register_all clients \<lparr>rs_trustedURI = trustedURI, rs_clients = []\<rparr>))"

definition Validate :: "'k ClientRegistration \<Rightarrow> string \<Rightarrow> string \<Rightarrow> bool \<Rightarrow> string option" where
  "Validate client clientSecret originURIString withoutSecret =
     (if rg_ApplicationType client = ApplicationTypeWeb \<and>
         originURIString \<noteq> [] \<and> (\<not> rg_Insecure client \<or> length (rg_Origins client) > 0) \<and>
         \<not> list_ex (\<lambda>urlString. urlString = originURIString) (rg_Origins client)
      then Some (''invalid origin: '' @ originURIString)
      else if \<not> withoutSecret \<and> rg_Secret client \<noteq> [] \<and> clientSecret \<noteq> rg_Secret client
      then Some ''invalid client_secret''
      else None)"

text \<open>
  A \<open>nil\<close> URL (a failed \<open>url.Parse\<close>) is dereferenced when the registry has a trusted URI, which
  panics. On success the registration may be nil: an implicitly trusted client need not be known.
\<close>

datatype 'k lookup_result =
    LookupPanic
  | LookupErr string
  | LookupOk Details "'k ClientRegistration option"

definition implicitly_trusted :: "url \<Rightarrow> url \<Rightarrow> bool" where
  "implicitly_trusted trusted origin \<longleftrightarrow>
     \<not> (url_Scheme origin \<noteq> [] \<and>
        (url_Scheme trusted \<noteq> url_Scheme origin \<or> url_Host trusted \<noteq> url_Host origin))"

definition registry_Lookup ::
  "(string \<Rightarrow> url option) \<Rightarrow> 'k Registry \<Rightarrow> string \<Rightarrow> string \<Rightarrow> string \<Rightarrow> bool \<Rightarrow> 'k lookup_result" where
  "registry_Lookup url_parse r clientID clientSecret originURIString withoutSecret =
     (if clientID = [] then LookupErr ''invalid client_id''
      else case (rs_trustedURI r, url_parse originURIString) of
        (Some _, None) \<Rightarrow> LookupPanic
      | (trustedURI, originURI) \<Rightarrow>
          (let trusted = (case (trustedURI, originURI) of
                            (Some t, Some orig) \<Rightarrow> implicitly_trusted t orig
                          | _ \<Rightarrow> False)
           in case gm_get (rs_clients r) clientID of
                Some registration \<Rightarrow>
                  (case Validate registration clientSecret originURIString withoutSecret of
                     Some e \<Rightarrow> LookupErr e
                   | None \<Rightarrow> LookupOk \<lparr>dt_ID = clientID, dt_DisplayName = rg_Name registration,
                       dt_Trusted = rg_Trusted registration\<rparr> (Some registration))
              | None \<Rightarrow>
                  if trusted
                  then LookupOk \<lparr>dt_ID = clientID, dt_DisplayName = [], dt_Trusted = True\<rparr> None
                  else LookupErr (''unknown client_id: '' @ clientID)))"

definition registry_Get :: "'k Registry \<Rightarrow> string \<Rightarrow> 'k ClientRegistration option" where
  "registry_Get r clientID = gm_get (rs_clients r) clientID"

section \<open>Invariant\<close>

definition registry_wf :: "'k Registry \<Rightarrow> bool" where
  "registry_wf r \<longleftrightarrow> gm_wf (rs_clients r) \<and>
     (\<forall>cid reg. gm_get (rs_clients r) cid = Some reg \<longrightarrow>
        cid \<noteq> [] \<and> rg_ID reg = cid \<and> rg_ApplicationType reg = ApplicationTypeWeb)"

lemma Register_Inr:
  assumes "Register client r = Inr r'"
  obtains client' where "rg_ID client' \<noteq> []" "rg_ApplicationType client' = ApplicationTypeWeb"
    "r' = r\<lparr>rs_clients := gm_set (rg_ID client') client' (rs_clients r)\<rparr>"
proof -
  define client' where "client' = (if rg_ApplicationType client = []
             then client\<lparr>rg_ApplicationType := ApplicationTypeWeb\<rparr> else client)"
  have "rg_ID client' = rg_ID client"
    by (simp add: client'_def)
  then show thesis
    using assms that [of client'] unfolding Register_def client'_def [symmetric] Let_def
    by (simp split: if_splits)
qed

lemma Register_wf: "registry_wf r \<Longrightarrow> Register client r = Inr r' \<Longrightarrow> registry_wf r'"
  by (erule Register_Inr) (simp add: registry_wf_def)

lemma register_all_wf: "registry_wf r \<Longrightarrow> register_all clients r = Some r' \<Longrightarrow> registry_wf r'"
  by (induction clients r rule: register_all.induct) (auto dest: Register_wf split: sum.splits)

section \<open>Properties\<close>

text \<open>
  C39. A registry built from a configuration file, valid or not in its single entries, holds only
  clients of type web, each under its own non-empty client id (a null entry builds no registry: it
  panics).
\<close>

theorem NewRegistry_wf:
  assumes "NewRegistry trustedURI readConf path = Some (Inr r)"
  shows "registry_wf r"
proof -
  obtain clients where "register_all clients \<lparr>rs_trustedURI = trustedURI, rs_clients = []\<rparr> = Some r"
    using assms register_all.simps(1) by (auto simp: NewRegistry_def simp del: register_all.simps
        split: sum.splits if_splits)
  moreover have "registry_wf \<lparr>rs_trustedURI = trustedURI, rs_clients = []\<rparr>"
    by (simp add: registry_wf_def)
  ultimately show ?thesis
    using register_all_wf by blast
qed

definition example_client :: "unit ClientRegistration" where
  "example_client = \<lparr>rg_ID = ''app'', rg_Secret = ''s3'', rg_Name = ''App'', rg_ApplicationType = [],
     rg_Trusted = False, rg_TrustedScopes = [], rg_Insecure = False, rg_Origins = [''https://a''],
     rg_JWKS = None, rg_RawRequestObjectSigningAlg = ''ES256''\<rparr>"

definition example_registry :: "unit Registry" where
  "example_registry = \<lparr>rs_trustedURI = None,
     rs_clients = [(''app'', example_client\<lparr>rg_ApplicationType := ApplicationTypeWeb\<rparr>)]\<rparr>"

theorem NewRegistry_wf_witness:
  "NewRegistry None (\<lambda>_. Inr [Some example_client, Some (example_client\<lparr>rg_ID := []\<rparr>)]) ''conf'' =
     Some (Inr example_registry) \<and> registry_wf example_registry"
proof -
  have "NewRegistry None (\<lambda>_. Inr [Some example_client, Some (example_client\<lparr>rg_ID := []\<rparr>)]) ''conf'' =
     Some (Inr example_registry)"
    by (simp add: NewRegistry_def example_registry_def example_client_def Register_def
        ApplicationTypeWeb_def)
  with NewRegistry_wf [OF this] show ?thesis by blast
qed

lemma Lookup_registered:
  assumes "registry_wf r"
    and "registry_Lookup url_parse r clientID secret origin withoutSecret = LookupOk d (Some reg)"
  shows "registry_Get r clientID = Some reg \<and> dt_ID d = clientID \<and> rg_ID reg = clientID \<and> dt_Trusted d = rg_Trusted reg \<and>
    (origin = [] \<or> origin \<in> set (rg_Origins reg) \<or> (rg_Insecure reg \<and> rg_Origins reg = [])) \<and>
    (withoutSecret \<or> rg_Secret reg = [] \<or> secret = rg_Secret reg)"
proof -
  from assms(2) have get: "gm_get (rs_clients r) clientID = Some reg"
    and val: "Validate reg secret origin withoutSecret = None" and "dt_ID d = clientID" "dt_Trusted d = rg_Trusted reg"
    by (auto simp: registry_Lookup_def Let_def split: if_splits option.splits)
  moreover from get assms(1) have "rg_ID reg = clientID" and "rg_ApplicationType reg = ApplicationTypeWeb"
    by (auto simp: registry_wf_def)
  ultimately show ?thesis
    by (auto simp: registry_Get_def Validate_def list_ex_iff split: if_splits)
qed

lemma Lookup_unregistered:
  assumes "registry_Lookup url_parse r clientID secret origin withoutSecret = LookupOk d None"
  shows "registry_Get r clientID = None \<and> dt_ID d = clientID \<and> dt_Trusted d \<and>
    (\<exists>t u. rs_trustedURI r = Some t \<and> url_parse origin = Some u \<and>
       (url_Scheme u = [] \<or> url_Scheme u = url_Scheme t \<and> url_Host u = url_Host t))"
  using assms
  by (auto simp: registry_Lookup_def registry_Get_def implicitly_trusted_def Let_def split: if_splits option.splits)

text \<open>
  C40. A lookup lets in a client in two cases only. With a registration, that client is registered under
  the requested id, the given origin is one of its origins unless none was given or the client is
  insecure and lists none, the given secret is the client's unless the client has none or the caller
  waived it, and the client counts as trusted if the registration says so. Without one, no client is
  registered under the id, the registry has a trusted URI, and the given origin is a URL without a
  scheme or with the scheme and the host of that URI; then the client counts as trusted.
\<close>

theorem Lookup_authorized:
  assumes "registry_wf r"
    and "registry_Lookup url_parse r clientID secret origin withoutSecret = LookupOk d registration"
  shows "clientID \<noteq> [] \<and> dt_ID d = clientID \<and> registry_Get r clientID = registration \<and>
    (case registration of
       Some reg \<Rightarrow> rg_ID reg = clientID \<and> dt_Trusted d = rg_Trusted reg \<and>
         (origin = [] \<or> origin \<in> set (rg_Origins reg) \<or> (rg_Insecure reg \<and> rg_Origins reg = [])) \<and>
         (withoutSecret \<or> rg_Secret reg = [] \<or> secret = rg_Secret reg)
     | None \<Rightarrow> dt_Trusted d \<and>
         (\<exists>t u. rs_trustedURI r = Some t \<and> url_parse origin = Some u \<and>
            (url_Scheme u = [] \<or> url_Scheme u = url_Scheme t \<and> url_Host u = url_Host t)))"
proof -
  have "clientID \<noteq> []" using assms(2) by (auto simp: registry_Lookup_def)
  moreover have "registration = None \<Longrightarrow> ?thesis"
    using Lookup_unregistered [of url_parse r clientID secret origin withoutSecret d] assms(2) calculation by simp
  moreover have "registration = Some reg \<Longrightarrow> ?thesis" for reg
    using Lookup_registered [OF assms(1), of url_parse clientID secret origin withoutSecret d reg] assms(2) calculation by simp
  ultimately show ?thesis by (cases registration) blast+
qed

text \<open>The example registry, with and without a trusted URI, and a parser that knows one URL.\<close>

definition example_url :: url where
  "example_url = \<lparr>url_Scheme = ''https'', url_Host = ''b''\<rparr>"

definition example_trusting :: "unit Registry" where
  "example_trusting = example_registry\<lparr>rs_trustedURI := Some example_url\<rparr>"

theorem Lookup_authorized_witness:
  "(\<exists>d. registry_Lookup (\<lambda>_. None) example_registry ''app'' ''s3'' ''https://a'' False =
       LookupOk d (registry_Get example_registry ''app'') \<and> dt_ID d = ''app'') \<and>
   (\<exists>d. registry_Lookup (\<lambda>_. Some example_url) example_trusting ''other'' [] ''https://b'' False = LookupOk d None \<and> dt_Trusted d) \<and>
   \<not> (\<exists>d registration. registry_Lookup (\<lambda>_. None) example_registry ''other'' [] ''https://b'' False = LookupOk d registration)"
proof -
  have wf: "registry_wf example_registry" "registry_wf example_trusting"
    by (simp_all add: registry_wf_def example_trusting_def example_registry_def example_client_def gm_wf_def)
  obtain d where l: "registry_Lookup (\<lambda>_. None) example_registry ''app'' ''s3'' ''https://a'' False =
       LookupOk d (registry_Get example_registry ''app'')"
    by (simp add: registry_Lookup_def example_registry_def example_client_def Validate_def registry_Get_def)
  obtain e where o: "registry_Lookup (\<lambda>_. Some example_url) example_trusting ''other'' [] ''https://b'' False = LookupOk e None"
    by (simp add: registry_Lookup_def example_trusting_def example_registry_def implicitly_trusted_def)
  have n: "registry_Lookup (\<lambda>_. None) example_registry ''other'' [] ''https://b'' False \<noteq> LookupOk d' registration"
    for d' registration
    using Lookup_authorized [OF wf(1), of "\<lambda>_. None" "''other''" "[]" "''https://b''" False d' registration]
    by (auto simp: registry_Get_def example_registry_def)
  show ?thesis
    using l o n Lookup_authorized [OF wf(1) l] Lookup_authorized [OF wf(2) o] by auto
qed

end
