(* ===== verification/Guest.thy ===== *)
theory Guest
  imports Http Clients
begin

text \<open>
  \<open>src/signaling/guest\<close>: which groups a guest may enter (\<open>manager.go\<close>) and the logon that issues a signed
  request object for a public path (\<open>http.go\<close>, \<open>guest.go\<close>, \<open>utils.go\<close>). Arguments stand for
  \<open>kcoidc.AuthorizedClaimsFromClaims\<close>, the compiled regular expression, the HTML sanitizer, the random
  words, the lookup of a signing method and the signature.
\<close>

section \<open>Claims (\<open>guest.go\<close>)\<close>

definition RequestGuestClaim :: string where "RequestGuestClaim = ''guest''"
definition guestTypeSimple :: string where "guestTypeSimple = ''1''"
definition guestClaim :: string where "guestClaim = ''kopano/kwm/guest''"
definition guestDisplayNamePrefix :: string where "guestDisplayNamePrefix = ''(Guest)''"

record guest_Claims =
  gc_Type :: string
  gc_Path :: string

text \<open>\<open>x.(map[string]interface{})\<close> and \<open>x.(string)\<close>: type assertions that give nil or empty on failure.\<close>

definition as_map :: "json option \<Rightarrow> (string, json) gomap option" where
  "as_map j = (case j of Some (JObj kvs) \<Rightarrow> Some (fold (\<lambda>(k, v) m. gm_set k v m) kvs []) | _ \<Rightarrow> None)"

definition as_string :: "json option \<Rightarrow> string" where
  "as_string j = (case j of Some (JStr s) \<Rightarrow> s | _ \<Rightarrow> [])"

definition newClaimsFromMap :: "(string, json) gomap \<Rightarrow> string + guest_Claims" where
  "newClaimsFromMap claims =
     (let c = \<lparr>gc_Type = as_string (gm_get claims ''type''), gc_Path = as_string (gm_get claims ''path'')\<rparr>
      in if gc_Type c = [] then Inl ''no type in guest claims'' else Inr c)"

text \<open>The JSON of \<open>passthruClaims\<close>.\<close>

definition json_of_passthru :: "guest_Claims option \<Rightarrow> json" where
  "json_of_passthru g = JObj (fld_opt guestClaim (map_option (\<lambda>c.
     JObj (fld ''type'' (JStr (gc_Type c)) @ fld_str ''path'' (gc_Path c))) g))"

record ClaimsRequestValue =
  cv_Essential :: bool
  cv_Value :: json

record ClaimsRequest =
  cq_IDToken :: "(string, ClaimsRequestValue) gomap"
  cq_Passthru :: json

record RequestObjectClaims =
  ro_ClientID :: string
  ro_RawResponseType :: string
  ro_RawScope :: string
  ro_Claims :: ClaimsRequest

definition SetPassthru :: "guest_Claims option \<Rightarrow> ClaimsRequest \<Rightarrow> ClaimsRequest" where
  "SetPassthru g cr = cr\<lparr>cq_Passthru := json_of_passthru g\<rparr>"

section \<open>Manager (\<open>manager.go\<close>)\<close>

record 'k guest_Manager =
  gm_allowGuestOnlyChannels :: bool
  gm_publicPattern :: "(string \<Rightarrow> bool) option"
  gm_clients :: "'k Registry option"

text \<open>A pattern that does not compile is logged and leaves the manager without public rooms.\<close>

definition guest_NewManager ::
  "(string \<Rightarrow> (string \<Rightarrow> bool) option) \<Rightarrow> 'k Registry option \<Rightarrow> bool \<Rightarrow> string \<Rightarrow> 'k guest_Manager" where
  "guest_NewManager regexp_compile clients allowGuestOnlyChannels publicPatternString =
     \<lparr>gm_allowGuestOnlyChannels = allowGuestOnlyChannels,
      gm_publicPattern = (if publicPatternString \<noteq> [] then regexp_compile publicPatternString else None),
      gm_clients = clients\<rparr>"

text \<open>
  \<open>ApplyRestrictions\<close> changes the token in place, also when it returns an error. The claims are what
  \<open>AuthorizedClaimsFromClaims\<close> returned.
\<close>

definition ApplyRestrictions ::
  "(string, json) gomap option \<Rightarrow> AdminAuthToken \<Rightarrow> 'k guest_Manager \<Rightarrow> string option \<times> AdminAuthToken" where
  "ApplyRestrictions authorizedClaims auth m =
     (let auth1 = auth\<lparr>at_GroupRestriction := Some [], at_CanCreateChannels := gm_allowGuestOnlyChannels m\<rparr>
      in case authorizedClaims of
           None \<Rightarrow> (None, auth1)
         | Some ac \<Rightarrow>
             (case as_map (gm_get ac ''passthru'') of
                None \<Rightarrow> (None, auth1)
              | Some passthru \<Rightarrow>
                  (case as_map (gm_get passthru guestClaim) of
                     None \<Rightarrow> (None, auth1)
                   | Some gclaim \<Rightarrow>
                       (case newClaimsFromMap gclaim of
                          Inl e \<Rightarrow> (Some e, auth1)
                        | Inr gc \<Rightarrow>
                            if gc_Type gc = guestTypeSimple then
                              (None, auth1\<lparr>at_GroupRestriction := Some (gm_set (gc_Path gc) True [])\<rparr>)
                            else (Some ''unknown guest type in guest claims'', auth1)))))"

definition isValidPublicPath :: "string \<Rightarrow> 'k guest_Manager \<Rightarrow> bool" where
  "isValidPublicPath path m = (case gm_publicPattern m of None \<Rightarrow> False | Some matches \<Rightarrow> matches path)"

section \<open>Logon (\<open>http.go\<close>, \<open>utils.go\<close>)\<close>

text \<open>
  \<open>strings.Title\<close> on ASCII words: a letter after a separator (not a letter, digit or underscore) becomes
  upper case.
\<close>

definition title_separator :: "char \<Rightarrow> bool" where
  "title_separator c \<longleftrightarrow>
     c \<notin> set ''abcdefghijklmnopqrstuvwxyzABCDEFGHIJKLMNOPQRSTUVWXYZ0123456789_''"

fun title_words :: "bool \<Rightarrow> string \<Rightarrow> string" where
  "title_words _ [] = []"
| "title_words start (c # cs) =
     (if start \<and> CHR ''a'' \<le> c \<and> c \<le> CHR ''z'' then char_of (of_char c - 32 :: nat) else c) #
     title_words (title_separator c) cs"

definition guestDisplayName ::
  "(string \<Rightarrow> string) \<Rightarrow> string \<times> string \<times> string \<Rightarrow> string \<Rightarrow> string" where
  "guestDisplayName sanitize words name =
     (let n = sanitize (trim_space name)
      in guestDisplayNamePrefix @
         (if n = [] then (case words of (adj1, adj2, noun) \<Rightarrow> title_words True (adj1 @ '' '' @ adj2 @ noun))
          else n))"

record GuestLogonResponse =
  gl_request :: string
  gl_ID :: string
  gl_Name :: string

text \<open>The external functions of one logon.\<close>

record ('k, 'pub, 'priv) logon_env =
  le_urlParse :: "string \<Rightarrow> url option"
  le_signingMethod :: "string \<Rightarrow> bool"
  le_decodePublic :: "'k \<Rightarrow> string + 'pub"
  le_decodePrivate :: "'k \<Rightarrow> string + 'priv"
  le_sanitize :: "string \<Rightarrow> string"
  le_words :: "string \<times> string \<times> string"
  le_random :: string
  le_sign :: "string \<Rightarrow> string \<Rightarrow> RequestObjectClaims \<Rightarrow> 'priv \<Rightarrow> string + string"

definition guest_id :: "string \<Rightarrow> string \<Rightarrow> string" where
  "guest_id rnd guest = rnd @ ''@'' @ guest @ ''.kwmguest''"

text \<open>
  The last part of the handler, once the path is accepted: the client is looked up, the request
  object is built and signed. \<open>done\<close> are the writes made before.
\<close>

definition logon_request ::
  "('k, 'pub, 'priv) logon_env \<Rightarrow> http_request \<Rightarrow> guest_Claims \<Rightarrow> RequestObjectClaims" where
  "logon_request env req gc =
     \<lparr>ro_ClientID = form_get ''client_id'' req, ro_RawResponseType = form_get ''response_type'' req,
      ro_RawScope = form_get ''scope'' req,
      ro_Claims = (SetPassthru (Some gc) \<lparr>cq_IDToken = [], cq_Passthru = JNull\<rparr>)
        \<lparr>cq_IDToken :=
          [(RequestGuestClaim, \<lparr>cv_Essential = True,
              cv_Value = JStr (guest_id (le_random env) (form_get ''guest'' req))\<rparr>),
           (''name'', \<lparr>cv_Essential = False,
              cv_Value = JStr (guestDisplayName (le_sanitize env) (le_words env) (form_get ''name'' req))\<rparr>)]\<rparr>\<rparr>"

definition logon_client ::
  "('k, 'pub, 'priv) logon_env \<Rightarrow> http_request \<Rightarrow> GuestLogonResponse http_write list \<Rightarrow> guest_Claims \<Rightarrow>
   'k Registry \<Rightarrow> GuestLogonResponse http_result" where
  "logon_client env req done gc clients =
     (let denied = HttpWrites (done @ [HttpError ''guest access denied'' StatusForbidden])
      in case registry_Lookup (le_urlParse env) clients (form_get ''client_id'' req) [] [] True of
           LookupPanic \<Rightarrow> HttpPanic
         | LookupErr _ \<Rightarrow> denied
         | LookupOk _ None \<Rightarrow> denied
         | LookupOk _ (Some client) \<Rightarrow>
             if \<not> le_signingMethod env (rg_RawRequestObjectSigningAlg client) then denied
             else (case Private (le_decodePublic env) (le_decodePrivate env) None client of
                     Inl _ \<Rightarrow> denied
                   | Inr secured \<Rightarrow>
                       (case sc_PrivateKey secured of
                          None \<Rightarrow> HttpPanic
                        | Some priv \<Rightarrow>
                            (case le_sign env (rg_RawRequestObjectSigningAlg client) (sc_Kid secured)
                                    (logon_request env req gc) priv of
                               Inl _ \<Rightarrow> HttpPanic
                             | Inr requestString \<Rightarrow>
                                 HttpWrites (done @ [HttpJson \<lparr>gl_request = requestString,
                                   gl_ID = guest_id (le_random env) (form_get ''guest'' req),
                                   gl_Name = form_get ''name'' req\<rparr>])))))"

text \<open>
  The handler. \<open>formErr\<close> is the error of \<open>ParseForm\<close>, if any. An empty client id is reported but does
  not end the handler.
\<close>

definition HTTPLogonHandler ::
  "('k, 'pub, 'priv) logon_env \<Rightarrow> string option \<Rightarrow> http_request \<Rightarrow> 'k guest_Manager \<Rightarrow>
   GuestLogonResponse http_result" where
  "HTTPLogonHandler env formErr req m =
     (if rq_method req \<noteq> ''POST'' then HttpWrites [HttpError [] StatusMethodNotAllowed]
      else case gm_clients m of
        None \<Rightarrow> HttpWrites [HttpError ''guest access is not set up'' StatusNotFound]
      | Some clients \<Rightarrow>
          (case formErr of
             Some e \<Rightarrow> HttpWrites [HttpError e StatusBadRequest]
           | None \<Rightarrow>
               (let done = (if form_get ''client_id'' req = []
                      then [HttpError ''client_id is empty'' StatusBadRequest] else []);
                    guest = form_get ''guest'' req
                in if guest = guestTypeSimple then
                     (let path = trim_space (form_get ''path'' req)
                      in if path = [] then HttpWrites (done @ [HttpError ''empty path'' StatusBadRequest])
                         else if form_get ''token'' req \<noteq> [] then
                           HttpWrites (done @ [HttpError ''token validation not implemented'' StatusNotImplemented])
                         else if \<not> isValidPublicPath path m then
                           HttpWrites (done @ [HttpError ''guest access denied'' StatusForbidden])
                         else logon_client env req done \<lparr>gc_Type = guest, gc_Path = path\<rparr> clients)
                   else HttpWrites (done @ [HttpError ''unknown guest type'' StatusBadRequest]))))"

section \<open>Lemmas\<close>

text \<open>The guest object of authorized claims: the object under the guest claim of their \<open>passthru\<close> object.\<close>

definition guest_object :: "(string, json) gomap option \<Rightarrow> (string, json) gomap option" where
  "guest_object authorizedClaims =
     (case authorizedClaims of
        None \<Rightarrow> None
      | Some ac \<Rightarrow> (case as_map (gm_get ac ''passthru'') of
                      None \<Rightarrow> None
                    | Some passthru \<Rightarrow> as_map (gm_get passthru guestClaim)))"

lemma as_map_passthru:
  "as_map (Some (json_of_passthru (Some gc))) =
     Some [(guestClaim, JObj (fld ''type'' (JStr (gc_Type gc)) @ fld_str ''path'' (gc_Path gc)))]"
  by (simp add: as_map_def json_of_passthru_def fld_opt_def)

lemma newClaimsFromMap_issued:
  assumes "gc_Type gc \<noteq> []" and "gc_Path gc \<noteq> []"
  shows "as_map (Some (JObj (fld ''type'' (JStr (gc_Type gc)) @ fld_str ''path'' (gc_Path gc)))) =
      Some [(''type'', JStr (gc_Type gc)), (''path'', JStr (gc_Path gc))]"
    and "newClaimsFromMap [(''type'', JStr (gc_Type gc)), (''path'', JStr (gc_Path gc))] = Inr gc"
  using assms by (simp_all add: as_map_def json_fld_defs newClaimsFromMap_def as_string_def)

lemma logon_success:
  assumes "HTTPLogonHandler env formErr req m = HttpWrites ws" and "HttpJson resp \<in> set ws"
  obtains clients where "gm_clients m = Some clients"
    "form_get ''guest'' req = guestTypeSimple" "trim_space (form_get ''path'' req) \<noteq> []"
    "isValidPublicPath (trim_space (form_get ''path'' req)) m"
    "logon_client env req (if form_get ''client_id'' req = []
        then [HttpError ''client_id is empty'' StatusBadRequest] else [])
      \<lparr>gc_Type = guestTypeSimple, gc_Path = trim_space (form_get ''path'' req)\<rparr> clients = HttpWrites ws"
  using assms
  by (auto simp: HTTPLogonHandler_def Let_def split: if_splits option.splits)

lemma logon_client_success:
  assumes "logon_client env req done gc clients = HttpWrites ws" and "HttpJson resp \<in> set ws"
    and "\<forall>w \<in> set done. \<exists>msg n. w = HttpError msg n"
  shows "\<exists>client priv. registry_Get clients (form_get ''client_id'' req) = Some client \<and>
    form_get ''client_id'' req \<noteq> [] \<and>
    (\<exists>kid. le_sign env (rg_RawRequestObjectSigningAlg client) kid (logon_request env req gc) priv =
      Inr (gl_request resp))"
  using assms
  by (fastforce simp: logon_client_def Let_def registry_Lookup_def registry_Get_def
      split: if_splits option.splits sum.splits lookup_result.splits)

section \<open>Properties\<close>

text \<open>
  C36. When the restrictions of a guest are applied without error, the guest's token is changed in exactly
  two fields. It may create channels only if the server allows guest-only channels, and it may enter
  at most one group. Authorized claims without a guest object under \<open>passthru\<close> open no group. With such
  an object, which is then of the simple guest type, the one open group is the object's path, which
  is the empty string when the object has no path: the messages without a group are open to that
  guest.
\<close>

theorem guest_restricted_to_one_group:
  assumes "ApplyRestrictions authorizedClaims auth m = (None, auth')"
  shows "auth' = auth\<lparr>at_CanCreateChannels := gm_allowGuestOnlyChannels m,
      at_GroupRestriction := Some (case guest_object authorizedClaims of
        None \<Rightarrow> []
      | Some g \<Rightarrow> [(as_string (gm_get g ''path''), True)])\<rparr> \<and>
    (\<forall>g. guest_object authorizedClaims = Some g \<longrightarrow> gm_get g ''type'' = Some (JStr ''1''))"
  using assms
  by (auto simp: ApplyRestrictions_def guest_object_def Let_def newClaimsFromMap_def guestTypeSimple_def as_string_def
      split: option.splits sum.splits if_splits json.splits)

definition example_guest_manager :: "unit guest_Manager" where
  "example_guest_manager = \<lparr>gm_allowGuestOnlyChannels = False,
     gm_publicPattern = Some (\<lambda>p. has_prefix p ''group/public/''), gm_clients = Some example_registry\<rparr>"

theorem guest_restricted_to_one_group_witness:
  "\<exists>auth'. ApplyRestrictions (Some [(''passthru'', json_of_passthru (Some \<lparr>gc_Type = ''1'', gc_Path = ''g''\<rparr>))])
       zero_auth_token example_guest_manager = (None, auth') \<and> at_GroupRestriction auth' = Some [(''g'', True)]"
proof -
  obtain auth' where a: "ApplyRestrictions
       (Some [(''passthru'', json_of_passthru (Some \<lparr>gc_Type = ''1'', gc_Path = ''g''\<rparr>))])
       zero_auth_token example_guest_manager = (None, auth')"
    using newClaimsFromMap_issued [of "\<lparr>gc_Type = ''1'', gc_Path = ''g''\<rparr>"]
    by (simp add: ApplyRestrictions_def as_map_passthru guestTypeSimple_def Let_def)
  have "guest_object (Some [(''passthru'', json_of_passthru (Some \<lparr>gc_Type = ''1'', gc_Path = ''g''\<rparr>))]) =
      Some [(''type'', JStr ''1''), (''path'', JStr ''g'')]"
    using newClaimsFromMap_issued [of "\<lparr>gc_Type = ''1'', gc_Path = ''g''\<rparr>"]
    by (simp add: guest_object_def as_map_passthru)
  with a guest_restricted_to_one_group [OF a] show ?thesis by (simp add: as_string_def)
qed

text \<open>
  C37. A successful logon was a POST for a non-blank path that the public pattern matches, by a client
  that is registered under the id it gave; and the claims it had signed, when they come back in an
  access token, restrict the guest to exactly that path.
\<close>

theorem logon_grants_exactly_path:
  assumes "HTTPLogonHandler env formErr req m = HttpWrites ws" and "HttpJson resp \<in> set ws"
    and "path = trim_space (form_get ''path'' req)"
  shows "isValidPublicPath path m \<and> path \<noteq> [] \<and>
    (\<exists>clients client alg kid priv request. gm_clients m = Some clients \<and>
       registry_Get clients (form_get ''client_id'' req) = Some client \<and>
       le_sign env alg kid request priv = Inr (gl_request resp) \<and>
       ro_ClientID request = form_get ''client_id'' req \<and>
       ApplyRestrictions (Some [(''passthru'', cq_Passthru (ro_Claims request))]) auth m =
         (None, auth\<lparr>at_GroupRestriction := Some [(path, True)],
                     at_CanCreateChannels := gm_allowGuestOnlyChannels m\<rparr>))"
proof -
  obtain clients where g: "gm_clients m = Some clients" and p: "path \<noteq> []" "isValidPublicPath path m"
    and l: "logon_client env req (if form_get ''client_id'' req = []
        then [HttpError ''client_id is empty'' StatusBadRequest] else [])
      \<lparr>gc_Type = guestTypeSimple, gc_Path = path\<rparr> clients = HttpWrites ws"
    using logon_success [OF assms(1,2)] assms(3) by metis
  let ?gc = "\<lparr>gc_Type = guestTypeSimple, gc_Path = path\<rparr>"
  let ?request = "logon_request env req ?gc"
  from logon_client_success [OF l assms(2)] obtain client priv kid where
    c: "registry_Get clients (form_get ''client_id'' req) = Some client"
    and s: "le_sign env (rg_RawRequestObjectSigningAlg client) kid ?request priv = Inr (gl_request resp)"
    by auto
  have "cq_Passthru (ro_Claims ?request) = json_of_passthru (Some ?gc)"
    and "ro_ClientID ?request = form_get ''client_id'' req"
    by (simp_all add: logon_request_def SetPassthru_def)
  moreover have "ApplyRestrictions (Some [(''passthru'', json_of_passthru (Some ?gc))]) auth m =
      (None, auth\<lparr>at_GroupRestriction := Some [(path, True)],
                  at_CanCreateChannels := gm_allowGuestOnlyChannels m\<rparr>)"
    using newClaimsFromMap_issued [of ?gc] p
    by (simp add: ApplyRestrictions_def as_map_passthru guestTypeSimple_def Let_def)
  ultimately show ?thesis
    using g p c s by (metis (no_types, lifting))
qed

definition example_logon_env :: "(unit, unit, unit) logon_env" where
  "example_logon_env = \<lparr>le_urlParse = (\<lambda>_. Some \<lparr>url_Scheme = [], url_Host = []\<rparr>),
     le_signingMethod = (\<lambda>a. a = ''ES256''), le_decodePublic = (\<lambda>_. Inr ()), le_decodePrivate = (\<lambda>_. Inr ()),
     le_sanitize = (\<lambda>n. n), le_words = (''red'', ''big'', ''cat''), le_random = ''r'',
     le_sign = (\<lambda>alg kid request priv. Inr (alg @ kid @ ro_ClientID request))\<rparr>"

definition example_logon_manager :: "unit guest_Manager" where
  "example_logon_manager = \<lparr>gm_allowGuestOnlyChannels = False,
     gm_publicPattern = Some (\<lambda>p. has_prefix p ''pub/''),
     gm_clients = Some \<lparr>rs_trustedURI = None, rs_clients = [(''app'',
       example_client\<lparr>rg_ApplicationType := ApplicationTypeWeb,
         rg_JWKS := Some [\<lparr>jwk_Kid = ''k1'', jwk_Use = ''sig'', jwk_material = ()\<rparr>]\<rparr>)]\<rparr>\<rparr>"

definition example_logon_request :: http_request where
  "example_logon_request = \<lparr>rq_method = ''POST'', rq_authorization = [],
     rq_form = [(''client_id'', ''app''), (''guest'', ''1''), (''path'', '' pub/a ''), (''name'', ''Ann'')],
     rq_body = Inr None\<rparr>"

theorem logon_grants_exactly_path_witness:
  "HTTPLogonHandler example_logon_env None example_logon_request example_logon_manager =
     HttpWrites [HttpJson \<lparr>gl_request = ''ES256k1app'', gl_ID = ''r@1.kwmguest'', gl_Name = ''Ann''\<rparr>] \<and>
   isValidPublicPath ''pub/a'' example_logon_manager"
proof -
  have t: "trim_space '' pub/a '' = ''pub/a''" by code_simp
  have p: "''pub/a'' = trim_space (form_get ''path'' example_logon_request)"
    by (simp add: t form_get_def example_logon_request_def)
  have h: "HTTPLogonHandler example_logon_env None example_logon_request example_logon_manager =
     HttpWrites [HttpJson \<lparr>gl_request = ''ES256k1app'', gl_ID = ''r@1.kwmguest'', gl_Name = ''Ann''\<rparr>]"
    by (simp add: HTTPLogonHandler_def example_logon_env_def example_logon_request_def
        example_logon_manager_def example_client_def form_get_def guestTypeSimple_def t
        isValidPublicPath_def has_prefix_def logon_client_def registry_Lookup_def
        Validate_def Private_def findKeyByKid_def logon_request_def guest_id_def Let_def)
  from logon_grants_exactly_path [OF h _ p] h show ?thesis by simp
qed

end
