(* ===== verification/Rtm_Http.thy ===== *)
theory Rtm_Http
  imports Mcu_Pipeline Guest
begin

text \<open>
  The HTTP side of RTM (\<open>src/signaling/rtm/http.go\<close>, \<open>handlers.go\<close>): authentication of a request, the
  connect and TURN handlers, and the websocket handler that trades a connect key for a connection.
  The OIDC provider, the JWT library, the router and the websocket upgrade are arguments.
\<close>

section \<open>Environment\<close>

datatype oidc_error = ErrStatusTokenExpiredOrNotValidYet | OidcError string

record oidc_std =
  os_Subject :: string
  os_Issuer :: string
  os_ExpiresAt :: int

record oidc_validation =
  ov_user :: string
  ov_std :: "oidc_std option"
  ov_claims :: "(string, json) gomap option"
  ov_err :: "oidc_error option"

text \<open>
  The functions of \<open>kcoidc\<close> the code calls: \<open>ValidateTokenString\<close>, the test for an access token, \<open>Valid\<close>,
  \<open>RequireScopesInClaims\<close>, \<open>AuthenticatedUserIsGuest\<close>, \<open>AuthorizedClaimsFromClaims\<close>, the name of the identity claim
  and the text of \<open>ErrStatusTokenExpiredOrNotValidYet\<close>.
\<close>

record oidc_provider =
  oi_validate :: "string \<Rightarrow> oidc_validation"
  oi_isAccessToken :: "(string, json) gomap \<Rightarrow> bool"
  oi_claimsValid :: "(string, json) gomap \<Rightarrow> bool"
  oi_hasScopes :: "(string, json) gomap \<Rightarrow> string list \<Rightarrow> bool"
  oi_isGuest :: "(string, json) gomap \<Rightarrow> bool"
  oi_authorizedClaims :: "(string, json) gomap \<Rightarrow> (string, json) gomap option"
  oi_identityClaim :: string
  oi_expiredText :: string

record 'k http_env =
  hv_rtm :: rtm_env
  hv_jwt_parse :: jwt_parser
  hv_oidc :: oidc_provider
  hv_guestm :: "'k guest_Manager option"
  hv_turn :: turn_env
  hv_urlPath :: "string \<Rightarrow> string option"

section \<open>Authentication\<close>

text \<open>The claims of the id token of the form, if there is one: refused, panicked, or its claims.\<close>

datatype id_token_result = IdPanic | IdRefused | IdClaims "(string, json) gomap option"

definition check_id_token :: "oidc_provider \<Rightarrow> oidc_std \<Rightarrow> string \<Rightarrow> id_token_result" where
  "check_id_token oidc std idTokenString =
     (if idTokenString = [] then IdClaims None
      else
        let v = oi_validate oidc idTokenString;
            idErr = (if ov_err v = Some ErrStatusTokenExpiredOrNotValidYet then None else ov_err v)
        in if idErr \<noteq> None then IdRefused
           else case ov_std v of
             None \<Rightarrow> IdPanic
           | Some idStd \<Rightarrow>
               if os_Subject idStd \<noteq> os_Subject std \<or> os_Issuer idStd \<noteq> os_Issuer std then IdRefused
               else case ov_claims v of None \<Rightarrow> IdPanic | Some idExtra \<Rightarrow> IdClaims (Some idExtra))"

text \<open>Auth mode 1 takes the user name of the identity claims as the subject, when it is there.\<close>

definition identified_user :: "oidc_provider \<Rightarrow> (string, json) gomap \<Rightarrow> string \<Rightarrow> string" where
  "identified_user oidc claims subject =
     (case as_map (gm_get claims (oi_identityClaim oidc)) of
        None \<Rightarrow> subject
      | Some identityClaims \<Rightarrow>
          (let name = as_string (gm_get identityClaims ''kc.i.un'') in if name = [] then subject else name))"

definition bearer_auth ::
  "'k http_env \<Rightarrow> rtm_Manager \<Rightarrow> string \<Rightarrow> string \<Rightarrow> http_request \<Rightarrow> AdminAuthToken auth_result \<times> http_request" where
  "bearer_auth env m scheme value req =
     (let oidc = hv_oidc env; v = oi_validate oidc value
      in case (ov_err v, ov_claims v) of
           (None, Some claims) \<Rightarrow>
             if \<not> oi_isAccessToken oidc claims \<or> \<not> oi_claimsValid oidc claims \<or>
                (rm_requiredScopes m \<noteq> [] \<and> \<not> oi_hasScopes oidc claims (rm_requiredScopes m))
             then (AuthDenied, req)
             else (case ov_std v of
               None \<Rightarrow> (AuthPanic, req)
             | Some std \<Rightarrow>
                 (case check_id_token oidc std (form_get ''id_token'' req) of
                    IdPanic \<Rightarrow> (AuthPanic, req)
                  | IdRefused \<Rightarrow> (AuthDenied, req)
                  | IdClaims userClaims \<Rightarrow>
                      (let mode = form_get ''auth'' req;
                           auth = zero_auth_token\<lparr>at_Subject := ov_user v, at_Type := scheme, at_Value := value,
                             at_ExpiresAt := os_ExpiresAt std, at_Claims := userClaims, at_Auth := mode,
                             at_CanCreateChannels := True\<rparr>
                       in if mode \<notin> {[], ''0'', ''1''} then (AuthDenied, req)
                          else
                            let auth1 = (if mode = ''1'' then auth\<lparr>at_Subject := identified_user oidc claims (at_Subject auth)\<rparr> else auth);
                                req1 = form_set ''user'' (at_Subject auth1) req
                            in if \<not> oi_isGuest oidc claims then (AuthOk auth1, req1)
                               else case hv_guestm env of
                                 None \<Rightarrow> (AuthDenied, req1)
                               | Some guestm \<Rightarrow>
                                   (case ApplyRestrictions (oi_authorizedClaims oidc claims) auth1 guestm of
                                      (None, auth2) \<Rightarrow> (AuthOk auth2, req1)
                                    | (Some e, _) \<Rightarrow> (AuthDenied, req1)))))
         | _ \<Rightarrow> (AuthDenied, req))"

definition grant_create :: "AdminAuthToken auth_result \<Rightarrow> AdminAuthToken auth_result" where
  "grant_create r = (case r of AuthOk auth \<Rightarrow> AuthOk (auth\<lparr>at_CanCreateChannels := True\<rparr>) | _ \<Rightarrow> r)"

definition isRequestWithValidAuth ::
  "'k http_env \<Rightarrow> http_request \<Rightarrow> world \<Rightarrow> AdminAuthToken auth_result \<times> http_request \<times> world" where
  "isRequestWithValidAuth env req w =
     (case split_n2 (CHR '' '') (rq_authorization req) of
        [scheme, value] \<Rightarrow>
          if scheme = AdminAuthTokenTypeToken then
            (case IsValidAdminAuthTokenRequest (hv_jwt_parse env) (en_now (hv_rtm env)) req (w_admin w) of
               (r, adm) \<Rightarrow> (grant_create r, req, w\<lparr>w_admin := adm\<rparr>))
          else if scheme = BearerAuthTypeToken then
            if rm_oidc (w_rtm w) then
              (case bearer_auth env (w_rtm w) scheme value req of (r, req1) \<Rightarrow> (r, req1, w))
            else (AuthDenied, req, w)
          else if scheme = BasicAuthTypeToken then
            (case IsValidBasicAuthRequest (en_now (hv_rtm env)) req (w_admin w) of
               (r, adm) \<Rightarrow> (grant_create r, req, w\<lparr>w_admin := adm\<rparr>))
          else (AuthDenied, req, w)
      | _ \<Rightarrow> (AuthDenied, req, w))"

section \<open>Connect and TURN handlers\<close>

record RTMConnectResponse =
  rc_URL :: string
  rc_Self :: Self
  rc_TURN :: "ClientConfig option"
  rc_ServerStatus :: "ServerStatus option"

text \<open>
  The part both handlers share: authentication, the user parameter, its comparison with the subject,
  and the refresh of the token.
\<close>

definition authorize_user ::
  "'k http_env \<Rightarrow> string \<Rightarrow> http_request \<Rightarrow> world \<Rightarrow> ('b http_result + string \<times> AdminAuthToken) \<times> world" where
  "authorize_user env denied req w =
     (case isRequestWithValidAuth env req w of
        (AuthPanic, _, w1) \<Rightarrow> (Inl HttpPanic, w1)
      | (AuthDenied, _, w1) \<Rightarrow> (Inl (HttpWrites [HttpError denied StatusForbidden]), w1)
      | (AuthOk auth, req1, w1) \<Rightarrow>
          (let user = form_get ''user'' req1
           in if user = [] then (Inl (HttpWrites [HttpError ''missing user parameter'' StatusBadRequest]), w1)
              else if \<not> rm_insecure (w_rtm w1) \<and> user \<noteq> at_Subject auth then
                (Inl (HttpWrites [HttpError ''user does not match auth'' StatusForbidden]), w1)
              else (Inr (user, auth),
                w1\<lparr>w_admin := snd (RefreshAdminAuthToken (en_now (hv_rtm env)) auth (w_admin w1))\<rparr>)))"

definition HTTPConnectHandler :: "'k http_env \<Rightarrow> http_request \<Rightarrow> world \<Rightarrow> RTMConnectResponse http_result \<times> world" where
  "HTTPConnectHandler env req w =
     (case authorize_user env ''auth failed'' req w of
        (Inl res, w1) \<Rightarrow> (res, w1)
      | (Inr (user, auth), w1) \<Rightarrow>
          (case rtm_Connect (hv_rtm env) user (Some auth) w1 of
             (key, w2) \<Rightarrow>
               (case hv_urlPath env key of
                  None \<Rightarrow> (HttpWrites [HttpError ''request failed'' StatusInternalServerError], w2)
                | Some url \<Rightarrow>
                    (let respond = (\<lambda>turn. (HttpWrites [HttpJson \<lparr>rc_URL = url,
                            rc_Self = \<lparr>self_ID = user, self_Name = token_Name auth, self_Auth = at_Auth auth\<rparr>,
                            rc_TURN = turn, rc_ServerStatus = getServerStatus w2\<rparr>],
                          inc_metric (mt_httpConnect_update Suc) w2))
                     in case rm_turnsrv (w_rtm w2) of
                          None \<Rightarrow> respond None
                        | Some srv \<Rightarrow>
                            (case turn_GetConfig (hv_turn env) srv user of
                               Inl e \<Rightarrow> (HttpWrites [HttpError ''TURN config failed'' StatusServiceUnavailable], w2)
                             | Inr cfg \<Rightarrow> respond (Some cfg))))))"

definition HTTPTURNHandler :: "'k http_env \<Rightarrow> http_request \<Rightarrow> world \<Rightarrow> ClientConfig http_result \<times> world" where
  "HTTPTURNHandler env req w =
     (case rm_turnsrv (w_rtm w) of
        None \<Rightarrow> (HttpWrites [http_NotFound], w)
      | Some srv \<Rightarrow>
          (case authorize_user env [] req w of
             (Inl res, w1) \<Rightarrow> (res, w1)
           | (Inr (user, auth), w1) \<Rightarrow>
               (case turn_GetConfig (hv_turn env) srv user of
                  Inl e \<Rightarrow> (HttpWrites [HttpError ''TURN config failed'' StatusInternalServerError], w1)
                | Inr cfg \<Rightarrow> (HttpWrites [HttpJson cfg], inc_metric (mt_httpTURN_update Suc) w1))))"

section \<open>Websocket handler\<close>

text \<open>The check that the cached token is still good; basic auth has none.\<close>

definition oidc_error_text :: "oidc_provider \<Rightarrow> oidc_error \<Rightarrow> string" where
  "oidc_error_text oidc e = (case e of ErrStatusTokenExpiredOrNotValidYet \<Rightarrow> oi_expiredText oidc | OidcError s \<Rightarrow> s)"

definition recheck_auth :: "'k http_env \<Rightarrow> AdminAuthToken \<Rightarrow> world \<Rightarrow> string option" where
  "recheck_auth env auth w =
     (if at_Type auth = AdminAuthTokenTypeToken then
        if IsValidAdminAuthToken auth (w_admin w) then None else Some ''invalid or expired token''
      else if at_Type auth = BearerAuthTypeToken then
        if \<not> rm_oidc (w_rtm w) then Some ''bearer auth not enabled''
        else map_option (oidc_error_text (hv_oidc env)) (ov_err (oi_validate (hv_oidc env) (at_Value auth)))
      else None)"

definition rtm_new_conn :: "time \<Rightarrow> user_ref \<Rightarrow> world \<Rightarrow> conn_ref \<times> world" where
  "rtm_new_conn now u w =
     (let n = rm_count (w_rtm w) + 1; c = w_next w
      in (c, upd_conn c (\<lambda>_. Bind (Some (BoundUser u)) (conn_New (show_nat (unat n)) now))
               (upd_rtm (\<lambda>m. m\<lparr>rm_count := n\<rparr>) (w\<lparr>w_next := Suc c\<rparr>))))"

definition rtm_HandleWebsocketConnect :: "'k http_env \<Rightarrow> string \<Rightarrow> upgrade \<Rightarrow> world \<Rightarrow> ws_outcome \<times> world" where
  "rtm_HandleWebsocketConnect env key up w =
     (case keys_Pop key (w_rtm w) of
        (None, _) \<Rightarrow> (ws_refuse [http_NotFound] None, w)
      | (Some kr, m) \<Rightarrow>
          (let w1 = upd_rtm (\<lambda>_. m) w
           in case kr_user kr of
                None \<Rightarrow> (ws_refuse [HttpError [] StatusForbidden] None, w1)
              | Some u \<Rightarrow>
                  (case ur_auth (w_users w1 u) of
                     None \<Rightarrow> (ws_refuse [HttpError [] StatusForbidden] None, w1)
                   | Some auth \<Rightarrow>
                       (case recheck_auth env auth w1 of
                          Some e \<Rightarrow> (ws_refuse [HttpError e StatusForbidden] None, w1)
                        | None \<Rightarrow>
                            (case up of
                               UpgradeHandshakeError \<Rightarrow> (ws_refuse [] None, w1)
                             | UpgradeError e \<Rightarrow> (ws_refuse [] (Some e), w1)
                             | Upgraded _ \<Rightarrow>
                                 (let w2 = w1\<lparr>w_admin := snd (RefreshAdminAuthToken (en_now (hv_rtm env)) auth (w_admin w1))\<rparr>
                                  in case rtm_new_conn (en_now (hv_rtm env)) u w2 of
                                       (c, w3) \<Rightarrow> (\<lparr>wo_writes = [], wo_err = None, wo_conn = Some c\<rparr>, w3)))))))"

definition rtm_HTTPWebsocketHandler :: "'k http_env \<Rightarrow> string \<Rightarrow> string option \<Rightarrow> upgrade \<Rightarrow> world \<Rightarrow> ws_outcome \<times> world" where
  "rtm_HTTPWebsocketHandler env meth key up w =
     (if meth \<noteq> ''GET'' then (ws_refuse [HttpError [] StatusMethodNotAllowed] None, w)
      else case key of
        None \<Rightarrow> (ws_refuse [http_NotFound] None, w)
      | Some k \<Rightarrow>
          (case rtm_HandleWebsocketConnect env k up (inc_metric (mt_httpWebsocket_update Suc) w) of
             (out, w1) \<Rightarrow>
               (case wo_err out of
                  None \<Rightarrow> (out, w1)
                | Some e \<Rightarrow> (out\<lparr>wo_writes := wo_writes out @ [HttpError [] StatusInternalServerError]\<rparr>, w1))))"

text \<open>\<open>serveWebsocketConnection\<close>, before and after \<open>ServeWS\<close>.\<close>

definition rtm_serve_begin :: "conn_ref \<Rightarrow> world \<Rightarrow> world" where
  "rtm_serve_begin c w =
     upd_rtm (\<lambda>m. m\<lparr>rm_connections := gm_set (cn_id (w_conns w c)) c (rm_connections m)\<rparr>)
       (inc_metric (mt_connectionAdd_update Suc) w)"

definition rtm_serve_end :: "conn_ref \<Rightarrow> world \<Rightarrow> world" where
  "rtm_serve_end c w =
     inc_metric (mt_connectionRemove_update Suc)
       (upd_rtm (\<lambda>m. m\<lparr>rm_connections := gm_del (cn_id (w_conns w c)) (rm_connections m)\<rparr>) w)"

section \<open>What a granted request has proven\<close>

text \<open>
  The credentials behind a token, by the scheme of the authorization header. A token of the admin API
  was parsed and its signature not found invalid (a signature that could not be checked at all
  passes, a flaw of the code), and it is stored or not expired; subject and expiry are those of its
  claims. A bearer token was validated by the provider and is an access token with valid claims and
  the required scopes; an id token that comes with it was validated too (it may be expired) and is of
  the same subject and issuer; a guest has the restrictions of the guest manager. A basic value is one
  of the configured ones; it proves no particular user: the subject is the one the form names.
\<close>

inductive proven :: "'k http_env \<Rightarrow> http_request \<Rightarrow> world \<Rightarrow> AdminAuthToken \<Rightarrow> bool"
  for env :: "'k http_env" and req :: http_request and w :: world where
  admin_token:
    "rq_authorization req = ''Token '' @ value \<Longrightarrow>
     hv_jwt_parse env value (token_keyFunc (w_admin w)) = (Some token, err) \<Longrightarrow> jt_Claims token = Some claims \<Longrightarrow>
     (\<forall>flags. err = Some flags \<longrightarrow> ValidationErrorSignatureInvalid \<notin> set flags) \<Longrightarrow>
     auth = zero_auth_token\<lparr>at_Type := ''Token'', at_Subject := jc_Subject claims, at_ExpiresAt := jc_ExpiresAt claims,
       at_CanCreateChannels := True\<rparr> \<Longrightarrow>
     (\<exists>r t. gm_get (am_tokens (w_admin w)) (token_id auth) = Some r \<and> tk_token r = Some t) \<or>
       en_now (hv_rtm env) < time_unix (jc_ExpiresAt claims) \<Longrightarrow>
     proven env req w auth"
| bearer:
    "rq_authorization req = ''Bearer '' @ value \<Longrightarrow> rm_oidc (w_rtm w) \<Longrightarrow> oidc = hv_oidc env \<Longrightarrow>
     oi_validate oidc value = \<lparr>ov_user = user, ov_std = Some std, ov_claims = Some claims, ov_err = None\<rparr> \<Longrightarrow>
     oi_isAccessToken oidc claims \<Longrightarrow> oi_claimsValid oidc claims \<Longrightarrow>
     (rm_requiredScopes (w_rtm w) \<noteq> [] \<longrightarrow> oi_hasScopes oidc claims (rm_requiredScopes (w_rtm w))) \<Longrightarrow>
     (form_get ''id_token'' req \<noteq> [] \<longrightarrow> (\<exists>idStd. ov_std (oi_validate oidc (form_get ''id_token'' req)) = Some idStd \<and>
        ov_err (oi_validate oidc (form_get ''id_token'' req)) \<in> {None, Some ErrStatusTokenExpiredOrNotValidYet} \<and>
        os_Subject idStd = os_Subject std \<and> os_Issuer idStd = os_Issuer std)) \<Longrightarrow>
     form_get ''auth'' req \<in> {[], ''0'', ''1''} \<Longrightarrow>
     auth0 = zero_auth_token\<lparr>
       at_Subject := (if form_get ''auth'' req = ''1'' then identified_user oidc claims user else user),
       at_Type := ''Bearer'', at_Value := value, at_ExpiresAt := os_ExpiresAt std,
       at_Claims := (if form_get ''id_token'' req = [] then None else ov_claims (oi_validate oidc (form_get ''id_token'' req))),
       at_Auth := form_get ''auth'' req, at_CanCreateChannels := True\<rparr> \<Longrightarrow>
     (if oi_isGuest oidc claims
      then \<exists>guestm. hv_guestm env = Some guestm \<and> ApplyRestrictions (oi_authorizedClaims oidc claims) auth0 guestm = (None, auth)
      else auth = auth0) \<Longrightarrow>
     proven env req w auth"
| basic:
    "rq_authorization req = ''Basic '' @ value \<Longrightarrow> am_authBasicEnabled (w_admin w) \<Longrightarrow> CheckBasicAuth value (w_admin w) \<Longrightarrow>
     form_get ''user'' req \<noteq> [] \<Longrightarrow>
     auth = zero_auth_token\<lparr>at_Type := ''Basic'', at_Subject := form_get ''user'' req, at_CanCreateChannels := True\<rparr> \<Longrightarrow>
     proven env req w auth"

lemma split_n2_two: "split_n2 sep s = [a, b] \<Longrightarrow> s = a @ sep # b"
proof -
  assume two: "split_n2 sep s = [a, b]"
  then have post: "dropWhile (\<lambda>c. c \<noteq> sep) s \<noteq> []" "a = takeWhile (\<lambda>c. c \<noteq> sep) s" "b = tl (dropWhile (\<lambda>c. c \<noteq> sep) s)"
    by (auto simp: Let_def split: if_splits)
  then have "dropWhile (\<lambda>c. c \<noteq> sep) s = sep # b" using hd_dropWhile [OF post(1)] by (metis list.collapse)
  then show ?thesis using post(2) takeWhile_dropWhile_id by metis
qed

lemma check_id_token_claims:
  assumes "check_id_token oidc std s = IdClaims userClaims"
  shows "s \<noteq> [] \<longrightarrow> (\<exists>idStd. ov_std (oi_validate oidc s) = Some idStd \<and>
      ov_err (oi_validate oidc s) \<in> {None, Some ErrStatusTokenExpiredOrNotValidYet} \<and>
      os_Subject idStd = os_Subject std \<and> os_Issuer idStd = os_Issuer std)"
    and "userClaims = (if s = [] then None else ov_claims (oi_validate oidc s))"
  using assms by (auto simp: check_id_token_def Let_def split: if_splits option.splits)

lemma bearer_auth_proven:
  assumes "bearer_auth env (w_rtm w) ''Bearer'' value req = (AuthOk auth, req1)"
    and "rq_authorization req = ''Bearer '' @ value" and "rm_oidc (w_rtm w)"
  shows "proven env req w auth"
proof -
  let ?oidc = "hv_oidc env"
  obtain claims std userClaims where v: "ov_err (oi_validate ?oidc value) = None" "ov_claims (oi_validate ?oidc value) = Some claims"
      "ov_std (oi_validate ?oidc value) = Some std"
    and c: "oi_isAccessToken ?oidc claims" "oi_claimsValid ?oidc claims"
      "rm_requiredScopes (w_rtm w) \<noteq> [] \<longrightarrow> oi_hasScopes ?oidc claims (rm_requiredScopes (w_rtm w))"
    and i: "check_id_token ?oidc std (form_get ''id_token'' req) = IdClaims userClaims"
    using assms(1) unfolding bearer_auth_def Let_def
    by (auto split: option.splits if_splits id_token_result.splits prod.splits)
  define auth0 where "auth0 = zero_auth_token\<lparr>
       at_Subject := (if form_get ''auth'' req = ''1''
         then identified_user ?oidc claims (ov_user (oi_validate ?oidc value)) else ov_user (oi_validate ?oidc value)),
       at_Type := ''Bearer'', at_Value := value, at_ExpiresAt := os_ExpiresAt std, at_Claims := userClaims,
       at_Auth := form_get ''auth'' req, at_CanCreateChannels := True\<rparr>"
  have m: "form_get ''auth'' req \<in> {[], ''0'', ''1''}"
    and g: "if oi_isGuest ?oidc claims
      then \<exists>guestm. hv_guestm env = Some guestm \<and> ApplyRestrictions (oi_authorizedClaims ?oidc claims) auth0 guestm = (None, auth)
      else auth = auth0"
    using assms(1) v c i unfolding bearer_auth_def Let_def auth0_def zero_auth_token_def
    by (auto split: option.splits if_splits prod.splits)
  show ?thesis
    by (rule proven.bearer [OF assms(2,3) refl _ c check_id_token_claims(1) [OF i] m
          auth0_def [unfolded check_id_token_claims(2) [OF i]] g]) (simp add: v)
qed

lemma isRequestWithValidAuth_proven:
  assumes "isRequestWithValidAuth env req w = (AuthOk auth, req1, w')"
  shows "proven env req w auth"
proof -
  obtain scheme "value" where two: "split_n2 (CHR '' '') (rq_authorization req) = [scheme, value]"
    using assms by (auto simp: isRequestWithValidAuth_def split: list.splits)
  note header = split_n2_two [OF two]
  consider (token) "scheme = ''Token''" | (bearer) "scheme = ''Bearer''" | (basic) "scheme = ''Basic''"
    using assms two by (auto simp: isRequestWithValidAuth_def auth_type_defs split: if_splits)
  then show ?thesis
  proof cases
    case token
    then obtain m t where run: "IsValidAdminAuthTokenRequest (hv_jwt_parse env) (en_now (hv_rtm env)) req (w_admin w) = (AuthOk t, m)"
        "auth = t\<lparr>at_CanCreateChannels := True\<rparr>"
      using assms two by (auto simp: isRequestWithValidAuth_def auth_type_defs grant_create_def split: prod.splits auth_result.splits)
    then obtain tok err claims where p: "hv_jwt_parse env value (token_keyFunc (w_admin w)) = (Some tok, err)" "jt_Claims tok = Some claims"
        "\<forall>flags. err = Some flags \<longrightarrow> ValidationErrorSignatureInvalid \<notin> set flags"
      and t: "t = zero_auth_token\<lparr>at_Subject := jc_Subject claims, at_ExpiresAt := jc_ExpiresAt claims, at_Type := ''Token''\<rparr>"
      and ok: "IsValidAdminAuthToken t (w_admin w) \<or> en_now (hv_rtm env) < time_unix (at_ExpiresAt t)"
      using two token
      by (auto simp: IsValidAdminAuthTokenRequest_def ValidateAdminAuthTokenString_def auth_type_defs Let_def
          split: validate_result.splits prod.splits if_splits option.splits bind_splits)
    have "token_id auth = token_id t" by (simp add: run(2) getAdminAuthTokenTokensRecordID_def)
    then show ?thesis
      using ok p header token run(2) t
      by (intro proven.admin_token [of req "value" env w tok err claims auth]) (auto simp: IsValidAdminAuthToken_iff)
  next
    case bearer
    then have "bearer_auth env (w_rtm w) ''Bearer'' value req = (AuthOk auth, req1)" "rm_oidc (w_rtm w)"
      using assms two by (auto simp: isRequestWithValidAuth_def auth_type_defs split: prod.splits if_splits)
    with header bearer show ?thesis by (intro bearer_auth_proven) simp_all
  next
    case basic
    then obtain m t where run: "IsValidBasicAuthRequest (en_now (hv_rtm env)) req (w_admin w) = (AuthOk t, m)"
        "auth = t\<lparr>at_CanCreateChannels := True\<rparr>"
      using assms two by (auto simp: isRequestWithValidAuth_def auth_type_defs grant_create_def split: prod.splits auth_result.splits)
    then show ?thesis
      using two header basic
      by (intro proven.basic [of req "value"]) (auto simp: IsValidBasicAuthRequest_def auth_type_defs Let_def split: if_splits)
  qed
qed

section \<open>Properties\<close>

lemma authorize_user_Inr:
  assumes "authorize_user env denied req w = (Inr (user, auth), w1)"
  shows "user \<noteq> []" and "rm_insecure (w_rtm w) \<or> user = at_Subject auth" and "w_rtm w1 = w_rtm w" and "w_next w1 = w_next w"
    and "w_users w1 = w_users w" and "proven env req w auth"
proof -
  obtain r req1 w0 where v: "isRequestWithValidAuth env req w = (r, req1, w0)"
    by (cases "isRequestWithValidAuth env req w") auto
  have w0: "w_rtm w0 = w_rtm w" "w_next w0 = w_next w" "w_users w0 = w_users w"
    using v by (auto simp: isRequestWithValidAuth_def split: list.splits if_splits prod.splits)
  with assms v show "user \<noteq> []" and "rm_insecure (w_rtm w) \<or> user = at_Subject auth" and "w_rtm w1 = w_rtm w"
    and "w_next w1 = w_next w" and "w_users w1 = w_users w"
    and "proven env req w auth"
    by (auto dest: isRequestWithValidAuth_proven simp: authorize_user_def Let_def split: auth_result.splits if_splits)
qed

text \<open>
  C5. A connect key is only ever issued for proven credentials: when the connect handler answers with a URL,
  the request carried credentials that passed every check of its scheme (\<open>proven\<close>: an admin token whose
  signature was not found invalid and which is stored or not expired; a validated access token with
  valid claims and the required scopes, together with a matching id token if one was sent, and with the
  guest restrictions applied for a guest; or a configured basic value), the key behind the URL leads
  to a user record with the token made from those credentials, and, unless insecure authentication is
  configured, the id of that record, which later is the source of everything the user sends, is the
  subject of the token.
\<close>

theorem connect_grants_own_identity:
  assumes "HTTPConnectHandler env req w = (HttpWrites ws, w')" and "HttpJson resp \<in> set ws"
  shows "\<exists>auth kr u. proven env req w auth \<and>
    hv_urlPath env (en_rnd (hv_rtm env)) = Some (rc_URL resp) \<and>
    fst (keys_Pop (en_rnd (hv_rtm env)) (w_rtm w')) = Some kr \<and> kr_user kr = Some u \<and>
    ur_auth (w_users w' u) = Some auth \<and> ur_id (w_users w' u) = self_ID (rc_Self resp) \<and>
    (rm_insecure (w_rtm w) \<or> self_ID (rc_Self resp) = at_Subject auth)"
proof -
  obtain r :: "RTMConnectResponse http_result + string \<times> AdminAuthToken" and w1
    where a: "authorize_user env ''auth failed'' req w = (r, w1)"
    by (rule prod.exhaust)
  show ?thesis
  proof (cases r)
    case (Inl res)
    then have "res = HttpWrites ws" using assms(1) a by (simp add: HTTPConnectHandler_def)
    then have False
      using a Inl assms(2)
      by (auto simp: authorize_user_def Let_def split: prod.splits auth_result.splits if_splits)
    then show ?thesis ..
  next
    case (Inr ua)
    obtain user auth where ua: "ua = (user, auth)" by (cases ua)
    note ok = authorize_user_Inr [OF a [unfolded Inr ua]]
    obtain key w2 where c: "rtm_Connect (hv_rtm env) user (Some auth) w1 = (key, w2)"
      by (cases "rtm_Connect (hv_rtm env) user (Some auth) w1")
    then have key: "key = en_rnd (hv_rtm env)" by (auto simp: rtm_Connect_def Let_def split: if_splits)
    have resp: "hv_urlPath env key = Some (rc_URL resp)" "self_ID (rc_Self resp) = user"
        "w_rtm w' = w_rtm w2" "w_users w' = w_users w2"
      using assms a Inr ua c
      by (auto simp: HTTPConnectHandler_def Let_def split: option.splits sum.splits)
    have "fst (keys_Pop key (w_rtm w2)) = Some \<lparr>kr_when = en_now (hv_rtm env), kr_user = Some (w_next w1)\<rparr>"
        "ur_id (w_users w2 (w_next w1)) = user" "ur_auth (w_users w2 (w_next w1)) = Some auth"
      using c ok(1) by (auto simp: rtm_Connect_def Let_def keys_Pop_def)
    with ok resp key show ?thesis by auto
  qed
qed

text \<open>
  C6. A websocket connection costs a valid key: the handler serves a connection only for a key that is in
  the table, with a user that has a token. A token of the admin API is still stored by the admin
  manager at that moment; a bearer token is still valid for the OIDC provider, which is configured
  (basic authentication is not checked again). The connection is new and bound to that user, the key is
  gone afterwards, and trying the key again is answered with not found.
\<close>

theorem websocket_costs_a_key:
  assumes "rtm_HandleWebsocketConnect env key up w = (out, w')" and "wo_conn out = Some c"
  shows "\<exists>kr u auth. gm_get (rm_keys (w_rtm w)) key = Some kr \<and> kr_user kr = Some u \<and>
    ur_auth (w_users w u) = Some auth \<and>
    (at_Type auth = ''Token'' \<longrightarrow>
      (\<exists>r t. gm_get (am_tokens (w_admin w)) (token_id auth) = Some r \<and> tk_token r = Some t)) \<and>
    (at_Type auth = ''Bearer'' \<longrightarrow> rm_oidc (w_rtm w) \<and> ov_err (oi_validate (hv_oidc env) (at_Value auth)) = None) \<and>
    cn_binder (w_conns w' c) = Some (BoundUser u) \<and> c = w_next w \<and>
    rtm_HandleWebsocketConnect env' key up' w' = (ws_refuse [http_NotFound] None, w')"
proof -
  obtain kr u auth where kr: "gm_get (rm_keys (w_rtm w)) key = Some kr" "kr_user kr = Some u" "ur_auth (w_users w u) = Some auth"
    using assms
    by (auto simp: rtm_HandleWebsocketConnect_def keys_Pop_def ws_refuse_def Let_def split: option.splits)
  define w1 where "w1 = upd_rtm (\<lambda>_. (w_rtm w)\<lparr>rm_keys := gm_del key (rm_keys (w_rtm w))\<rparr>) w"
  have ok: "recheck_auth env auth w1 = None"
    using assms kr
    by (auto simp: rtm_HandleWebsocketConnect_def keys_Pop_def ws_refuse_def Let_def w1_def split: option.splits)
  obtain s where up: "up = Upgraded s"
    using assms kr ok
    by (auto simp: rtm_HandleWebsocketConnect_def keys_Pop_def ws_refuse_def Let_def w1_def split: upgrade.splits)
  have run: "rm_keys (w_rtm w') = gm_del key (rm_keys (w_rtm w))" "c = w_next w"
      "cn_binder (w_conns w' c) = Some (BoundUser u)"
    using assms kr ok up
    by (auto simp: rtm_HandleWebsocketConnect_def keys_Pop_def Let_def w1_def rtm_new_conn_def Bind_def)
  then have "rtm_HandleWebsocketConnect env' key up' w' = (ws_refuse [http_NotFound] None, w')"
    by (simp add: rtm_HandleWebsocketConnect_def keys_Pop_def)
  moreover have "(at_Type auth = ''Token'' \<longrightarrow>
      (\<exists>r t. gm_get (am_tokens (w_admin w)) (token_id auth) = Some r \<and> tk_token r = Some t)) \<and>
    (at_Type auth = ''Bearer'' \<longrightarrow> rm_oidc (w_rtm w) \<and> ov_err (oi_validate (hv_oidc env) (at_Value auth)) = None)"
    using ok by (auto simp: recheck_auth_def IsValidAdminAuthToken_iff auth_type_defs w1_def split: if_splits)
  ultimately show ?thesis
    using kr run(2,3) by blast
qed

definition example_http_env :: "unit http_env" where
  "example_http_env = \<lparr>hv_rtm = example_env, hv_jwt_parse = (\<lambda>_ _. (None, None)),
     hv_oidc = \<lparr>oi_validate = (\<lambda>_. \<lparr>ov_user = [], ov_std = None, ov_claims = None, ov_err = Some (OidcError [])\<rparr>),
       oi_isAccessToken = (\<lambda>_. False), oi_claimsValid = (\<lambda>_. False), oi_hasScopes = (\<lambda>_ _. False),
       oi_isGuest = (\<lambda>_. False), oi_authorizedClaims = (\<lambda>_. None), oi_identityClaim = [], oi_expiredText = []\<rparr>,
     hv_guestm = None, hv_turn = example_turn_env, hv_urlPath = (\<lambda>key. Some (CHR ''/'' # key))\<rparr>"

definition example_basic_request :: http_request where
  "example_basic_request = \<lparr>rq_method = ''POST'', rq_authorization = ''Basic a'', rq_form = [(''user'', ''bob'')], rq_body = Inr None\<rparr>"

definition example_basic_world :: world where
  "example_basic_world = start_world example_rtm (SetBasicAuth (Some [''a'']) admin_NewManager)"

definition example_token :: AdminAuthToken where
  "example_token = zero_auth_token\<lparr>at_Subject := ''al'', at_Type := ''Token''\<rparr>"

definition example_key_world :: world where
  "example_key_world = snd (rtm_Connect example_env ''al'' (Some example_token)
     (example_world\<lparr>w_admin := SetToken 0 (token_id example_token) example_token admin_NewManager\<rparr>))"

theorem websocket_costs_a_key_witness:
  "\<exists>kr u auth. gm_get (rm_keys (w_rtm example_key_world)) ''rnd'' = Some kr \<and> kr_user kr = Some u \<and>
     ur_auth (w_users example_key_world u) = Some auth \<and>
     (at_Type auth = ''Token'' \<longrightarrow> (\<exists>r t. gm_get (am_tokens (w_admin example_key_world)) (token_id auth) = Some r \<and> tk_token r = Some t))"
proof -
  have "wo_conn (fst (rtm_HandleWebsocketConnect example_http_env ''rnd'' (Upgraded []) example_key_world)) = Some 1"
    by code_simp
  from websocket_costs_a_key [OF surjective_pairing this] show ?thesis by blast
qed

lemma example_basic_connects:
  "\<exists>resp w'. HTTPConnectHandler example_http_env example_basic_request example_basic_world = (HttpWrites [HttpJson resp], w')"
proof -
  have "\<exists>w0. isRequestWithValidAuth example_http_env example_basic_request example_basic_world =
      (AuthOk (zero_auth_token\<lparr>at_Subject := ''bob'', at_Type := ''Basic'', at_CanCreateChannels := True\<rparr>), example_basic_request, w0) \<and>
      rm_turnsrv (w_rtm w0) = None \<and> \<not> rm_insecure (w_rtm w0)"
    by (simp add: isRequestWithValidAuth_def example_basic_request_def example_basic_world_def auth_type_defs IsValidBasicAuthRequest_def
        SetBasicAuth_def CheckBasicAuth_def admin_NewManager_def form_get_def Let_def IsValidAdminAuthToken_def grant_create_def
        start_world_def example_rtm_def rtm_NewManager_def)
  then obtain w0 where w0: "isRequestWithValidAuth example_http_env example_basic_request example_basic_world =
      (AuthOk (zero_auth_token\<lparr>at_Subject := ''bob'', at_Type := ''Basic'', at_CanCreateChannels := True\<rparr>), example_basic_request, w0)"
      "rm_turnsrv (w_rtm w0) = None" "\<not> rm_insecure (w_rtm w0)"
    by blast
  then show ?thesis
    by (simp add: HTTPConnectHandler_def authorize_user_def Let_def form_get_def example_basic_request_def rtm_Connect_def
        example_http_env_def)
qed

theorem connect_grants_own_identity_witness:
  "\<exists>resp w' u auth. HTTPConnectHandler example_http_env example_basic_request example_basic_world = (HttpWrites [HttpJson resp], w') \<and>
     ur_id (w_users w' u) = self_ID (rc_Self resp) \<and> proven example_http_env example_basic_request example_basic_world auth"
proof -
  obtain resp w' where r: "HTTPConnectHandler example_http_env example_basic_request example_basic_world = (HttpWrites [HttpJson resp], w')"
    using example_basic_connects by blast
  with connect_grants_own_identity [OF r, of resp] show ?thesis by auto
qed

end
