(* ===== verification/Services.thy ===== *)
theory Services
  imports Mcu_Pipeline Rtm_Http
begin

text \<open>
  The services a server offers (\<open>src/signaling/service.go\<close>), their activity, and the routes of the HTTP
  services (\<open>src/signaling/api-v1/service/http.go\<close>, \<open>src/signaling/api-v2/service/http.go\<close>,
  \<open>src/signaling/admin/http.go\<close>, \<open>src/signaling/www/www.go\<close>). The router of the mux library is the list of
  the routes in the order they were added; a subrouter puts its prefix in front of its routes.
\<close>

section \<open>Services\<close>

text \<open>Which manager is set, and whether the wait channel was closed.\<close>

record Services =
  sv_ready :: bool
  sv_AdminManager :: bool
  sv_MCUManager :: bool
  sv_RTMManager :: bool
  sv_GuestManager :: bool

definition NewServices :: Services where
  "NewServices = \<lparr>sv_ready = False, sv_AdminManager = False, sv_MCUManager = False, sv_RTMManager = False, sv_GuestManager = False\<rparr>"

datatype service = AdminService | MCUService | RTMService | GuestService

definition Services_Services :: "Services \<Rightarrow> service list" where
  "Services_Services s =
     (if sv_AdminManager s then [AdminService] else []) @ (if sv_MCUManager s then [MCUService] else []) @
     (if sv_RTMManager s then [RTMService] else []) @ (if sv_GuestManager s then [GuestService] else [])"

text \<open>Closing the channel a second time panics (\<open>None\<close>).\<close>

definition Services_Ready :: "Services \<Rightarrow> Services option" where
  "Services_Ready s = (if sv_ready s then None else Some (s\<lparr>sv_ready := True\<rparr>))"

definition admin_NumActive :: u64 where "admin_NumActive = 0"
definition guest_NumActive :: u64 where "guest_NumActive = 0"

fun service_NumActive :: "world \<Rightarrow> service \<Rightarrow> u64" where
  "service_NumActive w AdminService = admin_NumActive"
| "service_NumActive w MCUService = mcu_NumActive (w_mcu w)"
| "service_NumActive w RTMService = rtm_NumActive w"
| "service_NumActive w GuestService = guest_NumActive"

definition HTTPService_NumActive :: "Services \<Rightarrow> world \<Rightarrow> u64" where
  "HTTPService_NumActive s w = fold (\<lambda>svc active. active + service_NumActive w svc) (Services_Services s) 0"

definition www_NumActive :: u64 where "www_NumActive = 0"

section \<open>Routes\<close>

datatype handler =
    HealthCheck | CreateAuthToken | ListValidAuthTokens | RemoveAuthToken
  | McuWebsocket | RtmConnect string | RtmTURN | RtmWebsocket | GuestLogon | FileServer string

text \<open>An empty list of methods accepts every method. A prefix route accepts every path below it.\<close>

record route =
  rt_path :: string
  rt_prefix :: bool
  rt_methods :: "string list"
  rt_handler :: handler
  rt_name :: string

definition plain_route :: "string \<Rightarrow> handler \<Rightarrow> route" where
  "plain_route path h = \<lparr>rt_path = path, rt_prefix = False, rt_methods = [], rt_handler = h, rt_name = []\<rparr>"

text \<open>Routes added to a subrouter with a prefix.\<close>

definition subrouter :: "string \<Rightarrow> route list \<Rightarrow> route list" where
  "subrouter prefix rs = map (\<lambda>r. r\<lparr>rt_path := prefix @ rt_path r\<rparr>) rs"

definition addAuthRoutes :: "route list" where
  "addAuthRoutes =
     [(plain_route ''/tokens'' CreateAuthToken)\<lparr>rt_methods := [''POST'']\<rparr>,
      (plain_route ''/tokens'' ListValidAuthTokens)\<lparr>rt_methods := [''GET'']\<rparr>,
      (plain_route ''/tokens'' RemoveAuthToken)\<lparr>rt_methods := [''DELETE'']\<rparr>]"

definition admin_AddRoutes :: "route list" where
  "admin_AddRoutes = subrouter ''/auth'' addAuthRoutes"

definition mcu_routes :: "route list" where
  "mcu_routes = [plain_route ''/websocket/{transaction}'' McuWebsocket, plain_route ''/websocket'' McuWebsocket]"

definition v1_WebsocketRouteIdentifier :: string where "v1_WebsocketRouteIdentifier = ''v1-rtm-websocket-by-key''"
definition v2_WebsocketRouteIdentifier :: string where "v2_WebsocketRouteIdentifier = ''v2-rtm-websocket-by-key''"

definition v1_AddRoutes :: "Services \<Rightarrow> route list" where
  "v1_AddRoutes s = subrouter ''/api/v1''
     ((if sv_AdminManager s then subrouter ''/admin'' admin_AddRoutes else []) @
      (if sv_MCUManager s then subrouter ''/mcu'' mcu_routes else []) @
      (if sv_RTMManager s then
         [plain_route ''/rtm.connect'' (RtmConnect v1_WebsocketRouteIdentifier), plain_route ''/rtm.turn'' RtmTURN,
          (plain_route ''/websocket/{key}'' RtmWebsocket)\<lparr>rt_name := v1_WebsocketRouteIdentifier\<rparr>] else []))"

definition v2_AddRoutes :: "Services \<Rightarrow> route list" where
  "v2_AddRoutes s = subrouter ''/api/kwm/v2''
     ((if sv_AdminManager s then subrouter ''/admin'' admin_AddRoutes else []) @
      (if sv_MCUManager s then subrouter ''/mcu'' mcu_routes else []) @
      (if sv_RTMManager s then subrouter ''/rtm''
         [plain_route ''/connect'' (RtmConnect v2_WebsocketRouteIdentifier), plain_route ''/turn'' RtmTURN,
          (plain_route ''/websocket/{key}'' RtmWebsocket)\<lparr>rt_name := v2_WebsocketRouteIdentifier\<rparr>] else []) @
      (if sv_GuestManager s then subrouter ''/guest'' [plain_route ''/logon'' GuestLogon] else []))"

definition www_AddRoutes :: "string \<Rightarrow> string \<Rightarrow> route list" where
  "www_AddRoutes prefix folder = [(plain_route prefix (FileServer folder))\<lparr>rt_prefix := True\<rparr>]"

definition server_AddRoutes :: "route list" where
  "server_AddRoutes = [plain_route ''/health-check'' HealthCheck]"

section \<open>Lemmas\<close>

lemmas route_defs = subrouter_def plain_route_def addAuthRoutes_def admin_AddRoutes_def mcu_routes_def
  www_AddRoutes_def server_AddRoutes_def

fun handler_service :: "handler \<Rightarrow> service option" where
  "handler_service CreateAuthToken = Some AdminService"
| "handler_service ListValidAuthTokens = Some AdminService"
| "handler_service RemoveAuthToken = Some AdminService"
| "handler_service McuWebsocket = Some MCUService"
| "handler_service (RtmConnect _) = Some RTMService"
| "handler_service RtmTURN = Some RTMService"
| "handler_service RtmWebsocket = Some RTMService"
| "handler_service GuestLogon = Some GuestService"
| "handler_service _ = None"

text \<open>A service has routes exactly when its manager is set.\<close>

lemma subrouter_handlers [simp]: "map rt_handler (subrouter p rs) = map rt_handler rs"
  by (simp add: subrouter_def)

lemma v2_handlers:
  "map rt_handler (v2_AddRoutes s) =
     (if sv_AdminManager s then [CreateAuthToken, ListValidAuthTokens, RemoveAuthToken] else []) @
     (if sv_MCUManager s then [McuWebsocket, McuWebsocket] else []) @
     (if sv_RTMManager s then [RtmConnect v2_WebsocketRouteIdentifier, RtmTURN, RtmWebsocket] else []) @
     (if sv_GuestManager s then [GuestLogon] else [])"
  by (simp add: v2_AddRoutes_def admin_AddRoutes_def addAuthRoutes_def mcu_routes_def plain_route_def)

lemma v2_routes_service:
  "(\<exists>r \<in> set (v2_AddRoutes s). handler_service (rt_handler r) = Some svc) \<longleftrightarrow> svc \<in> set (Services_Services s)"
proof -
  have "(\<exists>r \<in> set (v2_AddRoutes s). handler_service (rt_handler r) = Some svc) \<longleftrightarrow>
      list_ex (\<lambda>h. handler_service h = Some svc) (map rt_handler (v2_AddRoutes s))"
    by (simp add: list_ex_iff)
  also have "\<dots> \<longleftrightarrow> svc \<in> set (Services_Services s)"
    unfolding v2_handlers by (cases svc) (simp_all add: Services_Services_def)
  finally show ?thesis .
qed

lemma v2_routes_some_service: "r \<in> set (v2_AddRoutes s) \<Longrightarrow> handler_service (rt_handler r) \<noteq> None"
proof -
  assume "r \<in> set (v2_AddRoutes s)"
  then have "rt_handler r \<in> set (map rt_handler (v2_AddRoutes s))" by simp
  then show ?thesis unfolding v2_handlers by (auto split: if_splits)
qed

text \<open>The name the connect handler uses belongs to the websocket route, and to no other.\<close>

lemma v2_websocket_route:
  assumes "sv_RTMManager s"
  shows "filter (\<lambda>x. rt_name x = v2_WebsocketRouteIdentifier) (v2_AddRoutes s) =
     [\<lparr>rt_path = ''/api/kwm/v2/rtm/websocket/{key}'', rt_prefix = False, rt_methods = [], rt_handler = RtmWebsocket,
       rt_name = v2_WebsocketRouteIdentifier\<rparr>]"
  using assms by (simp add: v2_AddRoutes_def route_defs v2_WebsocketRouteIdentifier_def)

end
