(* ===== verification/Config.thy ===== *)
theory Config
  imports Clients
begin

text \<open>
  The configuration (\<open>src/config/config.go\<close>) and how \<open>serve\<close> in \<open>src/cmd/kwmserverd/serve.go\<close> builds
  it from the command line flags, the environment and files, with every error it can end in. The
  command line parser, the file system and URL parsing are arguments. An option from a flag takes precedence over the environment, which takes precedence over
  a default.
\<close>

section \<open>Configuration and flags\<close>

text \<open>
  A nil slice is \<open>None\<close> where the program tells nil from empty. \<open>cf_ClientInsecure\<close> says whether the HTTP
  client skips the verification of certificates; \<open>cf_Gatherer\<close>, \<open>cf_Metrics\<close> and \<open>cf_Survey\<close> say whether
  the field is set.
\<close>

record Config =
  cf_ListenAddr :: string
  cf_WithMetrics :: bool
  cf_MetricsListenAddr :: string
  cf_RegistrationConf :: string
  cf_EnableMcuAPI :: bool
  cf_EnableRTMAPI :: bool
  cf_RTMRequiredScopes :: "string list"
  cf_EnableGuestAPI :: bool
  cf_GuestsCanCreateChannels :: bool
  cf_GuestPublicAccessPattern :: string
  cf_PipelineForcedPattern :: string
  cf_EnableWww :: bool
  cf_WwwRoot :: string
  cf_EnableDocs :: bool
  cf_DocsRoot :: string
  cf_AdminTokensSigningKey :: "string option"
  cf_AllowInsecureAuth :: bool
  cf_EnableAuthBasic :: bool
  cf_AuthBasicAllowedValues :: "string list option"
  cf_TURNServerSharedSecret :: "string option"
  cf_TURNURIs :: "string list"
  cf_TURNServerServiceURL :: string
  cf_TURNServerServiceUsername :: string
  cf_TURNServerServicePassword :: string
  cf_ClientInsecure :: bool
  cf_Iss :: "url option"
  cf_Gatherer :: bool
  cf_Metrics :: bool
  cf_Survey :: bool

record Flags =
  fl_listen :: string
  fl_enable_mcu_api :: bool
  fl_enable_rtm_api :: bool
  fl_enable_www :: bool
  fl_www_root :: string
  fl_enable_docs :: bool
  fl_docs_root :: string
  fl_admin_tokens_key :: string
  fl_iss :: string
  fl_insecure :: bool
  fl_insecure_auth :: bool
  fl_enable_auth_basic :: bool
  fl_auth_basic_values :: string
  fl_turn_uri :: "string list"
  fl_turn_server_shared_secret :: string
  fl_turn_service_url :: string
  fl_turn_service_credentials :: string
  fl_log_timestamp :: bool
  fl_log_level :: string
  fl_rtm_required_scope :: "string list"
  fl_enable_guest_api :: bool
  fl_allow_guest_only_channels :: bool
  fl_public_guest_access_regexp :: string
  fl_registration_conf :: string
  fl_with_pprof :: bool
  fl_pprof_listen :: string
  fl_with_metrics :: bool
  fl_metrics_listen :: string
  fl_pipeline_forced_regexp :: string

definition defaultListenAddr :: string where "defaultListenAddr = ''127.0.0.1:8778''"

text \<open>The defaults \<open>commandServe\<close> declares.\<close>

definition commandServe :: Flags where
  "commandServe = \<lparr>fl_listen = [], fl_enable_mcu_api = False, fl_enable_rtm_api = True, fl_enable_www = False,
     fl_www_root = ''./www'', fl_enable_docs = False, fl_docs_root = ''./docs'', fl_admin_tokens_key = [], fl_iss = [],
     fl_insecure = False, fl_insecure_auth = False, fl_enable_auth_basic = False, fl_auth_basic_values = [],
     fl_turn_uri = [], fl_turn_server_shared_secret = [], fl_turn_service_url = [], fl_turn_service_credentials = [],
     fl_log_timestamp = True, fl_log_level = ''info'', fl_rtm_required_scope = [], fl_enable_guest_api = False,
     fl_allow_guest_only_channels = False, fl_public_guest_access_regexp = [], fl_registration_conf = [],
     fl_with_pprof = False, fl_pprof_listen = ''127.0.0.1:6060'', fl_with_metrics = False, fl_metrics_listen = ''127.0.0.1:6778'', fl_pipeline_forced_regexp = ''@conference/.*''\<rparr>"

section \<open>The outside world\<close>

text \<open>
  \<open>os_stat\<close> returns whether the path is a directory. \<open>os_open\<close> returns the bytes that can be read and the
  read error, if reading stops with one. \<open>os_parseURL\<close> returns the URL and its text.
\<close>

record os_env =
  os_getenv :: "string \<Rightarrow> string"
  os_abs :: "string \<Rightarrow> string + string"
  os_stat :: "string \<Rightarrow> string + bool"
  os_open :: "string \<Rightarrow> string + string \<times> string option"
  os_parseURL :: "string \<Rightarrow> string + url \<times> string"
  os_parseLevel :: "string \<Rightarrow> string option"

text \<open>
  The logger of \<open>newLogger\<close> (\<open>src/cmd/kwmserverd/log.go\<close>): with or without timestamps, at a level that the
  logging library has parsed.
\<close>

record Logger =
  lg_DisableTimestamp :: bool
  lg_Level :: string

definition newLogger :: "os_env \<Rightarrow> bool \<Rightarrow> string \<Rightarrow> string + Logger" where
  "newLogger env disableTimestamp logLevelString =
     (case os_parseLevel env logLevelString of
        Some e \<Rightarrow> Inl e
      | None \<Rightarrow> Inr \<lparr>lg_DisableTimestamp = disableTimestamp, lg_Level = logLevelString\<rparr>)"

definition try_bind :: "'e + 'a \<Rightarrow> ('a \<Rightarrow> 'e + 'b) \<Rightarrow> 'e + 'b" where
  "try_bind r f = (case r of Inl e \<Rightarrow> Inl e | Inr x \<Rightarrow> f x)"

lemma try_bind_Inr: "try_bind r f = Inr y \<longleftrightarrow> (\<exists>x. r = Inr x \<and> f x = Inr y)"
  by (cases r) (simp_all add: try_bind_def)

text \<open>A flag, or else an environment variable.\<close>

definition flag_or_env :: "os_env \<Rightarrow> string \<Rightarrow> string \<Rightarrow> string" where
  "flag_or_env env flag var = (if flag = [] then os_getenv env var else flag)"

text \<open>Open a file that must exist and read all of it; the texts of the errors name the option.\<close>

definition read_option_file :: "os_env \<Rightarrow> string \<Rightarrow> string \<Rightarrow> string + string" where
  "read_option_file env opt path =
     (case os_stat env path of
        Inl e \<Rightarrow> Inl (opt @ '' file not found: '' @ e)
      | Inr _ \<Rightarrow>
          (case os_open env path of
             Inl e \<Rightarrow> Inl (''failed to open '' @ opt @ '' file: '' @ e)
           | Inr (content, Some e) \<Rightarrow> Inl (''failed to read '' @ opt @ '' file: '' @ e)
           | Inr (content, None) \<Rightarrow> Inr content))"

text \<open>\<open>bufio.Reader.ReadString\<close> for a newline: the text up to and including it, or an error.\<close>

definition read_line :: "string \<Rightarrow> string option \<Rightarrow> string + string" where
  "read_line content readErr =
     (let pre = takeWhile (\<lambda>c. c \<noteq> CHR 0x0A) content
      in if length pre < length content then Inr (pre @ [CHR 0x0A])
         else Inl (case readErr of None \<Rightarrow> ''EOF'' | Some e \<Rightarrow> e))"

text \<open>
  The lines of a \<open>bufio.Scanner\<close>: separated by newlines, without a trailing carriage return, no empty
  line behind the last newline. A line that does not fit into the buffer of 64 KiB ends the scan.
\<close>

definition MaxScanTokenSize :: nat where "MaxScanTokenSize = 64 * 1024"

definition drop_cr :: "string \<Rightarrow> string" where
  "drop_cr s = (if s \<noteq> [] \<and> last s = CHR 0x0D then butlast s else s)"

function scan_lines :: "string \<Rightarrow> string list" where
  "scan_lines s =
     (if s = [] then []
      else takeWhile (\<lambda>c. c \<noteq> CHR 0x0A) s # scan_lines (drop (Suc (length (takeWhile (\<lambda>c. c \<noteq> CHR 0x0A) s))) s))"
  by auto
termination
  by (relation "measure length") auto

declare scan_lines.simps [simp del]

definition scan :: "string \<Rightarrow> string option \<Rightarrow> string list \<times> string option" where
  "scan content readErr =
     (let raw = scan_lines content; fits = takeWhile (\<lambda>l. length l < MaxScanTokenSize) raw
      in (map drop_cr fits,
          if length fits < length raw then Some ''bufio.Scanner: token too long'' else readErr))"

section \<open>Sections of \<open>serve\<close>\<close>

definition serve_listen :: "os_env \<Rightarrow> Flags \<Rightarrow> Config \<Rightarrow> Config" where
  "serve_listen env fl cfg =
     (let a = flag_or_env env (fl_listen fl) ''KWMSERVERD_LISTEN''
      in cfg\<lparr>cf_ListenAddr := (if a = [] then defaultListenAddr else a)\<rparr>)"

definition serve_registration :: "os_env \<Rightarrow> Flags \<Rightarrow> Config \<Rightarrow> string + Config" where
  "serve_registration env fl cfg =
     (if fl_registration_conf fl = [] then Inr cfg
      else
        let path = (case os_abs env (fl_registration_conf fl) of Inl _ \<Rightarrow> [] | Inr p \<Rightarrow> p)
        in case os_stat env path of
             Inl e \<Rightarrow> Inl (''registration-conf file not found or unable to access: '' @ e)
           | Inr _ \<Rightarrow> Inr (cfg\<lparr>cf_RegistrationConf := path\<rparr>))"

definition serve_apis :: "Flags \<Rightarrow> Config \<Rightarrow> Config" where
  "serve_apis fl cfg = cfg\<lparr>cf_EnableGuestAPI := fl_enable_guest_api fl,
     cf_GuestsCanCreateChannels := fl_allow_guest_only_channels fl,
     cf_GuestPublicAccessPattern := fl_public_guest_access_regexp fl,
     cf_PipelineForcedPattern := fl_pipeline_forced_regexp fl, cf_EnableMcuAPI := fl_enable_mcu_api fl\<rparr>"

text \<open>The checks for the folder of the static files and for the one of the documentation.\<close>

definition serve_root :: "os_env \<Rightarrow> string \<Rightarrow> bool \<Rightarrow> string \<Rightarrow> string + string" where
  "serve_root env opt enabled root =
     (if \<not> (enabled \<and> root \<noteq> []) then Inr []
      else case os_abs env root of
        Inl e \<Rightarrow> Inl e
      | Inr path \<Rightarrow>
          (case os_stat env path of
             Inl e \<Rightarrow> Inl (''unable to access '' @ opt @ '': '' @ e)
           | Inr isDir \<Rightarrow> if isDir then Inr path else Inl (opt @ '' must be a directory'')))"

definition serve_roots :: "os_env \<Rightarrow> Flags \<Rightarrow> Config \<Rightarrow> string + Config" where
  "serve_roots env fl cfg =
     try_bind (serve_root env ''www-root'' (fl_enable_www fl) (fl_www_root fl)) (\<lambda>www.
     try_bind (serve_root env ''docs-root'' (fl_enable_docs fl) (fl_docs_root fl)) (\<lambda>docs.
     Inr (cfg\<lparr>cf_EnableWww := fl_enable_www fl, cf_WwwRoot := www, cf_EnableDocs := fl_enable_docs fl, cf_DocsRoot := docs\<rparr>)))"

definition serve_admin_key :: "os_env \<Rightarrow> Flags \<Rightarrow> Config \<Rightarrow> string + Config" where
  "serve_admin_key env fl cfg =
     (let path = flag_or_env env (fl_admin_tokens_key fl) ''KWMSERVERD_ADMIN_TOKENS_KEY''
      in if path = [] then Inr cfg
         else try_bind (read_option_file env ''admin-tokens-key'' path)
           (\<lambda>key. Inr (cfg\<lparr>cf_AdminTokensSigningKey := Some key\<rparr>)))"

definition serve_iss :: "os_env \<Rightarrow> Flags \<Rightarrow> Config \<Rightarrow> string + Config" where
  "serve_iss env fl cfg =
     (if fl_iss fl = [] then Inr cfg
      else case os_parseURL env (fl_iss fl) of
        Inl e \<Rightarrow> Inl (''invalid iss url: '' @ e)
      | Inr (u, _) \<Rightarrow> Inr (cfg\<lparr>cf_Iss := Some u\<rparr>))"

text \<open>\<open>strings.Split\<close> at a character.\<close>

fun split_all :: "char \<Rightarrow> string \<Rightarrow> string list" where
  "split_all sep [] = [[]]"
| "split_all sep (c # cs) =
     (if c = sep then [] # split_all sep cs
      else case split_all sep cs of [] \<Rightarrow> [[c]] | w # ws \<Rightarrow> (c # w) # ws)"

definition serve_turn_uris :: "os_env \<Rightarrow> Flags \<Rightarrow> Config \<Rightarrow> Config" where
  "serve_turn_uris env fl cfg =
     (if fl_turn_uri fl \<noteq> [] then cfg\<lparr>cf_TURNURIs := fl_turn_uri fl\<rparr>
      else let s = os_getenv env ''KWMSERVERD_TURN_URIS''
        in if s = [] then cfg else cfg\<lparr>cf_TURNURIs := split_all (CHR '' '') s\<rparr>)"

text \<open>\<open>bytes.TrimSpace\<close> returns nil for bytes that are all white space.\<close>

definition serve_turn_secret :: "os_env \<Rightarrow> Flags \<Rightarrow> Config \<Rightarrow> string + Config" where
  "serve_turn_secret env fl cfg =
     (let path = flag_or_env env (fl_turn_server_shared_secret fl) ''KWMSERVERD_TURN_SERVER_SHARED_SECRET''
      in if path = [] then Inr cfg
         else try_bind (read_option_file env ''turn-server-shared-secret'' path)
           (\<lambda>ss. Inr (cfg\<lparr>cf_TURNServerSharedSecret := (if trim_space ss = [] then None else Some (trim_space ss))\<rparr>)))"

definition serve_turn_service :: "os_env \<Rightarrow> Flags \<Rightarrow> Config \<Rightarrow> string + Config" where
  "serve_turn_service env fl cfg =
     (let s = flag_or_env env (fl_turn_service_url fl) ''KWMSERVERD_TURN_SERVER_SERVICE_URL''
      in if s = [] then Inr cfg
         else case os_parseURL env s of
           Inl e \<Rightarrow> Inl (''turn-service-url invalid: '' @ e)
         | Inr (_, str) \<Rightarrow> Inr (cfg\<lparr>cf_TURNServerServiceURL := str\<rparr>))"

definition serve_turn_credentials :: "os_env \<Rightarrow> Flags \<Rightarrow> Config \<Rightarrow> string + Config" where
  "serve_turn_credentials env fl cfg =
     (let path = flag_or_env env (fl_turn_service_credentials fl) ''KWMSERVERD_TURN_SERVER_SERVICE_CREDENTIALS''
      in if path = [] then Inr cfg
         else case os_stat env path of
           Inl e \<Rightarrow> Inl (''turn-service-credentials file not found: '' @ e)
         | Inr _ \<Rightarrow>
             (case os_open env path of
                Inl e \<Rightarrow> Inl (''failed to open turn-service-credentials file: '' @ e)
              | Inr (content, readErr) \<Rightarrow>
                  (case read_line content readErr of
                     Inl e \<Rightarrow> Inl (''failed to read turn-service-credentials file: '' @ e)
                   | Inr credentials \<Rightarrow>
                       (case split_n2 (CHR '':'') (trim_space credentials) of
                          [user, password] \<Rightarrow>
                            Inr (cfg\<lparr>cf_TURNServerServiceUsername := user, cf_TURNServerServicePassword := password\<rparr>)
                        | _ \<Rightarrow> Inl ''invalid turn-service-credentials format - must be username:password''))))"

definition basic_values :: "string list \<Rightarrow> string list" where
  "basic_values ls = filter (\<lambda>t. \<not> has_prefix t ''#'') (map trim_space ls)"

definition serve_auth :: "os_env \<Rightarrow> Flags \<Rightarrow> Config \<Rightarrow> string + Config" where
  "serve_auth env fl cfg0 =
     (let cfg = cfg0\<lparr>cf_ClientInsecure := fl_insecure fl, cf_AllowInsecureAuth := fl_insecure_auth fl,
            cf_EnableAuthBasic := fl_enable_auth_basic fl\<rparr>;
          path = fl_auth_basic_values fl
      in if \<not> fl_enable_auth_basic fl then Inr cfg
         else if path = [] then Inl ''auth-basic-values required when using enable-auth-basic''
         else case os_stat env path of
           Inl e \<Rightarrow> Inl (''auth-basic-values file not found: '' @ e)
         | Inr _ \<Rightarrow>
             (case os_open env path of
                Inl e \<Rightarrow> Inl (''failed to open auth-basic-values file: '' @ e)
              | Inr (content, readErr) \<Rightarrow>
                  (case scan content readErr of
                     (_, Some e) \<Rightarrow> Inl (''failed to read auth-basic-values file: '' @ e)
                   | (ls, None) \<Rightarrow>
                       Inr (cfg\<lparr>cf_AuthBasicAllowedValues :=
                         (if basic_values ls = [] then None else Some (basic_values ls))\<rparr>))))"

definition serve_rtm :: "Flags \<Rightarrow> Config \<Rightarrow> Config" where
  "serve_rtm fl cfg = cfg\<lparr>cf_EnableRTMAPI := fl_enable_rtm_api fl,
     cf_RTMRequiredScopes := (if fl_enable_rtm_api fl then fl_rtm_required_scope fl else cf_RTMRequiredScopes cfg),
     cf_Gatherer := True, cf_Metrics := True, cf_WithMetrics := fl_with_metrics fl\<rparr>"

definition empty_Config :: Config where
  "empty_Config = \<lparr>cf_ListenAddr = [], cf_WithMetrics = False, cf_MetricsListenAddr = [], cf_RegistrationConf = [], cf_EnableMcuAPI = False,
     cf_EnableRTMAPI = False, cf_RTMRequiredScopes = [], cf_EnableGuestAPI = False, cf_GuestsCanCreateChannels = False,
     cf_GuestPublicAccessPattern = [], cf_PipelineForcedPattern = [], cf_EnableWww = False, cf_WwwRoot = [],
     cf_EnableDocs = False, cf_DocsRoot = [], cf_AdminTokensSigningKey = None, cf_AllowInsecureAuth = False,
     cf_EnableAuthBasic = False, cf_AuthBasicAllowedValues = None, cf_TURNServerSharedSecret = None, cf_TURNURIs = [],
     cf_TURNServerServiceURL = [], cf_TURNServerServiceUsername = [], cf_TURNServerServicePassword = [],
     cf_ClientInsecure = False, cf_Iss = None, cf_Gatherer = False, cf_Metrics = False, cf_Survey = True\<rparr>"

text \<open>The configuration \<open>serve\<close> builds, up to the hook of the build variant.\<close>

definition serve_config :: "os_env \<Rightarrow> Flags \<Rightarrow> string + Config" where
  "serve_config env fl =
     (case newLogger env (\<not> fl_log_timestamp fl) (fl_log_level fl) of
        Inl e \<Rightarrow> Inl (''failed to create logger: '' @ e)
      | Inr logger \<Rightarrow>
          try_bind (serve_registration env fl (serve_listen env fl empty_Config)) (\<lambda>c1.
          try_bind (serve_roots env fl (serve_apis fl c1)) (\<lambda>c2.
          try_bind (serve_admin_key env fl c2) (\<lambda>c3.
          try_bind (serve_iss env fl c3) (\<lambda>c4.
          try_bind (serve_turn_secret env fl (serve_turn_uris env fl c4)) (\<lambda>c5.
          try_bind (serve_turn_service env fl c5) (\<lambda>c6.
          try_bind (serve_turn_credentials env fl c6) (\<lambda>c7.
          try_bind (serve_auth env fl c7) (\<lambda>c8.
          Inr (serve_rtm fl c8))))))))))"

section \<open>Lemmas\<close>

lemmas serve_section_defs = serve_listen_def serve_registration_def serve_apis_def serve_roots_def
  serve_admin_key_def serve_iss_def serve_turn_uris_def serve_turn_secret_def serve_turn_service_def
  serve_turn_credentials_def serve_auth_def serve_rtm_def

lemma try_bindE:
  assumes "try_bind r f = Inr y"
  obtains x where "r = Inr x" and "f x = Inr y"
  using assms by (auto simp: try_bind_Inr)

text \<open>What a section leaves alone: the switches of the APIs and the basic authentication values.\<close>

definition serve_frame :: "Config \<Rightarrow> Config \<Rightarrow> bool" where
  "serve_frame c c' \<longleftrightarrow> cf_EnableGuestAPI c' = cf_EnableGuestAPI c \<and> cf_EnableMcuAPI c' = cf_EnableMcuAPI c \<and>
     cf_AuthBasicAllowedValues c' = cf_AuthBasicAllowedValues c"

lemma serve_frame_trans: "serve_frame a b \<Longrightarrow> serve_frame b c \<Longrightarrow> serve_frame a c"
  by (simp add: serve_frame_def)

lemma section_frames:
  "serve_frame c (serve_listen env fl c)"
  "serve_registration env fl c = Inr c' \<Longrightarrow> serve_frame c c'"
  "serve_roots env fl c = Inr c' \<Longrightarrow> serve_frame c c'"
  "serve_admin_key env fl c = Inr c' \<Longrightarrow> serve_frame c c'"
  "serve_iss env fl c = Inr c' \<Longrightarrow> serve_frame c c'"
  "serve_frame c (serve_turn_uris env fl c)"
  "serve_turn_service env fl c = Inr c' \<Longrightarrow> serve_frame c c'"
  "serve_turn_credentials env fl c = Inr c' \<Longrightarrow> serve_frame c c'"
  by (auto simp: serve_section_defs serve_frame_def try_bind_Inr Let_def split: if_splits sum.splits list.splits)

lemma turn_secret_frame: "serve_turn_secret env fl c = Inr c' \<Longrightarrow> serve_frame c c'"
  unfolding serve_turn_secret_def Let_def
  by (cases "flag_or_env env (fl_turn_server_shared_secret fl) ''KWMSERVERD_TURN_SERVER_SHARED_SECRET'' = []")
    (auto simp: try_bind_Inr serve_frame_def)

lemma serve_config_sections:
  assumes "serve_config env fl = Inr cfg"
  obtains c1 c7 c8 where "serve_frame empty_Config c1" and "serve_frame (serve_apis fl c1) c7"
    and "serve_auth env fl c7 = Inr c8" and "cfg = serve_rtm fl c8"
proof -
  obtain logger where ok: "newLogger env (\<not> fl_log_timestamp fl) (fl_log_level fl) = Inr logger"
    using assms by (cases "newLogger env (\<not> fl_log_timestamp fl) (fl_log_level fl)") (simp_all add: serve_config_def)
  note start = assms [unfolded serve_config_def ok sum.case(2)]
  obtain c1 c2 c3 c4 c5 c6 c7 c8 where cs:
      "serve_registration env fl (serve_listen env fl empty_Config) = Inr c1"
      "serve_roots env fl (serve_apis fl c1) = Inr c2" "serve_admin_key env fl c2 = Inr c3" "serve_iss env fl c3 = Inr c4"
      "serve_turn_secret env fl (serve_turn_uris env fl c4) = Inr c5" "serve_turn_service env fl c5 = Inr c6"
      "serve_turn_credentials env fl c6 = Inr c7" "serve_auth env fl c7 = Inr c8" "Inr (serve_rtm fl c8) = (Inr cfg :: string + Config)"
    using start by (elim try_bindE) (rule that)
  note frames = section_frames(1) [of empty_Config env fl] section_frames(2) [OF cs(1)] section_frames(3) [OF cs(2)]
    section_frames(4) [OF cs(3)] section_frames(5) [OF cs(4)] section_frames(6) [of c4 env fl] turn_secret_frame [OF cs(5)]
    section_frames(7) [OF cs(6)] section_frames(8) [OF cs(7)]
  have "serve_frame empty_Config c1" "serve_frame (serve_apis fl c1) c7"
    using frames by (simp_all add: serve_frame_def)
  with cs(8,9) show thesis by (intro that [of c1 c7 c8]) auto
qed

lemma serve_auth_frame: "serve_auth env fl c = Inr c' \<Longrightarrow> cf_EnableGuestAPI c' = cf_EnableGuestAPI c \<and> cf_EnableMcuAPI c' = cf_EnableMcuAPI c"
  by (auto simp: serve_auth_def Let_def split: if_splits sum.splits prod.splits option.splits)

lemma serve_config_flags:
  assumes "serve_config env fl = Inr cfg"
  shows "cf_EnableGuestAPI cfg = fl_enable_guest_api fl" and "cf_EnableMcuAPI cfg = fl_enable_mcu_api fl" and "cf_Gatherer cfg"
proof -
  obtain c1 c7 c8 where c: "serve_frame (serve_apis fl c1) c7" "serve_auth env fl c7 = Inr c8" "cfg = serve_rtm fl c8"
    by (rule serve_config_sections [OF assms])
  show "cf_EnableGuestAPI cfg = fl_enable_guest_api fl" and "cf_EnableMcuAPI cfg = fl_enable_mcu_api fl" and "cf_Gatherer cfg"
    using c(1) serve_auth_frame [OF c(2)] by (simp_all add: c(3) serve_rtm_def serve_frame_def serve_apis_def)
qed

lemma serve_config_auth:
  assumes "serve_config env fl = Inr cfg"
  obtains c7 c8 where "serve_auth env fl c7 = Inr c8" and "cf_AuthBasicAllowedValues c7 = None" and "cfg = serve_rtm fl c8"
proof -
  obtain c1 c7 c8 where c: "serve_frame empty_Config c1" "serve_frame (serve_apis fl c1) c7" "serve_auth env fl c7 = Inr c8"
      "cfg = serve_rtm fl c8"
    by (rule serve_config_sections [OF assms])
  then have "cf_AuthBasicAllowedValues c7 = None" by (simp add: serve_frame_def serve_apis_def empty_Config_def)
  with c(3,4) show thesis by (intro that)
qed


lemma trim_drop_cr: "trim_space (drop_cr s) = trim_space s"
proof (cases "s \<noteq> [] \<and> last s = CHR 0x0D")
  case True
  then have "s = butlast s @ [CHR 0x0D]" by (metis append_butlast_last_id)
  then have "trim_space s = trim_space (butlast s)"
    using trim_space_cr [of "butlast s"] by simp
  with True show ?thesis by (simp add: drop_cr_def)
qed (auto simp: drop_cr_def)

lemma in_basic_values:
  "v \<in> set (basic_values (map drop_cr ls)) \<longleftrightarrow> \<not> has_prefix v ''#'' \<and> (\<exists>l \<in> set ls. v = trim_space l)"
  by (auto simp: basic_values_def trim_drop_cr)

end
