(* ===== verification/Server.thy ===== *)
theory Server
  imports Services Config
begin

text \<open>
  Starting and stopping the server (\<open>src/signaling/server/server.go\<close>, \<open>handlers.go\<close>): what \<open>Serve\<close> builds
  from a configuration, in its order and with its errors, and the loop that waits for the active
  connections when it ends. The OIDC library, the registration file, random bytes, regular expressions
  and the listener are arguments.
\<close>

section \<open>Starting\<close>

record 'k serve_env =
  se_bootstrapBuild :: "string option"
  se_oidcNewProvider :: "string option"
  se_oidcInitialize :: "url \<Rightarrow> string option"
  se_readConf :: "string \<Rightarrow> string + 'k ClientRegistration option list"
  se_randomBytes :: "nat \<Rightarrow> string + string"
  se_regexp :: "string \<Rightarrow> (string \<Rightarrow> bool) option"
  se_listen :: "string \<Rightarrow> string option"

text \<open>What is running after the start; the managers that are not enabled are nil.\<close>

record 'k started =
  st_services :: Services
  st_admin :: admin_Manager
  st_mcu :: "mcu_Manager option"
  st_guest :: "'k guest_Manager option"
  st_rtm :: "rtm_Manager option"
  st_routes :: "route list"
  st_fileServices :: nat

text \<open>A start that does not succeed returns an error or panics.\<close>

datatype start_failure = StartErr string | StartPanic

definition start_try :: "string + 'a \<Rightarrow> ('a \<Rightarrow> start_failure + 'b) \<Rightarrow> start_failure + 'b" where
  "start_try x f = (case x of Inl e \<Rightarrow> Inl (StartErr e) | Inr a \<Rightarrow> f a)"

lemma start_try_Inr: "start_try x f = Inr b \<longleftrightarrow> (\<exists>a. x = Inr a \<and> f a = Inr b)"
  by (simp add: start_try_def split: sum.splits)

definition bootstrapBuild_standard :: "string option" where
  "bootstrapBuild_standard = None"

definition HealthCheckHandler :: "unit http_result" where
  "HealthCheckHandler = HttpWrites [HttpStatus StatusOK]"

text \<open>The OIDC provider is set when an issuer is configured; that it is not ready in time is only logged.\<close>

definition setup_oidc :: "'k serve_env \<Rightarrow> Config \<Rightarrow> string + bool" where
  "setup_oidc env cfg =
     (case cf_Iss cfg of
        None \<Rightarrow> Inr False
      | Some iss \<Rightarrow>
          (case se_oidcNewProvider env of
             Some e \<Rightarrow> Inl (''failed to create kcoidc provider for server: '' @ e)
           | None \<Rightarrow>
               (case se_oidcInitialize env iss of
                  Some e \<Rightarrow> Inl (''OIDC provider initialization error: '' @ e)
                | None \<Rightarrow> Inr True)))"

definition turn_settings_of :: "Config \<Rightarrow> turn_settings" where
  "turn_settings_of cfg = \<lparr>ts_URIs = cf_TURNURIs cfg, ts_SharedSecret = cf_TURNServerSharedSecret cfg,
     ts_ServiceURL = cf_TURNServerServiceURL cfg, ts_ServiceUsername = cf_TURNServerServiceUsername cfg,
     ts_ServicePassword = cf_TURNServerServicePassword cfg\<rparr>"

definition setup_clients :: "'k serve_env \<Rightarrow> Config \<Rightarrow> start_failure + 'k Registry option" where
  "setup_clients env cfg =
     (if cf_RegistrationConf cfg = [] then Inr None
      else case NewRegistry (cf_Iss cfg) (se_readConf env) (cf_RegistrationConf cfg) of
        None \<Rightarrow> Inl StartPanic
      | Some (Inl e) \<Rightarrow> Inl (StartErr (''failed to initialize clients registry: '' @ e))
      | Some (Inr r) \<Rightarrow> Inr (Some r))"

text \<open>The admin manager and whether its API is exposed: only with a configured key of at least 32 bytes.\<close>

definition setup_admin :: "'k serve_env \<Rightarrow> Config \<Rightarrow> string + admin_Manager \<times> bool" where
  "setup_admin env cfg =
     try_bind
       (case cf_AdminTokensSigningKey cfg of
          Some key \<Rightarrow>
            if length key < 32 then map_sum ((@) ''unable to create random key, '') (\<lambda>k. (k, False)) (se_randomBytes env 32)
            else Inr (key, True)
        | None \<Rightarrow> map_sum ((@) ''unable to create random key, '') (\<lambda>k. (k, False)) (se_randomBytes env 32))
       (\<lambda>(key, exposed).
          let m = AddTokenKey [] key admin_NewManager
          in Inr (if cf_EnableAuthBasic cfg then SetBasicAuth (cf_AuthBasicAllowedValues cfg) m else m, exposed))"

definition setup_guest :: "'k serve_env \<Rightarrow> Config \<Rightarrow> 'k Registry option \<Rightarrow> 'k guest_Manager option" where
  "setup_guest env cfg registry =
     (if cf_EnableGuestAPI cfg
      then Some (guest_NewManager (se_regexp env) registry (cf_GuestsCanCreateChannels cfg) (cf_GuestPublicAccessPattern cfg))
      else None)"

definition setup_rtm :: "'k serve_env \<Rightarrow> Config \<Rightarrow> bool \<Rightarrow> turn_Server option \<Rightarrow> rtm_Manager option" where
  "setup_rtm env cfg oidc turnsrv =
     (if cf_EnableRTMAPI cfg
      then Some (rtm_NewManager (se_regexp env) (cf_AllowInsecureAuth cfg) (cf_RTMRequiredScopes cfg)
        (cf_PipelineForcedPattern cfg) (cf_EnableMcuAPI cfg) oidc turnsrv)
      else None)"

text \<open>The routes of the server, of API version 2, and of the documentation and the static files.\<close>

definition setup_files :: "Config \<Rightarrow> string + route list \<times> nat" where
  "setup_files cfg =
     (if cf_EnableDocs cfg \<and> cf_DocsRoot cfg = [] then Inl ''unable to enable docs API without docs root''
      else if cf_EnableWww cfg \<and> cf_WwwRoot cfg = [] then Inl ''unable to enable www API without www root''
      else Inr ((if cf_EnableDocs cfg then www_AddRoutes ''/docs'' (cf_DocsRoot cfg) else []) @
                (if cf_EnableWww cfg then www_AddRoutes ''/'' (cf_WwwRoot cfg) else []),
                (if cf_EnableDocs cfg then 1 else 0) + (if cf_EnableWww cfg then 1 else 0)))"

definition Serve_start :: "'k serve_env \<Rightarrow> Config \<Rightarrow> start_failure + 'k started" where
  "Serve_start env cfg =
     (case se_bootstrapBuild env of
        Some e \<Rightarrow> Inl (StartErr (''serve hook failed: '' @ e))
      | None \<Rightarrow>
          start_try (setup_oidc env cfg) (\<lambda>oidc.
          start_try (setup_turn (turn_settings_of cfg)) (\<lambda>turnsrv.
          try_bind (setup_clients env cfg) (\<lambda>registry.
          start_try (setup_admin env cfg) (\<lambda>(adminm, exposed).
          let services = NewServices\<lparr>sv_AdminManager := exposed, sv_MCUManager := cf_EnableMcuAPI cfg,
                sv_GuestManager := cf_EnableGuestAPI cfg, sv_RTMManager := cf_EnableRTMAPI cfg\<rparr>
          in start_try (setup_files cfg) (\<lambda>(files, n).
             case se_listen env (cf_ListenAddr cfg) of
               Some e \<Rightarrow> Inl (StartErr e)
             | None \<Rightarrow>
                 Inr \<lparr>st_services = services\<lparr>sv_ready := True\<rparr>, st_admin = adminm,
                   st_mcu = (if cf_EnableMcuAPI cfg then Some mcu_NewManager else None),
                   st_guest = setup_guest env cfg registry, st_rtm = setup_rtm env cfg oidc turnsrv,
                   st_routes = server_AddRoutes @ v2_AddRoutes services @ files, st_fileServices = n\<rparr>))))))"

section \<open>Stopping\<close>

text \<open>
  One iteration of the loop at the end of \<open>Serve\<close> sees a state of the managers, whether the listener has
  exited, and is woken by a signal or by the timer of 100 milliseconds. The loop returns in the
  iteration with the resulting index; \<open>None\<close> says that it has not returned within the observed
  iterations.
\<close>

datatype wake = WakeSignal | WakeTimer

definition server_NumActive :: "'k started \<Rightarrow> world \<Rightarrow> u64" where
  "server_NumActive st w =
     fold (\<lambda>n numActive. numActive + n) (HTTPService_NumActive (st_services st) w # replicate (st_fileServices st) www_NumActive) 0"

fun shutdown_wait :: "'k started \<Rightarrow> (world \<times> bool \<times> wake) list \<Rightarrow> nat option" where
  "shutdown_wait st [] = None"
| "shutdown_wait st ((w, exited, wk) # obs) =
     (if server_NumActive st w = 0 \<and> exited then Some 0
      else case wk of WakeSignal \<Rightarrow> Some 0 | WakeTimer \<Rightarrow> map_option Suc (shutdown_wait st obs))"

section \<open>Properties\<close>

fun service_enabled :: "Config \<Rightarrow> service \<Rightarrow> bool" where
  "service_enabled cfg AdminService \<longleftrightarrow> (case cf_AdminTokensSigningKey cfg of None \<Rightarrow> False | Some key \<Rightarrow> 32 \<le> length key)"
| "service_enabled cfg MCUService \<longleftrightarrow> cf_EnableMcuAPI cfg"
| "service_enabled cfg RTMService \<longleftrightarrow> cf_EnableRTMAPI cfg"
| "service_enabled cfg GuestService \<longleftrightarrow> cf_EnableGuestAPI cfg"

lemma setup_admin_Inr:
  assumes "setup_admin env cfg = Inr (m, exposed)"
  shows "exposed = service_enabled cfg AdminService"
    and "\<exists>key. (if exposed then cf_AdminTokensSigningKey cfg = Some key \<and> 32 \<le> length key else se_randomBytes env 32 = Inr key) \<and>
      m = (if cf_EnableAuthBasic cfg then SetBasicAuth (cf_AuthBasicAllowedValues cfg) (AddTokenKey [] key admin_NewManager)
           else AddTokenKey [] key admin_NewManager)"
  using assms
  by (auto simp: setup_admin_def try_bind_def Let_def map_sum_def split: option.splits sum.splits if_splits)

lemma Serve_start_Inr:
  assumes "Serve_start env cfg = Inr st"
  obtains exposed files n oidc turnsrv registry where "setup_admin env cfg = Inr (st_admin st, exposed)"
    and "setup_files cfg = Inr (files, n)" and "setup_turn (turn_settings_of cfg) = Inr turnsrv"
    and "setup_oidc env cfg = Inr oidc" and "st_rtm st = setup_rtm env cfg oidc turnsrv"
    and "setup_clients env cfg = Inr registry" and "st_guest st = setup_guest env cfg registry"
    and "st_services st = \<lparr>sv_ready = True, sv_AdminManager = exposed, sv_MCUManager = cf_EnableMcuAPI cfg,
          sv_RTMManager = cf_EnableRTMAPI cfg, sv_GuestManager = cf_EnableGuestAPI cfg\<rparr>"
    and "st_routes st = server_AddRoutes @ v2_AddRoutes (st_services st\<lparr>sv_ready := False\<rparr>) @ files"
    and "st_fileServices st = n"
  using assms
  by (auto simp: Serve_start_def try_bind_Inr start_try_Inr Let_def NewServices_def split: option.splits prod.splits)

text \<open>Only a registry with a null entry makes the start panic.\<close>

lemma register_all_panic: "register_all clients r = None \<Longrightarrow> None \<in> set clients"
  by (induction clients r rule: register_all.induct) (auto split: sum.splits)

lemma Serve_start_panic:
  assumes "Serve_start env cfg = Inl StartPanic"
  shows "\<exists>clients. cf_RegistrationConf cfg \<noteq> [] \<and> se_readConf env (cf_RegistrationConf cfg) = Inr clients \<and> None \<in> set clients"
  using assms
  by (auto simp: Serve_start_def start_try_def try_bind_def setup_clients_def NewRegistry_def Let_def
      split: option.splits sum.splits prod.splits if_splits dest!: register_all_panic)

lemma file_routes_no_service:
  "setup_files cfg = Inr (files, n) \<Longrightarrow> r \<in> set files \<Longrightarrow> handler_service (rt_handler r) = None"
  by (auto simp: setup_files_def www_AddRoutes_def plain_route_def split: if_splits)

text \<open>
  C20. A started server offers what was configured and nothing else: there are routes to the handlers of
  a service exactly when the service is enabled (the admin API: when a key of at least 32 bytes was
  configured), and with or without the admin API the key that signs and checks tokens has at least 32
  bytes, provided the random source fills the 32 bytes it is asked for.
\<close>

theorem started_routes_exact:
  assumes "Serve_start env cfg = Inr st" and "\<And>n k. se_randomBytes env n = Inr k \<Longrightarrow> length k = n"
  shows "((\<exists>r \<in> set (st_routes st). handler_service (rt_handler r) = Some svc) \<longleftrightarrow> service_enabled cfg svc) \<and>
    (\<exists>key. gm_get (am_tokensKeys (st_admin st)) (am_tokensSigningKeyID (st_admin st)) = Some key \<and> 32 \<le> length key)"
proof (rule Serve_start_Inr [OF assms(1)])
  fix exposed files n
  assume adm: "setup_admin env cfg = Inr (st_admin st, exposed)" and files: "setup_files cfg = Inr (files, n)"
    and sv: "st_services st = \<lparr>sv_ready = True, sv_AdminManager = exposed, sv_MCUManager = cf_EnableMcuAPI cfg,
          sv_RTMManager = cf_EnableRTMAPI cfg, sv_GuestManager = cf_EnableGuestAPI cfg\<rparr>"
    and rt: "st_routes st = server_AddRoutes @ v2_AddRoutes (st_services st\<lparr>sv_ready := False\<rparr>) @ files"
  note key = setup_admin_Inr [OF adm]
  have "(\<exists>r \<in> set (st_routes st). handler_service (rt_handler r) = Some svc) \<longleftrightarrow>
      (\<exists>r \<in> set (v2_AddRoutes (st_services st\<lparr>sv_ready := False\<rparr>)). handler_service (rt_handler r) = Some svc)"
    unfolding rt using file_routes_no_service [OF files] by (auto simp: server_AddRoutes_def plain_route_def)
  also have "\<dots> \<longleftrightarrow> service_enabled cfg svc"
    unfolding v2_routes_service using key(1) by (cases svc) (simp_all add: sv Services_Services_def)
  finally have "(\<exists>r \<in> set (st_routes st). handler_service (rt_handler r) = Some svc) \<longleftrightarrow> service_enabled cfg svc" .
  moreover from key(2) have "\<exists>key. gm_get (am_tokensKeys (st_admin st)) (am_tokensSigningKeyID (st_admin st)) = Some key \<and> 32 \<le> length key"
    using assms(2) [of 32]
    by (auto simp: AddTokenKey_def admin_NewManager_def SetBasicAuth_def split: if_splits option.splits)
  ultimately show ?thesis ..
qed


definition example_serve_env :: "unit serve_env" where
  "example_serve_env = \<lparr>se_bootstrapBuild = None, se_oidcNewProvider = None, se_oidcInitialize = (\<lambda>_. None),
     se_readConf = (\<lambda>_. Inr []), se_randomBytes = (\<lambda>n. Inr (replicate n (CHR ''r''))), se_regexp = (\<lambda>_. None),
     se_listen = (\<lambda>_. None)\<rparr>"

text \<open>A file with a comment, a value and no newline at the end.\<close>

definition example_os :: os_env where
  "example_os = \<lparr>os_getenv = (\<lambda>_. []), os_abs = Inr, os_stat = (\<lambda>_. Inr False),
     os_open = (\<lambda>_. Inr (''# c'' @ [CHR 0x0A] @ '' a '', None)), os_parseURL = (\<lambda>_. Inl []), os_parseLevel = (\<lambda>_. None)\<rparr>"

definition example_flags :: Flags where
  "example_flags = commandServe\<lparr>fl_enable_auth_basic := True, fl_auth_basic_values := ''v''\<rparr>"

definition example_started :: "unit started" where
  "example_started = \<lparr>st_services = NewServices\<lparr>sv_ready := True, sv_RTMManager := True\<rparr>, st_admin = admin_NewManager,
     st_mcu = None, st_guest = None, st_rtm = None, st_routes = [], st_fileServices = 1\<rparr>"

theorem started_routes_exact_witness:
  "\<exists>cfg st. Serve_start example_serve_env cfg = Inr st \<and>
     (\<exists>r \<in> set (st_routes st). handler_service (rt_handler r) = Some RTMService)"
proof -
  obtain st where st: "Serve_start example_serve_env (empty_Config\<lparr>cf_EnableRTMAPI := True\<rparr>) = Inr st"
    by (simp add: Serve_start_def setup_oidc_def setup_turn_def turn_settings_of_def setup_clients_def setup_admin_def
        setup_files_def try_bind_def start_try_def Let_def example_serve_env_def empty_Config_def)
  have "(\<exists>r \<in> set (st_routes st). handler_service (rt_handler r) = Some RTMService) \<longleftrightarrow>
      service_enabled (empty_Config\<lparr>cf_EnableRTMAPI := True\<rparr>) RTMService"
    by (rule started_routes_exact [OF st, THEN conjunct1]) (auto simp: example_serve_env_def)
  with st show ?thesis by (intro exI [of _ "empty_Config\<lparr>cf_EnableRTMAPI := True\<rparr>"] exI [of _ st]) simp
qed

text \<open>The flags decide the basic authentication values.\<close>

lemma gm_get_fold_set: "gm_get (fold (\<lambda>v. gm_set v True) vs m) x = Some True \<longleftrightarrow> x \<in> set vs \<or> gm_get m x = Some True"
  by (induction vs arbitrary: m) (auto split: if_splits)

lemma takeWhile_full: "\<not> length (takeWhile P xs) < length xs \<Longrightarrow> takeWhile P xs = xs"
  by (metis not_less take_all takeWhile_eq_take)

lemma serve_auth_Inr:
  assumes "serve_auth env fl c = Inr c'"
  shows "cf_EnableAuthBasic c' = fl_enable_auth_basic fl"
    and "cf_AuthBasicAllowedValues c = None \<Longrightarrow> x \<in> set (case cf_AuthBasicAllowedValues c' of None \<Rightarrow> [] | Some vs \<Rightarrow> vs) \<longleftrightarrow>
      fl_enable_auth_basic fl \<and>
      (\<exists>content. os_open env (fl_auth_basic_values fl) = Inr (content, None) \<and> x \<in> set (basic_values (map drop_cr (scan_lines content))))"
proof -
  show "cf_EnableAuthBasic c' = fl_enable_auth_basic fl"
    using assms by (auto simp: serve_auth_def Let_def split: if_splits sum.splits prod.splits option.splits)
  assume none: "cf_AuthBasicAllowedValues c = None"
  show "x \<in> set (case cf_AuthBasicAllowedValues c' of None \<Rightarrow> [] | Some vs \<Rightarrow> vs) \<longleftrightarrow> fl_enable_auth_basic fl \<and>
      (\<exists>content. os_open env (fl_auth_basic_values fl) = Inr (content, None) \<and> x \<in> set (basic_values (map drop_cr (scan_lines content))))"
  proof (cases "fl_enable_auth_basic fl")
    case True
    then obtain content err ls where o: "os_open env (fl_auth_basic_values fl) = Inr (content, err)" "scan content err = (ls, None)"
        and c': "cf_AuthBasicAllowedValues c' = (if basic_values ls = [] then None else Some (basic_values ls))"
      using assms by (auto simp: serve_auth_def Let_def split: if_splits sum.splits prod.splits option.splits)
    let ?fits = "takeWhile (\<lambda>l. length l < MaxScanTokenSize) (scan_lines content)"
    have "\<not> length ?fits < length (scan_lines content)" and err: "err = None" and ls: "ls = map drop_cr ?fits"
      using o(2) by (simp_all add: scan_def Let_def split: if_splits)
    then have "?fits = scan_lines content" by (intro takeWhile_full)
    with ls have ls: "ls = map drop_cr (scan_lines content)" by simp
    show ?thesis using True o(1) c' unfolding err ls by auto
  next
    case False
    then show ?thesis using assms none by (auto simp: serve_auth_def Let_def)
  qed
qed


text \<open>
  C21. From the command line to the check: a server that was started from flags accepts a basic
  authentication value exactly when basic authentication was enabled with the flag and the value is a
  line of the named file, without surrounding white space, that is not a comment.
\<close>

theorem basic_auth_follows_file:
  assumes "serve_config env fl = Inr cfg" and "Serve_start senv cfg = Inr st"
  shows "(am_authBasicEnabled (st_admin st) \<and> CheckBasicAuth value (st_admin st)) \<longleftrightarrow>
    fl_enable_auth_basic fl \<and>
    (\<exists>content. os_open env (fl_auth_basic_values fl) = Inr (content, None) \<and>
       \<not> has_prefix value ''#'' \<and> (\<exists>line \<in> set (scan_lines content). value = trim_space line))"
proof (rule Serve_start_Inr [OF assms(2)])
  fix exposed assume adm: "setup_admin senv cfg = Inr (st_admin st, exposed)"
  obtain c7 c8 where c: "serve_auth env fl c7 = Inr c8" "cf_AuthBasicAllowedValues c7 = None" "cfg = serve_rtm fl c8"
    by (rule serve_config_auth [OF assms(1)])
  have cfg: "cf_EnableAuthBasic cfg = fl_enable_auth_basic fl" "cf_AuthBasicAllowedValues cfg = cf_AuthBasicAllowedValues c8"
    using serve_auth_Inr(1) [OF c(1)] by (simp_all add: c(3) serve_rtm_def)
  have "(am_authBasicEnabled (st_admin st) \<and> CheckBasicAuth value (st_admin st)) \<longleftrightarrow>
      fl_enable_auth_basic fl \<and> value \<in> set (case cf_AuthBasicAllowedValues c8 of None \<Rightarrow> [] | Some vs \<Rightarrow> vs)"
    using setup_admin_Inr(2) [OF adm] cfg
    by (auto simp: SetBasicAuth_def CheckBasicAuth_def AddTokenKey_def admin_NewManager_def gm_get_fold_set
        split: option.splits if_splits)
  then show ?thesis unfolding serve_auth_Inr(2) [OF c(1,2)] in_basic_values by blast
qed

lemma example_flags_ok:
  "\<exists>cfg. serve_config example_os example_flags = Inr cfg \<and> cf_Iss cfg = None \<and> cf_TURNServerSharedSecret cfg = None \<and>
     cf_TURNServerServiceUsername cfg = [] \<and> cf_RegistrationConf cfg = [] \<and> cf_AdminTokensSigningKey cfg = None \<and>
     \<not> cf_EnableDocs cfg \<and> \<not> cf_EnableWww cfg"
proof -
  have "scan (''# c'' @ [CHR 0x0A] @ '' a '') None = ([''# c'', '' a ''], None)"
    by (simp add: scan_def scan_lines.simps MaxScanTokenSize_def drop_cr_def)
  then show ?thesis
    by (simp add: serve_config_def newLogger_def serve_section_defs serve_root_def commandServe_def example_os_def example_flags_def try_bind_def Let_def
        flag_or_env_def empty_Config_def)
qed

theorem basic_auth_follows_file_witness:
  "\<exists>cfg st. serve_config example_os example_flags = Inr cfg \<and> Serve_start example_serve_env cfg = Inr st \<and>
     CheckBasicAuth ''a'' (st_admin st)"
proof -
  obtain cfg where cfg: "serve_config example_os example_flags = Inr cfg" "cf_Iss cfg = None" "cf_TURNServerSharedSecret cfg = None"
      "cf_TURNServerServiceUsername cfg = []" "cf_RegistrationConf cfg = []" "cf_AdminTokensSigningKey cfg = None"
      "\<not> cf_EnableDocs cfg" "\<not> cf_EnableWww cfg"
    using example_flags_ok by blast
  obtain st where st: "Serve_start example_serve_env cfg = Inr st"
    using cfg by (simp add: Serve_start_def setup_oidc_def setup_turn_def turn_settings_of_def setup_clients_def setup_admin_def
        setup_files_def try_bind_def start_try_def Let_def example_serve_env_def)
  have "\<exists>line \<in> set (scan_lines (''# c'' @ [CHR 0x0A] @ '' a '')). ''a'' = trim_space line"
    by code_simp
  then have "CheckBasicAuth ''a'' (st_admin st)"
    using basic_auth_follows_file [OF cfg(1) st, of "''a''"] by (auto simp: example_os_def example_flags_def has_prefix_def)
  with cfg(1) st show ?thesis by blast
qed

section \<open>Stopping\<close>

lemma HTTPService_NumActive_zero:
  assumes "length (rm_connections (w_rtm w)) + length (mm_connections (w_mcu w)) < 2 ^ 64"
  shows "HTTPService_NumActive s w = 0 \<longleftrightarrow>
    (sv_RTMManager s \<longrightarrow> rm_connections (w_rtm w) = []) \<and> (sv_MCUManager s \<longrightarrow> mm_connections (w_mcu w) = [])"
proof -
  have z: "(of_nat n :: u64) = 0 \<longleftrightarrow> n = 0" if "n < 2 ^ 64" for n
    using that by (auto simp: word_of_nat_eq_0_iff dest: dvd_imp_le)
  have "HTTPService_NumActive s w = of_nat ((if sv_MCUManager s then length (mm_connections (w_mcu w)) else 0) +
      (if sv_RTMManager s then length (rm_connections (w_rtm w)) else 0))"
    by (simp add: HTTPService_NumActive_def Services_Services_def admin_NumActive_def guest_NumActive_def mcu_NumActive_def rtm_NumActive_def)
  then show ?thesis
    using z [of "(if sv_MCUManager s then length (mm_connections (w_mcu w)) else 0) +
      (if sv_RTMManager s then length (rm_connections (w_rtm w)) else 0)"] assms
    by (auto split: if_splits)
qed

lemma server_NumActive_eq: "server_NumActive st w = HTTPService_NumActive (st_services st) w"
proof -
  have "fold (\<lambda>n numActive. numActive + n) (replicate k www_NumActive) a = a" for k and a :: u64
    by (induction k) (simp_all add: www_NumActive_def)
  then show ?thesis by (simp add: server_NumActive_def)
qed

text \<open>
  Stopping ends, and not too early: if in some observed iteration the listener has exited and no
  connection of an enabled manager is registered, the loop returns in that iteration or before; and
  when it returns in an iteration, then either that iteration is such a one or a signal woke it,
  while all iterations before were neither.
\<close>

theorem shutdown_wait_returns:
  assumes "\<And>w x wk. (w, x, wk) \<in> set obs \<Longrightarrow> length (rm_connections (w_rtm w)) + length (mm_connections (w_mcu w)) < 2 ^ 64"
    and "quiet = (\<lambda>(w, exited, _ :: wake). exited \<and> (sv_RTMManager (st_services st) \<longrightarrow> rm_connections (w_rtm w) = []) \<and>
      (sv_MCUManager (st_services st) \<longrightarrow> mm_connections (w_mcu w) = []))"
    and "i < length obs" and "quiet (obs ! i)"
  shows "\<exists>n \<le> i. shutdown_wait st obs = Some n \<and> (quiet (obs ! n) \<or> snd (snd (obs ! n)) = WakeSignal) \<and>
    (\<forall>m < n. \<not> quiet (obs ! m) \<and> snd (snd (obs ! m)) = WakeTimer)"
  using assms(1,3,4)
proof (induction obs arbitrary: i)
  case (Cons x obs)
  obtain w e wk where x: "x = (w, e, wk)" by (cases x)
  have q: "quiet x \<longleftrightarrow> server_NumActive st w = 0 \<and> e"
    using HTTPService_NumActive_zero [OF Cons.prems(1) [of w e wk]] by (auto simp: assms(2) x server_NumActive_eq)
  show ?case
  proof (cases "quiet x \<or> wk = WakeSignal")
    case True
    then have "shutdown_wait st (x # obs) = Some 0" using q by (auto simp: x)
    with True show ?thesis by (intro exI [of _ 0]) (auto simp: x)
  next
    case False
    then have wk: "wk = WakeTimer" by (cases wk) auto
    with False Cons.prems(3) obtain j where j: "i = Suc j" by (cases i) auto
    have "\<exists>n \<le> j. shutdown_wait st obs = Some n \<and> (quiet (obs ! n) \<or> snd (snd (obs ! n)) = WakeSignal) \<and>
        (\<forall>m < n. \<not> quiet (obs ! m) \<and> snd (snd (obs ! m)) = WakeTimer)"
      by (rule Cons.IH) (use Cons.prems j in auto)
    then obtain n where n: "n \<le> j" "shutdown_wait st obs = Some n" "quiet (obs ! n) \<or> snd (snd (obs ! n)) = WakeSignal"
        "\<forall>m < n. \<not> quiet (obs ! m) \<and> snd (snd (obs ! m)) = WakeTimer"
      by blast
    have "\<forall>m < Suc n. \<not> quiet ((x # obs) ! m) \<and> snd (snd ((x # obs) ! m)) = WakeTimer"
      using n(4) False wk by (auto simp: nth_Cons' x)
    moreover have "shutdown_wait st (x # obs) = Some (Suc n)" using n(2) False q wk by (auto simp: x)
    ultimately show ?thesis using n(1,3) j by (intro exI [of _ "Suc n"]) auto
  qed
qed simp

theorem shutdown_wait_returns_witness:
  "\<exists>n \<le> 1. shutdown_wait example_started
     [(upd_rtm (\<lambda>m. m\<lparr>rm_connections := [(''1'', 3)]\<rparr>) example_world, True, WakeTimer), (example_world, True, WakeTimer)] = Some n"
proof -
  let ?obs = "[(upd_rtm (\<lambda>m. m\<lparr>rm_connections := [(''1'', 3)]\<rparr>) example_world, True, WakeTimer), (example_world, True, WakeTimer)]"
  have "\<exists>n \<le> 1. shutdown_wait example_started ?obs = Some n \<and>
      ((\<lambda>(w, exited, _ :: wake). exited \<and> (sv_RTMManager (st_services example_started) \<longrightarrow> rm_connections (w_rtm w) = []) \<and>
        (sv_MCUManager (st_services example_started) \<longrightarrow> mm_connections (w_mcu w) = [])) (?obs ! n) \<or> snd (snd (?obs ! n)) = WakeSignal) \<and>
      (\<forall>m < n. \<not> (\<lambda>(w, exited, _ :: wake). exited \<and> (sv_RTMManager (st_services example_started) \<longrightarrow> rm_connections (w_rtm w) = []) \<and>
        (sv_MCUManager (st_services example_started) \<longrightarrow> mm_connections (w_mcu w) = [])) (?obs ! m) \<and> snd (snd (?obs ! m)) = WakeTimer)"
    by (rule shutdown_wait_returns [OF _ refl])
      (auto simp: example_world_defs example_started_def NewServices_def)
  then show ?thesis by blast
qed

end
