(* ===== verification/Serve_Run.thy ===== *)
theory Serve_Run
  imports Server
begin

text \<open>
  \<open>Serve\<close> from the running listener to its return (\<open>src/signaling/server/server.go\<close>): the goroutine of the
  HTTP listener, the two Go channels between it and \<open>Serve\<close>, signals, \<open>Shutdown\<close> and the loop at the end,
  as steps that interleave with arbitrary changes of the managers. Shown: what \<open>Serve\<close> returns, and that
  it can return.
\<close>

section \<open>States and steps\<close>

text \<open>
  The listener goroutine: \<open>srv.Serve\<close> runs, has returned an error, the error has been sent, the goroutine
  has closed \<open>exitCh\<close>. \<open>srv.Serve\<close> always returns an error, and \<open>ErrServerClosed\<close> exactly after \<open>Shutdown\<close>.
\<close>

datatype listener = L_Serving | L_Failed string | L_Sent string | L_Exited string

datatype serve_pc = SV_Notify | SV_Select | SV_Shutdown | SV_Stopping | SV_Loop | SV_Sleep | SV_Done

record serve_state =
  ss_pc :: serve_pc
  ss_listener :: listener
  ss_errCh :: "string list"
  ss_exitClosed :: bool
  ss_shutdown :: bool
  ss_cancelled :: bool
  ss_signals :: nat
  ss_err :: "string option"
  ss_world :: world

definition ErrServerClosed :: string where
  "ErrServerClosed = ''http: Server closed''"

definition serve_init :: "serve_state \<Rightarrow> bool" where
  "serve_init s \<longleftrightarrow> (\<exists>w. s = \<lparr>ss_pc = SV_Notify, ss_listener = L_Serving, ss_errCh = [], ss_exitClosed = False, ss_shutdown = False,
     ss_cancelled = False, ss_signals = 0, ss_err = None, ss_world = w\<rparr>)"

inductive listener_step :: "serve_state \<Rightarrow> serve_state \<Rightarrow> bool" where
  serve_fails: "ss_listener s = L_Serving \<Longrightarrow> \<not> ss_shutdown s \<Longrightarrow> e \<noteq> ErrServerClosed \<Longrightarrow> listener_step s (s\<lparr>ss_listener := L_Failed e\<rparr>)"
| serve_closed: "ss_listener s = L_Serving \<Longrightarrow> ss_shutdown s \<Longrightarrow> listener_step s (s\<lparr>ss_listener := L_Failed ErrServerClosed\<rparr>)"
| serve_send: "ss_listener s = L_Failed e \<Longrightarrow> length (ss_errCh s) < 2 \<Longrightarrow>
    listener_step s (s\<lparr>ss_listener := L_Sent e, ss_errCh := ss_errCh s @ [e]\<rparr>)"
| serve_exit: "ss_listener s = L_Sent e \<Longrightarrow> listener_step s (s\<lparr>ss_listener := L_Exited e, ss_exitClosed := True\<rparr>)"

text \<open>
  The goroutine of \<open>Serve\<close> without signals. \<open>Shutdown\<close> stops the listener and returns when the requests have
  ended or after ten seconds; its error is only logged.
\<close>

inductive serve_main_step :: "'k started \<Rightarrow> serve_state \<Rightarrow> serve_state \<Rightarrow> bool" for st where
  serve_notify: "ss_pc s = SV_Notify \<Longrightarrow> serve_main_step st s (s\<lparr>ss_pc := SV_Select\<rparr>)"
| select_error: "ss_pc s = SV_Select \<Longrightarrow> ss_errCh s = e # es \<Longrightarrow>
    serve_main_step st s (s\<lparr>ss_pc := SV_Shutdown, ss_errCh := es, ss_err := Some e\<rparr>)"
| shutdown_begin: "ss_pc s = SV_Shutdown \<Longrightarrow> serve_main_step st s (s\<lparr>ss_pc := SV_Stopping, ss_shutdown := True\<rparr>)"
| shutdown_end: "ss_pc s = SV_Stopping \<Longrightarrow> serve_main_step st s (s\<lparr>ss_pc := SV_Loop, ss_cancelled := True\<rparr>)"
| loop_return: "ss_pc s = SV_Loop \<Longrightarrow> server_NumActive st (ss_world s) = 0 \<Longrightarrow> ss_exitClosed s \<Longrightarrow>
    serve_main_step st s (s\<lparr>ss_pc := SV_Done\<rparr>)"
| loop_wait: "ss_pc s = SV_Loop \<Longrightarrow> \<not> (server_NumActive st (ss_world s) = 0 \<and> ss_exitClosed s) \<Longrightarrow>
    serve_main_step st s (s\<lparr>ss_pc := SV_Sleep\<rparr>)"
| sleep_timer: "ss_pc s = SV_Sleep \<Longrightarrow> serve_main_step st s (s\<lparr>ss_pc := SV_Loop\<rparr>)"

text \<open>
  A signal reaches \<open>Serve\<close> only while it receives from \<open>signalCh\<close>, which has no buffer; the signal package
  drops it otherwise.
\<close>

inductive signal_step :: "serve_state \<Rightarrow> serve_state \<Rightarrow> bool" where
  signal_select: "ss_pc s = SV_Select \<Longrightarrow> signal_step s (s\<lparr>ss_pc := SV_Shutdown, ss_signals := Suc (ss_signals s)\<rparr>)"
| signal_sleep: "ss_pc s = SV_Sleep \<Longrightarrow> signal_step s (s\<lparr>ss_pc := SV_Done, ss_signals := Suc (ss_signals s)\<rparr>)"
| signal_dropped: "ss_pc s \<in> {SV_Shutdown, SV_Stopping, SV_Loop} \<Longrightarrow> signal_step s s"

definition serve_own_step :: "'k started \<Rightarrow> serve_state \<Rightarrow> serve_state \<Rightarrow> bool" where
  "serve_own_step st s t \<longleftrightarrow> listener_step s t \<or> serve_main_step st s t"

definition serve_run_step :: "'k started \<Rightarrow> serve_state \<Rightarrow> serve_state \<Rightarrow> bool" where
  "serve_run_step st s t \<longleftrightarrow> serve_own_step st s t \<or> signal_step s t \<or> (\<exists>w. t = s\<lparr>ss_world := w\<rparr>)"

section \<open>The invariant\<close>

text \<open>The error of the listener is on its way: not yet sent, in \<open>errCh\<close>, or received by \<open>Serve\<close>.\<close>

fun listener_ok :: "listener \<Rightarrow> string list \<Rightarrow> string option \<Rightarrow> bool \<Rightarrow> bool \<Rightarrow> bool" where
  "listener_ok L_Serving ch err closed stop \<longleftrightarrow> ch = [] \<and> err = None \<and> \<not> closed"
| "listener_ok (L_Failed e) ch err closed stop \<longleftrightarrow> ch = [] \<and> err = None \<and> \<not> closed \<and> (e = ErrServerClosed \<longrightarrow> stop)"
| "listener_ok (L_Sent e) ch err closed stop \<longleftrightarrow>
     (ch = [e] \<and> err = None \<and> (e = ErrServerClosed \<longrightarrow> stop) \<or> ch = [] \<and> err = Some e \<and> e \<noteq> ErrServerClosed) \<and> \<not> closed"
| "listener_ok (L_Exited e) ch err closed stop \<longleftrightarrow>
     (ch = [e] \<and> err = None \<and> (e = ErrServerClosed \<longrightarrow> stop) \<or> ch = [] \<and> err = Some e \<and> e \<noteq> ErrServerClosed) \<and> closed"

definition serve_inv :: "serve_state \<Rightarrow> bool" where
  "serve_inv s \<longleftrightarrow>
     listener_ok (ss_listener s) (ss_errCh s) (ss_err s) (ss_exitClosed s) (ss_shutdown s) \<and>
     (ss_shutdown s \<longleftrightarrow> ss_pc s \<in> {SV_Stopping, SV_Loop, SV_Sleep, SV_Done}) \<and>
     (ss_cancelled s \<longleftrightarrow> ss_pc s \<in> {SV_Loop, SV_Sleep, SV_Done}) \<and>
     (ss_pc s \<notin> {SV_Notify, SV_Select} \<longrightarrow> ss_err s = None \<longrightarrow> 0 < ss_signals s)"

lemma listener_inv_step: "listener_step s t \<Longrightarrow> serve_inv s \<Longrightarrow> serve_inv t"
  by (induction rule: listener_step.induct) (auto simp: serve_inv_def)

lemma listener_ok_take: "listener_ok l (e # es) err closed False \<Longrightarrow> listener_ok l es (Some e) closed False"
  by (cases l) auto

lemma listener_ok_stop: "listener_ok l ch err closed stop \<Longrightarrow> listener_ok l ch err closed True"
  by (cases l) auto

lemma main_inv_step: "serve_main_step st s t \<Longrightarrow> serve_inv s \<Longrightarrow> serve_inv t"
  by (induction rule: serve_main_step.induct) (auto simp: serve_inv_def intro: listener_ok_stop listener_ok_take)

lemma signal_inv_step: "signal_step s t \<Longrightarrow> serve_inv s \<Longrightarrow> serve_inv t"
  by (induction rule: signal_step.induct) (auto simp: serve_inv_def)

lemma world_inv_step: "serve_inv (s\<lparr>ss_world := w\<rparr>) = serve_inv s"
  by (simp add: serve_inv_def)

lemma serve_run_step_inv: "serve_inv s \<Longrightarrow> serve_run_step st s t \<Longrightarrow> serve_inv t"
  unfolding serve_run_step_def serve_own_step_def
  by (elim disjE exE) (simp_all add: world_inv_step listener_inv_step main_inv_step signal_inv_step)

interpretation serving: invariant_system serve_init "serve_run_step st" serve_inv for st
proof
  show "serve_inv s" if "serve_init s" for s using that by (auto simp: serve_init_def serve_inv_def)
  show "serve_inv t" if "serve_inv s" "serve_run_step st s t" for s t using that by (rule serve_run_step_inv)
qed

section \<open>Properties\<close>

text \<open>
  What \<open>Serve\<close> returns: without error only after a signal, and an error only if it is the one with which the
  listener ended by itself; the error that \<open>Shutdown\<close> causes in the listener is never returned. When it
  returns the context of all handlers has been cancelled. The listener never waits to send its error.
\<close>

lemma serve_returns_cause:
  assumes "reach serve_init (serve_run_step st) s"
  shows "(ss_pc s = SV_Done \<longrightarrow> ss_cancelled s \<and>
      (case ss_err s of None \<Rightarrow> 0 < ss_signals s | Some e \<Rightarrow> e \<noteq> ErrServerClosed \<and> ss_listener s \<in> {L_Sent e, L_Exited e})) \<and>
    (ss_listener s = L_Failed e \<longrightarrow> ss_errCh s = [])"
  using serving.reach_inv [OF assms] by (cases "ss_listener s") (auto simp: serve_inv_def split: option.splits)

definition signalled_state :: serve_state where
  "signalled_state = \<lparr>ss_pc = SV_Done, ss_listener = L_Serving, ss_errCh = [], ss_exitClosed = False, ss_shutdown = True,
     ss_cancelled = True, ss_signals = 2, ss_err = None, ss_world = example_world\<rparr>"

definition stopping_state :: serve_state where
  "stopping_state = signalled_state\<lparr>ss_pc := SV_Sleep, ss_signals := 1\<rparr>"

lemma serve_run_stepI: "listener_step s t \<Longrightarrow> serve_run_step st s t" "serve_main_step st s t \<Longrightarrow> serve_run_step st s t"
    "signal_step s t \<Longrightarrow> serve_run_step st s t"
  by (simp_all add: serve_run_step_def serve_own_step_def)

lemma stopping_state_reachable: "reach serve_init (serve_run_step example_started) stopping_state"
proof -
  let ?s = "\<lparr>ss_pc = SV_Notify, ss_listener = L_Serving, ss_errCh = [], ss_exitClosed = False, ss_shutdown = False,
     ss_cancelled = False, ss_signals = 0, ss_err = None, ss_world = example_world\<rparr>"
  have "reach serve_init (serve_run_step example_started) ?s" by (rule start) (auto simp: serve_init_def)
  note this [THEN next_step, OF serve_run_stepI(2), OF serve_notify]
  note this [simplified, THEN next_step, OF serve_run_stepI(3), OF signal_select]
  note this [simplified, THEN next_step, OF serve_run_stepI(2), OF shutdown_begin]
  note this [simplified, THEN next_step, OF serve_run_stepI(2), OF shutdown_end]
  note this [simplified, THEN next_step, OF serve_run_stepI(2), OF loop_wait]
  from this [simplified] show ?thesis by (simp add: stopping_state_def signalled_state_def)
qed

lemma serve_returns_cause_witness:
  "ss_pc signalled_state = SV_Done \<and> ss_err signalled_state = None \<and> 0 < ss_signals signalled_state \<and> ss_cancelled signalled_state"
proof -
  have "signal_step stopping_state signalled_state"
    using signal_sleep [of stopping_state] by (simp add: stopping_state_def signalled_state_def numeral_2_eq_2)
  then have "reach serve_init (serve_run_step example_started) signalled_state"
    using stopping_state_reachable by (blast intro: next_step serve_run_stepI(3))
  from serve_returns_cause [OF this, of "[]"] show ?thesis by (simp add: signalled_state_def)
qed

subsection \<open>Return\<close>

lemma own_stepI: "listener_step s t \<Longrightarrow> (serve_own_step st)\<^sup>*\<^sup>* t v \<Longrightarrow> (serve_own_step st)\<^sup>*\<^sup>* s v"
    "serve_main_step st s t \<Longrightarrow> (serve_own_step st)\<^sup>*\<^sup>* t v \<Longrightarrow> (serve_own_step st)\<^sup>*\<^sup>* s v"
  by (auto simp: serve_own_step_def intro: converse_rtranclp_into_rtranclp)

text \<open>\<open>Serve\<close> can return from a state by steps of its own, with a result, as long as no connection is active.\<close>

definition can_return :: "'k started \<Rightarrow> serve_state \<Rightarrow> string option \<Rightarrow> bool" where
  "can_return st s r \<longleftrightarrow> (\<exists>t. (serve_own_step st)\<^sup>*\<^sup>* s t \<and> ss_pc t = SV_Done \<and> ss_err t = r)"

lemma can_return_step: "listener_step s t \<Longrightarrow> can_return st t r \<Longrightarrow> can_return st s r"
    "serve_main_step st s t \<Longrightarrow> can_return st t r \<Longrightarrow> can_return st s r"
  unfolding can_return_def using own_stepI by blast+

lemma loop_exited_returns:
  assumes "ss_pc s = SV_Loop" and "server_NumActive st (ss_world s) = 0" and "ss_exitClosed s"
  shows "can_return st s (ss_err s)"
proof -
  have "can_return st (s\<lparr>ss_pc := SV_Done\<rparr>) (ss_err s)" unfolding can_return_def by force
  then show ?thesis by (rule can_return_step(2) [OF loop_return [OF assms]])
qed

lemma loop_sent_returns:
  assumes "ss_pc s = SV_Loop" and "server_NumActive st (ss_world s) = 0" and "ss_listener s = L_Sent e"
  shows "can_return st s (ss_err s)"
  using can_return_step(1) [OF serve_exit [OF assms(3)]] loop_exited_returns [of "s\<lparr>ss_listener := L_Exited e, ss_exitClosed := True\<rparr>" st] assms
  by simp

lemma loop_failed_returns:
  assumes "serve_inv s" and "ss_pc s = SV_Loop" and "server_NumActive st (ss_world s) = 0" and "ss_listener s = L_Failed e"
  shows "can_return st s (ss_err s)"
  using can_return_step(1) [OF serve_send [OF assms(4)]] loop_sent_returns [of "s\<lparr>ss_listener := L_Sent e, ss_errCh := [e]\<rparr>" st e] assms
  by (simp add: serve_inv_def)

lemma loop_returns:
  assumes "serve_inv s" and "ss_pc s = SV_Loop" and "server_NumActive st (ss_world s) = 0"
  shows "can_return st s (ss_err s)"
proof (cases "ss_listener s")
  case L_Serving
  let ?t = "s\<lparr>ss_listener := L_Failed ErrServerClosed\<rparr>"
  have step: "listener_step s ?t" by (rule serve_closed [OF L_Serving]) (use assms(1,2) in \<open>simp add: serve_inv_def\<close>)
  have "can_return st ?t (ss_err ?t)" by (rule loop_failed_returns [OF listener_inv_step [OF step assms(1)]]) (use assms in simp_all)
  then show ?thesis using can_return_step(1) [OF step] by simp
next
  case (L_Exited e)
  then show ?thesis using assms loop_exited_returns [of s st] by (simp add: serve_inv_def)
qed (use assms loop_failed_returns loop_sent_returns in blast)+

text \<open>The stages before the loop.\<close>

lemma stopping_returns:
  assumes "serve_inv s" and "ss_pc s \<in> {SV_Shutdown, SV_Stopping, SV_Loop, SV_Sleep, SV_Done}" and "server_NumActive st (ss_world s) = 0"
  shows "can_return st s (ss_err s)"
proof -
  have step: "can_return st s (ss_err s)" if "serve_main_step st s t" "ss_err t = ss_err s" "can_return st t (ss_err t)" for s t
    using can_return_step(2) [OF that(1,3)] that(2) by simp
  have stop: "can_return st s (ss_err s)" if "serve_inv s" "ss_pc s = SV_Stopping" "server_NumActive st (ss_world s) = 0" for s
    by (rule step [OF shutdown_end [OF that(2)] _ loop_returns [OF main_inv_step [OF shutdown_end [OF that(2), of st] that(1)]]])
      (use that in simp_all)
  consider "ss_pc s = SV_Shutdown" | "ss_pc s = SV_Stopping" | "ss_pc s = SV_Loop" | "ss_pc s = SV_Sleep" | "ss_pc s = SV_Done"
    using assms(2) by blast
  then show ?thesis
  proof cases
    case 1
    show ?thesis
      by (rule step [OF shutdown_begin [OF 1] _ stop [OF main_inv_step [OF shutdown_begin [OF 1, of st] assms(1)]]]) (use assms(3) in simp_all)
  next
    case 4
    show ?thesis
      by (rule step [OF sleep_timer [OF 4] _ loop_returns [OF main_inv_step [OF sleep_timer [OF 4, of st] assms(1)]]]) (use assms(3) in simp_all)
  next
    case 5
    then show ?thesis unfolding can_return_def by blast
  qed (use assms stop loop_returns in blast)+
qed

lemma failed_returns:
  assumes "serve_inv s" and "ss_pc s = SV_Select" and "server_NumActive st (ss_world s) = 0" and "ss_errCh s = e # es"
  shows "can_return st s (Some e)"
proof -
  note step = select_error [OF assms(2,4), of st]
  show ?thesis
    using can_return_step(2) [OF step] stopping_returns [OF main_inv_step [OF step assms(1)], of st] assms(3) by simp
qed

text \<open>
  C23. \<open>Serve\<close> can return whenever no connection is active: once it has received a signal or an error, it
  can return with what it has received by steps of its own and of the listener, without another signal
  and without any change of the managers, in whatever state the two goroutines are; and while it waits
  it can return with an error that the listener has sent.
\<close>

theorem serve_can_return:
  assumes "reach serve_init (serve_run_step st) s" and "server_NumActive st (ss_world s) = 0"
  shows "(ss_pc s \<in> {SV_Shutdown, SV_Stopping, SV_Loop, SV_Sleep, SV_Done} \<longrightarrow>
      (\<exists>t. (serve_own_step st)\<^sup>*\<^sup>* s t \<and> ss_pc t = SV_Done \<and> ss_err t = ss_err s)) \<and>
    (ss_pc s = SV_Select \<and> ss_errCh s = [e] \<longrightarrow> (\<exists>t. (serve_own_step st)\<^sup>*\<^sup>* s t \<and> ss_pc t = SV_Done \<and> ss_err t = Some e))"
  using stopping_returns [OF serving.reach_inv [OF assms(1)] _ assms(2)] failed_returns [OF serving.reach_inv [OF assms(1)] _ assms(2)]
  unfolding can_return_def by blast

theorem serve_can_return_witness:
  "ss_pc stopping_state = SV_Sleep \<and> (\<exists>t. (serve_own_step example_started)\<^sup>*\<^sup>* stopping_state t \<and> ss_pc t = SV_Done \<and> ss_err t = None)"
proof -
  have "server_NumActive example_started (ss_world stopping_state) = 0"
    by (simp add: stopping_state_def signalled_state_def server_NumActive_eq)
      (auto simp: HTTPService_NumActive_zero example_world_defs example_started_def NewServices_def)
  from serve_can_return [OF stopping_state_reachable this, of "[]"] show ?thesis
    by (simp add: stopping_state_def signalled_state_def)
qed

end
