(* ===== verification/Healthcheck.thy ===== *)
theory Healthcheck
  imports Server
begin

text \<open>
  The health check command (\<open>src/cmd/kwmserverd/healthcheck.go\<close>): its flags, the URL it makes of them, the
  request and the exit code. Sending the request is an argument; the text of \<open>url.URL\<close> follows the Go
  library for a URL of scheme, host and path.
\<close>

section \<open>URLs\<close>

definition is_alnum :: "char \<Rightarrow> bool" where
  "is_alnum c \<longleftrightarrow> (let n = of_char c :: nat in 48 \<le> n \<and> n \<le> 57 \<or> 65 \<le> n \<and> n \<le> 90 \<or> 97 \<le> n \<and> n \<le> 122)"

definition host_char :: "char \<Rightarrow> bool" where
  "host_char c \<longleftrightarrow> is_alnum c \<or> c \<in> set (''!$&()*+,;=:[]<>-_.~'' @ [CHR 0x27, CHR 0x22])"

definition path_char :: "char \<Rightarrow> bool" where
  "path_char c \<longleftrightarrow> is_alnum c \<or> c \<in> set ''$&+,/:;=@-_.~''"

definition upperhex :: "nat \<Rightarrow> char" where
  "upperhex n = (if n < 10 then char_of (48 + n) else char_of (55 + n))"

definition url_escape :: "(char \<Rightarrow> bool) \<Rightarrow> string \<Rightarrow> string" where
  "url_escape keep s = concat (map (\<lambda>c. if keep c then [c] else
     [CHR ''%'', upperhex (of_char c div 16), upperhex (of_char c mod 16)]) s)"

definition escaped_path :: "string \<Rightarrow> string" where
  "escaped_path path = (if path = ''*'' then ''*'' else url_escape path_char path)"

definition url_string :: "string \<Rightarrow> string \<Rightarrow> string \<Rightarrow> string" where
  "url_string scheme host path =
     (let p = escaped_path path;
          front = (if scheme = [] then [] else scheme @ '':'') @
            (if (scheme \<noteq> [] \<or> host \<noteq> []) \<and> (host \<noteq> [] \<or> path \<noteq> []) then ''//'' else []) @ url_escape host_char host;
          slash = (if p \<noteq> [] \<and> hd p \<noteq> CHR ''/'' \<and> host \<noteq> [] then ''/'' else []);
          dot = (if front @ slash = [] \<and> CHR '':'' \<in> set p \<and> CHR ''/'' \<notin> set (takeWhile (\<lambda>c. c \<noteq> CHR '':'') p) then ''./'' else [])
      in front @ slash @ dot @ p)"

section \<open>The command\<close>

record healthcheck_flags =
  hf_hostname :: string
  hf_path :: string
  hf_scheme :: string
  hf_insecure :: bool

definition commandHealthcheck_defaults :: healthcheck_flags where
  "commandHealthcheck_defaults = \<lparr>hf_hostname = defaultListenAddr, hf_path = ''/health-check'', hf_scheme = ''http'', hf_insecure = False\<rparr>"

record client_request =
  cq_method :: string
  cq_url :: string
  cq_header :: "(string, string) gomap"

text \<open>
  \<open>newRequest\<close> is the error of \<open>http.NewRequest\<close> for a URL, if any. \<open>client_Do\<close> sends a request, with or
  without the verification of certificates, and gives an error or the status of the response. The result
  is the error of the command; the body of a failed response goes to the standard error output.
\<close>

definition healthcheck ::
  "string \<Rightarrow> (string \<Rightarrow> string option) \<Rightarrow> (bool \<Rightarrow> client_request \<Rightarrow> string + nat) \<Rightarrow> healthcheck_flags \<Rightarrow> string option" where
  "healthcheck version newRequest client_Do fl =
     (let uri = url_string (hf_scheme fl) (hf_hostname fl) (hf_path fl)
      in case newRequest uri of
        Some e \<Rightarrow> Some (''failed to create healthcheck request: '' @ e)
      | None \<Rightarrow>
          (case client_Do (hf_insecure fl) \<lparr>cq_method = ''POST'', cq_url = uri,
               cq_header = [(''Connection'', ''close''), (''User-Agent'', ''Kopano-Kwmserver/'' @ version)]\<rparr> of
             Inl e \<Rightarrow> Some (''healthcheck request failed: '' @ e)
           | Inr status \<Rightarrow>
               if status \<noteq> StatusOK then Some (''healthcheck failed with status: '' @ show_nat status) else None))"

text \<open>What the command prints about its outcome, and its exit code.\<close>

definition commandHealthcheck ::
  "string \<Rightarrow> (string \<Rightarrow> string option) \<Rightarrow> (bool \<Rightarrow> client_request \<Rightarrow> string + nat) \<Rightarrow> healthcheck_flags \<Rightarrow> string \<times> nat" where
  "commandHealthcheck version newRequest client_Do fl =
     (case healthcheck version newRequest client_Do fl of
        Some e \<Rightarrow> (''Error: '' @ e @ [CHR 0x0A], 1)
      | None \<Rightarrow> (''healthcheck successful'' @ [CHR 0x0A], 0))"

section \<open>Lemmas\<close>

lemma url_escape_id: "\<forall>c \<in> set s. keep c \<Longrightarrow> url_escape keep s = s"
  by (induction s) (auto simp: url_escape_def)

lemma upperhex_alnum: "n < 16 \<Longrightarrow> is_alnum (upperhex n)"
  by (auto simp: is_alnum_def upperhex_def Let_def)

lemma url_escape_chars:
  assumes "c \<in> set (url_escape keep s)"
  shows "keep c \<or> c = CHR ''%'' \<or> is_alnum c"
proof -
  have "(of_char d :: nat) div 16 < 16" "(of_char d :: nat) mod 16 < 16" for d :: char
    using less_mult_imp_div_less [of "of_char d" 16 16] by simp_all
  then show ?thesis using assms upperhex_alnum by (fastforce simp: url_escape_def split: if_splits)
qed

text \<open>The URL never has a query: a question mark of the path flag is escaped, whatever follows it.\<close>

lemma healthcheck_url_no_query:
  assumes "CHR ''?'' \<notin> set scheme"
  shows "CHR ''?'' \<notin> set (url_string scheme host path)"
proof -
  have "\<not> path_char CHR ''?''" "\<not> host_char CHR ''?''" "\<not> is_alnum CHR ''?''"
    by (simp_all add: path_char_def host_char_def is_alnum_def)
  then have "CHR ''?'' \<notin> set (url_escape path_char path)" "CHR ''?'' \<notin> set (url_escape host_char host)"
    using url_escape_chars by fastforce+
  then show ?thesis using assms by (simp add: url_string_def Let_def escaped_path_def)
qed

text \<open>
  With its defaults the command asks for the health check of a server that listens on the default address;
  a started server has that route, its handler answers OK, and the command succeeds exactly if the request does
  with this status.
\<close>

lemma healthcheck_default_url:
  "url_string (hf_scheme commandHealthcheck_defaults) (hf_hostname commandHealthcheck_defaults) (hf_path commandHealthcheck_defaults) =
     ''http://'' @ defaultListenAddr @ ''/health-check''"
  by code_simp

lemma healthcheck_route: "Serve_start env cfg = Inr st \<Longrightarrow> plain_route ''/health-check'' HealthCheck \<in> set (st_routes st)"
  by (erule Serve_start_Inr) (simp add: server_AddRoutes_def)

lemma healthcheck_succeeds_iff:
  assumes "newRequest (url_string (hf_scheme fl) (hf_hostname fl) (hf_path fl)) = None"
  shows "snd (commandHealthcheck version newRequest (\<lambda>insecure req. answer (cq_url req)) fl) = 0 \<longleftrightarrow>
    answer (url_string (hf_scheme fl) (hf_hostname fl) (hf_path fl)) = Inr StatusOK"
  using assms by (auto simp: commandHealthcheck_def healthcheck_def Let_def split: sum.splits)

end
