(* ===== verification/System.thy ===== *)
theory System
  imports Rtm_Http
begin

text \<open>
  The RTM server as a transition system: HTTP requests, websocket connections through their phases,
  text messages, pongs, goroutines, the write pumps with their ping timers and the cleanup timers interleave in any order; each
  handler runs as one step. With an MCU manager, the websocket requests of the MCU, its texts, and the
  goroutines and timers of the pipelines are steps too. The invariant ties the user table, the connect
  keys, the connections and the channel members together; it is proved inductive, one lemma per kind
  of step.
\<close>

section \<open>States and steps\<close>

text \<open>
  The phases of a connection: its goroutine was started, the read pump runs, the read pump has ended,
  the connection is closed, everything is done. A goroutine that waits for a leaked lock is stuck.
\<close>

datatype phase = PhNone | PhServing | PhOpen | PhEnding | PhClosed | PhGone | PhStuck

text \<open>The phases of the connections of clients and, apart from them, of the connections of the MCU.\<close>

record rtm_sys =
  sy_w :: world
  sy_ph :: "conn_ref \<Rightarrow> phase"
  sy_mcu :: "conn_ref \<Rightarrow> phase"
  sy_crashed :: bool

definition run_task :: "rtm_env \<Rightarrow> task \<Rightarrow> world \<Rightarrow> handler_result \<times> world" where
  "run_task env t w =
     (case t of
        TEmitChats c h op uid \<Rightarrow> emitChannelChatsAddOrRemove env c h op uid w
      | TAfterAddOrRemove h op uid \<Rightarrow> onAfterGroupAddOrRemove h op uid w
      | TAfterReset h \<Rightarrow> onAfterGroupChannelReset h w
      | TPipelineConnect p h \<Rightarrow> pipeline_Connect env p h w
      | TPipelineClose p \<Rightarrow> pipeline_Close env p w
      | TPipelineReconnect p \<Rightarrow> (HNil, pipeline_reconnect p w)
      | TPipelineWatch p \<Rightarrow> (HNil, pipeline_watch p w)
      | TReconnectTimer p \<Rightarrow> (HNil, reconnect_timer env p w)
      | TWatchTimer p \<Rightarrow> (HNil, watch_timer p w))"

fun pump_conn :: "'c pump_result \<Rightarrow> 'c" where
  "pump_conn (PumpContinue c) = c"
| "pump_conn (PumpExit e c) = c"

definition phase_after_read :: "read_result \<Rightarrow> phase" where
  "phase_after_read r = (case r of ReadOn \<Rightarrow> PhOpen | ReadEnd _ \<Rightarrow> PhEnding | _ \<Rightarrow> PhStuck)"

text \<open>A connection of the MCU that asks for no attach record is a control connection; it is in the list while it is served.\<close>

definition mcu_control :: "conn_ref \<Rightarrow> world \<Rightarrow> bool" where
  "mcu_control c w \<longleftrightarrow> cn_binder (w_conns w c) = None"

definition mcu_served :: "conn_ref \<Rightarrow> world \<Rightarrow> handler_result \<times> world" where
  "mcu_served c w = mcu_OnConnect c (if mcu_control c w then mcu_serve_begin c w else w)"

definition mcu_finished :: "conn_ref \<Rightarrow> world \<Rightarrow> world" where
  "mcu_finished c w = (case mcu_OnDisconnect c w of (_, w1) \<Rightarrow> if mcu_control c w1 then mcu_serve_end c w1 else w1)"

inductive rtm_step :: "rtm_sys \<Rightarrow> rtm_sys \<Rightarrow> bool" where
  connect: "\<not> sy_crashed s \<Longrightarrow> HTTPConnectHandler (henv :: unit http_env) req (sy_w s) = (res, w') \<Longrightarrow>
    rtm_step s (s\<lparr>sy_w := w'\<rparr>)"
| turn: "\<not> sy_crashed s \<Longrightarrow> HTTPTURNHandler (henv :: unit http_env) req (sy_w s) = (res', w') \<Longrightarrow>
    rtm_step s (s\<lparr>sy_w := w'\<rparr>)"
| websocket: "\<not> sy_crashed s \<Longrightarrow> rtm_HTTPWebsocketHandler (henv :: unit http_env) meth key up (sy_w s) = (out, w') \<Longrightarrow>
    rtm_step s (s\<lparr>sy_w := w', sy_ph := (case wo_conn out of None \<Rightarrow> sy_ph s | Some c \<Rightarrow> (sy_ph s)(c := PhServing))\<rparr>)"
| serve: "\<not> sy_crashed s \<Longrightarrow> sy_ph s c = PhServing \<Longrightarrow> rtm_OnConnect env c (rtm_serve_begin c (sy_w s)) = (r, w') \<Longrightarrow>
    rtm_step s (s\<lparr>sy_w := w', sy_ph := (sy_ph s)(c := (if r = HBlocked then PhStuck else PhOpen)), sy_crashed := (r = HPanic)\<rparr>)"
| read_text: "\<not> sy_crashed s \<Longrightarrow> sy_ph s c = PhOpen \<Longrightarrow> readPump_text env c msg (sy_w s) = (rr, w') \<Longrightarrow>
    rtm_step s (s\<lparr>sy_w := w', sy_ph := (sy_ph s)(c := phase_after_read rr), sy_crashed := (rr = ReadPanic)\<rparr>)"
| read_end: "\<not> sy_crashed s \<Longrightarrow> sy_ph s c = PhOpen \<Longrightarrow> rtm_step s (s\<lparr>sy_ph := (sy_ph s)(c := PhEnding)\<rparr>)"
| close: "\<not> sy_crashed s \<Longrightarrow> sy_ph s c = PhEnding \<Longrightarrow> close_conn now c (sy_w s) = (r, w') \<Longrightarrow>
    rtm_step s (s\<lparr>sy_w := w', sy_ph := (sy_ph s)(c := (if r = HNil then PhClosed else PhStuck))\<rparr>)"
| disconnect: "\<not> sy_crashed s \<Longrightarrow> sy_ph s c = PhClosed \<Longrightarrow> rtm_OnDisconnect env c (sy_w s) = (r, w') \<Longrightarrow>
    rtm_step s (s\<lparr>sy_w := rtm_serve_end c w', sy_ph := (sy_ph s)(c := PhGone), sy_crashed := (r = HPanic)\<rparr>)"
| task: "\<not> sy_crashed s \<Longrightarrow> w_tasks (sy_w s) = xs @ t # ys \<Longrightarrow> run_task env t ((sy_w s)\<lparr>w_tasks := xs @ ys\<rparr>) = (r, w') \<Longrightarrow>
    rtm_step s (s\<lparr>sy_w := w', sy_crashed := (r = HPanic)\<rparr>)"
| pump: "\<not> sy_crashed s \<Longrightarrow> pump_receive wsErr (w_conns (sy_w s) c) = Some pr \<Longrightarrow>
    rtm_step s (s\<lparr>sy_w := upd_conn c (\<lambda>_. pump_conn pr) (sy_w s)\<rparr>)"
| tick: "\<not> sy_crashed s \<Longrightarrow> pump_tick now wsErr (w_conns (sy_w s) c) = pr' \<Longrightarrow>
    rtm_step s (s\<lparr>sy_w := upd_conn c (\<lambda>_. pump_conn pr') (sy_w s)\<rparr>)"
| pong: "\<not> sy_crashed s \<Longrightarrow> sy_ph s c = PhOpen \<or> sy_mcu s c = PhOpen \<Longrightarrow> pongHandler now payload (w_conns (sy_w s) c) = PongDone conn \<Longrightarrow>
    rtm_step s (s\<lparr>sy_w := upd_conn c (\<lambda>_. conn) (sy_w s)\<rparr>)"
| pong_panic: "\<not> sy_crashed s \<Longrightarrow> sy_ph s c = PhOpen \<or> sy_mcu s c = PhOpen \<Longrightarrow> pongHandler now payload (w_conns (sy_w s) c) = PongPanic \<Longrightarrow>
    rtm_step s (s\<lparr>sy_crashed := True\<rparr>)"
| goodbye: "\<not> sy_crashed s \<Longrightarrow> sy_ph s c \<noteq> PhNone \<Longrightarrow> rtm_OnBeforeDisconnect c err (sy_w s) = (r, w') \<Longrightarrow> rtm_step s (s\<lparr>sy_w := w'\<rparr>)"
| cleanup: "\<not> sy_crashed s \<Longrightarrow> cleanup_tick now (sy_w s) = (r, w') \<Longrightarrow> rtm_step s (s\<lparr>sy_w := w'\<rparr>)"
| status: "\<not> sy_crashed s \<Longrightarrow> rtm_step s (s\<lparr>sy_w := OnServerStatus new (sy_w s)\<rparr>)"
| mcu_websocket: "\<not> sy_crashed s \<Longrightarrow> rm_mcum (w_rtm (sy_w s)) \<Longrightarrow>
    mcu_HTTPWebsocketHandler env meth transaction up (sy_w s) = (out, w') \<Longrightarrow>
    rtm_step s (s\<lparr>sy_w := w', sy_mcu := (case wo_conn out of None \<Rightarrow> sy_mcu s | Some c \<Rightarrow> (sy_mcu s)(c := PhServing))\<rparr>)"
| mcu_serve: "\<not> sy_crashed s \<Longrightarrow> sy_mcu s c = PhServing \<Longrightarrow> mcu_served c (sy_w s) = (r, w') \<Longrightarrow>
    rtm_step s (s\<lparr>sy_w := w', sy_mcu := (sy_mcu s)(c := PhOpen)\<rparr>)"
| mcu_read_text: "\<not> sy_crashed s \<Longrightarrow> sy_mcu s c = PhOpen \<Longrightarrow> mcu_readPump_text c msg (sy_w s) = (rr, w') \<Longrightarrow>
    rtm_step s (s\<lparr>sy_w := w', sy_mcu := (sy_mcu s)(c := phase_after_read rr), sy_crashed := (rr = ReadPanic)\<rparr>)"
| mcu_read_end: "\<not> sy_crashed s \<Longrightarrow> sy_mcu s c = PhOpen \<Longrightarrow> rtm_step s (s\<lparr>sy_mcu := (sy_mcu s)(c := PhEnding)\<rparr>)"
| mcu_close: "\<not> sy_crashed s \<Longrightarrow> sy_mcu s c = PhEnding \<Longrightarrow> close_conn now c (sy_w s) = (r, w') \<Longrightarrow>
    rtm_step s (s\<lparr>sy_w := w', sy_mcu := (sy_mcu s)(c := (if r = HNil then PhClosed else PhStuck))\<rparr>)"
| mcu_disconnect: "\<not> sy_crashed s \<Longrightarrow> sy_mcu s c = PhClosed \<Longrightarrow>
    rtm_step s (s\<lparr>sy_w := mcu_finished c (sy_w s), sy_mcu := (sy_mcu s)(c := PhGone)\<rparr>)"
| mcu_goodbye: "\<not> sy_crashed s \<Longrightarrow> sy_mcu s c \<noteq> PhNone \<Longrightarrow> mcu_OnBeforeDisconnect c err (sy_w s) = (r, w') \<Longrightarrow>
    rtm_step s (s\<lparr>sy_w := w'\<rparr>)"
| mcu_cleanup: "\<not> sy_crashed s \<Longrightarrow> rm_mcum (w_rtm (sy_w s)) \<Longrightarrow>
    rtm_step s (s\<lparr>sy_w := purgeExpiredAttached now (sy_w s)\<rparr>)"

definition rtm_init :: "rtm_sys \<Rightarrow> bool" where
  "rtm_init s \<longleftrightarrow> (\<exists>compile insecure scopes pattern mcum oidc turnsrv admin.
     s = \<lparr>sy_w = start_world (rtm_NewManager compile insecure scopes pattern mcum oidc turnsrv) admin,
          sy_ph = (\<lambda>_. PhNone), sy_mcu = (\<lambda>_. PhNone), sy_crashed = False\<rparr>)"

section \<open>The users invariant\<close>

definition live :: "phase \<Rightarrow> bool" where
  "live p \<longleftrightarrow> p \<in> {PhOpen, PhEnding, PhClosed, PhStuck}"

text \<open>A record no connection uses yet: it was made for a key and is not in the user table.\<close>

definition fresh_user :: "world \<Rightarrow> user_ref \<Rightarrow> bool" where
  "fresh_user w u \<longleftrightarrow> u < w_next w \<and> ur_connections (w_users w u) = [] \<and> u \<notin> snd ` set (rm_users (w_rtm w))"

definition user_entry_ok :: "(conn_ref \<Rightarrow> phase) \<Rightarrow> world \<Rightarrow> string \<Rightarrow> user_ref \<Rightarrow> bool" where
  "user_entry_ok ph w k u \<longleftrightarrow> u < w_next w \<and> ur_id (w_users w u) = k \<and> ur_auth (w_users w u) \<noteq> None \<and>
     distinct (ur_connections (w_users w u)) \<and>
     (\<forall>c \<in> set (ur_connections (w_users w u)). live (ph c) \<and> cn_binder (w_conns w c) = Some (BoundUser u))"

definition live_conn_ok :: "world \<Rightarrow> conn_ref \<Rightarrow> bool" where
  "live_conn_ok w c \<longleftrightarrow> (\<exists>u. cn_binder (w_conns w c) = Some (BoundUser u) \<and>
     (ur_id (w_users w u), u) \<in> set (rm_users (w_rtm w)) \<and> c \<in> set (ur_connections (w_users w u)))"

definition serving_conn_ok :: "(conn_ref \<Rightarrow> phase) \<Rightarrow> world \<Rightarrow> conn_ref \<Rightarrow> bool" where
  "serving_conn_ok ph w c \<longleftrightarrow> (\<exists>u. cn_binder (w_conns w c) = Some (BoundUser u) \<and> fresh_user w u \<and>
     ur_auth (w_users w u) \<noteq> None \<and> (\<forall>(k, r) \<in> set (rm_keys (w_rtm w)). kr_user r \<noteq> Some u) \<and>
     (\<forall>d. ph d = PhServing \<longrightarrow> cn_binder (w_conns w d) = Some (BoundUser u) \<longrightarrow> d = c))"

definition key_ok :: "world \<Rightarrow> string \<Rightarrow> keyRecord \<Rightarrow> bool" where
  "key_ok w k r \<longleftrightarrow> (\<forall>u. kr_user r = Some u \<longrightarrow> fresh_user w u \<and>
     (\<forall>(k', r') \<in> set (rm_keys (w_rtm w)). kr_user r' = Some u \<longrightarrow> k' = k))"

definition users_inv :: "(conn_ref \<Rightarrow> phase) \<Rightarrow> world \<Rightarrow> bool" where
  "users_inv ph w \<longleftrightarrow>
     gm_wf (rm_users (w_rtm w)) \<and> gm_wf (rm_keys (w_rtm w)) \<and>
     (\<forall>(k, u) \<in> set (rm_users (w_rtm w)). user_entry_ok ph w k u) \<and>
     (\<forall>c. live (ph c) \<longrightarrow> live_conn_ok w c) \<and>
     (\<forall>c. ph c = PhServing \<longrightarrow> serving_conn_ok ph w c) \<and>
     (\<forall>(k, r) \<in> set (rm_keys (w_rtm w)). key_ok w k r) \<and>
     (\<forall>c. w_next w \<le> c \<longrightarrow> ph c = PhNone)"


lemma users_invI:
  assumes "gm_wf (rm_users (w_rtm w))" and "gm_wf (rm_keys (w_rtm w))"
    and "\<And>k u. (k, u) \<in> set (rm_users (w_rtm w)) \<Longrightarrow> user_entry_ok ph w k u"
    and "\<And>c. live (ph c) \<Longrightarrow> live_conn_ok w c"
    and "\<And>c. ph c = PhServing \<Longrightarrow> serving_conn_ok ph w c"
    and "\<And>k r. (k, r) \<in> set (rm_keys (w_rtm w)) \<Longrightarrow> key_ok w k r"
    and "\<And>c. w_next w \<le> c \<Longrightarrow> ph c = PhNone"
  shows "users_inv ph w"
  using assms by (auto simp: users_inv_def)

lemma users_invD:
  assumes "users_inv ph w"
  shows "gm_wf (rm_users (w_rtm w))" and "gm_wf (rm_keys (w_rtm w))"
    and "(k, u) \<in> set (rm_users (w_rtm w)) \<Longrightarrow> user_entry_ok ph w k u"
    and "live (ph c) \<Longrightarrow> live_conn_ok w c"
    and "ph c = PhServing \<Longrightarrow> serving_conn_ok ph w c"
    and "(k, r) \<in> set (rm_keys (w_rtm w)) \<Longrightarrow> key_ok w k r"
    and "w_next w \<le> c \<Longrightarrow> ph c = PhNone"
  using assms by (auto simp: users_inv_def)

text \<open>What a step that does not concern users leaves as it is.\<close>

definition users_eq :: "world \<Rightarrow> world \<Rightarrow> bool" where
  "users_eq w w' \<longleftrightarrow> rm_users (w_rtm w') = rm_users (w_rtm w) \<and> rm_keys (w_rtm w') = rm_keys (w_rtm w) \<and>
     w_users w' = w_users w \<and> (\<forall>c < w_next w. cn_binder (w_conns w' c) = cn_binder (w_conns w c)) \<and> w_next w \<le> w_next w'"

lemma users_eq_refl [simp]: "users_eq w w"
  by (simp add: users_eq_def)

lemma users_eq_trans: "users_eq w1 w2 \<Longrightarrow> users_eq w2 w3 \<Longrightarrow> users_eq w1 w3"
  by (auto simp: users_eq_def)

text \<open>Only the binders of clients' connections matter.\<close>

definition users_eq_on :: "(conn_ref \<Rightarrow> phase) \<Rightarrow> world \<Rightarrow> world \<Rightarrow> bool" where
  "users_eq_on ph w w' \<longleftrightarrow> rm_users (w_rtm w') = rm_users (w_rtm w) \<and> rm_keys (w_rtm w') = rm_keys (w_rtm w) \<and>
     w_users w' = w_users w \<and> (\<forall>c. ph c \<noteq> PhNone \<longrightarrow> cn_binder (w_conns w' c) = cn_binder (w_conns w c)) \<and>
     w_next w \<le> w_next w'"

lemma users_inv_frame_on:
  assumes "users_inv ph w" and "users_eq_on ph w w'"
  shows "users_inv ph w'"
proof -
  have old: "ph c \<noteq> PhNone \<Longrightarrow> cn_binder (w_conns w' c) = cn_binder (w_conns w c)" for c
    using assms by (simp add: users_eq_on_def)
  have livep: "live (ph c) \<Longrightarrow> ph c \<noteq> PhNone" for c by (auto simp: live_def)
  have fresh: "fresh_user w u \<Longrightarrow> fresh_user w' u" for u
    using assms(2) by (auto simp: fresh_user_def users_eq_on_def)
  have entry: "user_entry_ok ph w k u \<Longrightarrow> user_entry_ok ph w' k u" for k u
    using assms(2) old livep by (auto simp: user_entry_ok_def users_eq_on_def)
  have live: "live_conn_ok w c \<Longrightarrow> live (ph c) \<Longrightarrow> live_conn_ok w' c" for c
    using assms(2) old livep by (auto simp: live_conn_ok_def users_eq_on_def)
  have serving: "serving_conn_ok ph w' c" if "serving_conn_ok ph w c" "ph c = PhServing" for c
  proof -
    have "ph d = PhServing \<Longrightarrow> cn_binder (w_conns w' d) = cn_binder (w_conns w d)" for d using old [of d] by simp
    with that assms(2) fresh show ?thesis unfolding serving_conn_ok_def users_eq_on_def by metis
  qed
  have key: "key_ok w k r \<Longrightarrow> key_ok w' k r" for k r
    using assms(2) fresh by (auto simp: key_ok_def users_eq_on_def)
  show ?thesis
    using assms entry live serving key by (auto simp: users_inv_def users_eq_on_def)
qed

lemma users_inv_frame:
  assumes "users_inv ph w" and "users_eq w w'"
  shows "users_inv ph w'"
proof (rule users_inv_frame_on [OF assms(1)])
  have "c < w_next w" if "ph c \<noteq> PhNone" for c using assms(1) that by (auto simp: users_inv_def not_less [symmetric])
  with assms(2) show "users_eq_on ph w w'" by (simp add: users_eq_def users_eq_on_def)
qed

text \<open>A live connection may change to another live phase.\<close>

lemma users_inv_live:
  assumes "users_inv ph w" and "live (ph c)" and "live p"
  shows "users_inv (ph(c := p)) w"
proof -
  have "ph c \<noteq> PhServing" "p \<noteq> PhServing" "ph c \<noteq> PhNone" using assms(2,3) by (auto simp: live_def)
  then have serving: "((ph(c := p)) d = PhServing) = (ph d = PhServing)"
    and livep: "live ((ph(c := p)) d) = live (ph d)"
    and none: "ph d = PhNone \<longrightarrow> d \<noteq> c" for d
    using assms(2,3) by auto
  have above: "(ph(c := p)) d = PhNone" if "w_next w \<le> d" for d
    using assms(1) that none [of d] by (auto simp: users_inv_def)
  have "user_entry_ok (ph(c := p)) w k u = user_entry_ok ph w k u"
    "serving_conn_ok (ph(c := p)) w d = serving_conn_ok ph w d" for k u d
    by (simp_all only: user_entry_ok_def serving_conn_ok_def serving livep)
  then show ?thesis
    using assms(1) above by (simp add: users_inv_def serving livep del: fun_upd_apply)
qed

subsection \<open>Steps that do not concern users\<close>

lemma same_users_eq: "same_but_queues w w' \<Longrightarrow> users_eq w w'"
  by (simp add: users_eq_def same_but_queuesD)

lemma channel_remove_keeps [simp]:
  "w_rtm (snd (channel_remove h uid d w)) = w_rtm w" "w_users (snd (channel_remove h uid d w)) = w_users w"
  "w_conns (snd (channel_remove h uid d w)) = w_conns w" "w_next (snd (channel_remove h uid d w)) = w_next w"
  by (simp_all add: channel_remove_def Let_def split: option.splits)

lemma apply_effect_users_eq: "users_eq w (apply_effect e w)"
proof (cases e)
  case (ENew cid cfg)
  then show ?thesis
    using NewChannel_result [of cid cfg w] by (cases "NewChannel cid cfg w") (auto simp: users_eq_def)
qed (auto simp: users_eq_def channel_store_def Let_def OnClosed_def)

lemma effects_users_eq: "effects A w w' \<Longrightarrow> users_eq w w'"
  by (erule effects_invariant [where I = "users_eq w"]) (auto intro: users_eq_trans apply_effect_users_eq)

lemma result_of_send_eq: "result_of_send r = (x, w) \<Longrightarrow> w = snd r"
  by (metis result_of_send_snd snd_conv)

lemma w_send_users_eq: "users_eq w (snd (w_send c p w))"
  by (rule same_users_eq [OF w_send_same])

lemma chats_same: "same_but_queues w (snd (processChatsMessage env c msg w))"
proof -
  have "same_but_queues w (snd (chats_deliver c ref h prof extra w))" for ref h prof extra
  proof (cases "w_send c (PChatsReply (chats_reply ref (ch_id (w_chans w h)) extra)) w")
    case (Pair e w1)
    then have "same_but_queues w w1" using w_send_same [of w c] by (metis snd_conv)
    then show ?thesis
      using Pair by (auto simp: chats_deliver_def Let_def split: option.splits
          intro: same_but_queues_trans [OF _ same_but_queues_trans [OF send_all_same send_to_same]])
  qed
  then show ?thesis
    by (auto simp: processChatsMessage_def validateRestrictedChatsMessage_def chats_message_def Let_def
        split: option.splits sum.splits)
qed

text \<open>Steps that change nothing the invariant mentions: queues, the wire, the admin tables, counters.\<close>

definition core_eq :: "world \<Rightarrow> world \<Rightarrow> bool" where
  "core_eq w w' \<longleftrightarrow> rm_users (w_rtm w') = rm_users (w_rtm w) \<and> rm_keys (w_rtm w') = rm_keys (w_rtm w) \<and>
     rm_channels (w_rtm w') = rm_channels (w_rtm w) \<and> rm_mcum (w_rtm w') = rm_mcum (w_rtm w) \<and>
     w_users w' = w_users w \<and> w_chans w' = w_chans w \<and> w_pipes w' = w_pipes w \<and> w_atts w' = w_atts w \<and>
     w_next w' = w_next w \<and> w_tasks w' = w_tasks w \<and> mm_connections (w_mcu w') = mm_connections (w_mcu w) \<and>
     (\<forall>c. cn_binder (w_conns w' c) = cn_binder (w_conns w c) \<and> cn_closed (w_conns w' c) = cn_closed (w_conns w c) \<and>
        cn_onClosedCallbacks (w_conns w' c) = cn_onClosedCallbacks (w_conns w c))"

lemma core_eq_refl [simp]: "core_eq w w"
  by (simp add: core_eq_def)

lemma core_eq_trans: "core_eq w1 w2 \<Longrightarrow> core_eq w2 w3 \<Longrightarrow> core_eq w1 w3"
  by (simp add: core_eq_def)

lemma same_core_eq: "same_but_queues w w' \<Longrightarrow> core_eq w w'"
  by (simp add: core_eq_def same_but_queuesD)

lemma core_users_eq: "core_eq w w' \<Longrightarrow> users_eq w w'"
  by (simp add: core_eq_def users_eq_def)

lemma core_admin [simp]: "core_eq w (w\<lparr>w_admin := a\<rparr>)"
  by (simp add: core_eq_def)

lemma core_send: "core_eq w (snd (w_send c p w))"
  by (rule same_core_eq [OF w_send_same])

lemma core_send_admin: "core_eq w (snd (w_send c p (w\<lparr>w_admin := a\<rparr>)))"
  by (rule core_eq_trans [OF core_admin core_send])

lemma ping_core: "core_eq w (snd (process_ping env c ping w))"
  by (auto simp: process_ping_def Let_def core_send_admin split: option.splits bound_value.splits prod.splits sum.splits)

lemma Transaction_core: "Transaction tid fb (w_conns w c) = (x, conn) \<Longrightarrow> core_eq w (upd_conn c (\<lambda>_. conn) w)"
  by (auto simp: Transaction_def core_eq_def split: if_splits option.splits)

lemma OnText_outcome:
  assumes "rtm_OnText env c msg w = (r, w')"
  shows "core_eq w w' \<or> (\<exists>m v. core_eq w v \<and> w' = snd (processWebRTCMessage env c m v))"
proof -
  have disp: "core_eq v (snd (processTextMessage env c tr j v)) \<or>
      (\<exists>m. snd (processTextMessage env c tr j v) = snd (processWebRTCMessage env c m v))" for tr j v
    using ping_core same_core_eq [OF chats_same]
    by (auto simp: processTextMessage_def onWebRTC_def onChats_def split: option.splits prod.splits)
      (metis snd_conv)+
  show ?thesis
  proof (cases "Option.bind msg decode_transaction")
    case None
    with assms show ?thesis by (auto simp: rtm_OnText_def split: option.splits)
  next
    case (Some tr)
    then obtain j where j: "msg = Some j" "decode_transaction j = Some tr" by (cases msg) auto
    obtain x conn where t: "Transaction (tr_Transaction tr) (Some (\<lambda>_. None)) (w_conns w c) = (x, conn)"
      by (cases "Transaction (tr_Transaction tr) (Some (\<lambda>_. None)) (w_conns w c)")
    define v where "v = upd_conn c (\<lambda>_. conn) w"
    have v: "core_eq w v" unfolding v_def by (rule Transaction_core [OF t])
    show ?thesis
    proof (cases x)
      case None
      then have "w' = snd (processTextMessage env c tr j v)"
        using assms j t by (simp add: rtm_OnText_def v_def)
      with disp [of v tr j] v show ?thesis by (auto intro: core_eq_trans)
    qed (use assms j t v in \<open>simp add: rtm_OnText_def v_def\<close>)
  qed
qed

lemma readPump_outcome:
  assumes "readPump_text env c msg w = (rr, w')"
  shows "core_eq w w' \<or> (\<exists>m v. core_eq w v \<and> core_eq (snd (processWebRTCMessage env c m v)) w')"
proof (cases "rtm_OnText env c msg w")
  case (Pair r w1)
  then have "core_eq w1 w'"
    using assms by (auto simp: readPump_text_def rtm_OnError_def same_core_eq
        split: handler_result.splits go_error.splits)
  with OnText_outcome [OF Pair] show ?thesis by (auto intro: core_eq_trans)
qed

subsection \<open>Steps that do\<close>

lemma users_inv_Connect:
  assumes "users_inv ph w" and "uid \<noteq> []"
  shows "users_inv ph (snd (rtm_Connect env uid auth w))"
proof -
  define u where "u = w_next w"
  define w' where "w' = snd (rtm_Connect env uid auth w)"
  define kr where "kr = \<lparr>kr_when = en_now env, kr_user = Some u\<rparr>"
  have w': "rm_users (w_rtm w') = rm_users (w_rtm w)" "rm_keys (w_rtm w') = gm_set (en_rnd env) kr (rm_keys (w_rtm w))"
      "w_next w' = Suc u" "w_conns w' = w_conns w" "\<And>v. v \<noteq> u \<Longrightarrow> w_users w' v = w_users w v"
      "ur_connections (w_users w' u) = []"
    using assms(2) by (auto simp: w'_def rtm_Connect_def Let_def kr_def u_def)
  have below: "u \<notin> snd ` set (rm_users (w_rtm w))"
    using assms(1) by (auto simp: users_inv_def user_entry_ok_def u_def)
  have fresh: "fresh_user w v \<Longrightarrow> fresh_user w' v \<and> v \<noteq> u" for v
    using w' by (auto simp: fresh_user_def u_def)
  have keys: "set (gm_set (en_rnd env) kr m) \<subseteq> insert (en_rnd env, kr) (set m)" for m
    by (induction m) auto
  have sk: "(k, r) \<in> set (rm_keys (w_rtm w'))  \<Longrightarrow> (k = en_rnd env \<and> r = kr) \<or> (k, r) \<in> set (rm_keys (w_rtm w))" for k r
    using keys w'(2) by fastforce
  have old: "(k, r) \<in> set (rm_keys (w_rtm w)) \<Longrightarrow> kr_user r \<noteq> Some u" for k r
    using assms(1) by (fastforce simp: users_inv_def key_ok_def fresh_user_def u_def)
  have entry: "user_entry_ok ph w' k v" if "(k, v) \<in> set (rm_users (w_rtm w))" for k v
  proof -
    have "user_entry_ok ph w k v" using assms(1) that by (auto simp: users_inv_def)
    moreover have "v \<noteq> u" using that below by force
    ultimately show ?thesis using w' by (auto simp: user_entry_ok_def u_def)
  qed
  have live: "live_conn_ok w c \<Longrightarrow> live_conn_ok w' c" for c
    using w' below by (fastforce simp: live_conn_ok_def)
  have serving: "serving_conn_ok ph w c \<Longrightarrow> serving_conn_ok ph w' c" for c
    using w'(4) fresh sk w'(5) unfolding serving_conn_ok_def kr_def by fastforce
  have key: "key_ok w' k r" if kr: "(k, r) \<in> set (rm_keys (w_rtm w'))" for k r
    using sk [OF kr]
  proof (elim disjE conjE)
    assume "k = en_rnd env" "r = kr"
    then show ?thesis
      using sk old w' below by (fastforce simp: key_ok_def kr_def fresh_user_def)
  next
    assume "(k, r) \<in> set (rm_keys (w_rtm w))"
    then have "key_ok w k r" by (rule users_invD(6) [OF assms(1)])
    then show ?thesis
      using fresh sk unfolding key_ok_def kr_def by fastforce
  qed
  show ?thesis
    unfolding w'_def [symmetric]
    by (rule users_invI) (use users_invD [OF assms(1)] w' entry live serving key in \<open>simp_all add: u_def\<close>)
qed

lemma users_inv_del_key:
  assumes "users_inv ph w" and "users_eq (upd_rtm (\<lambda>m. m\<lparr>rm_keys := filter P (rm_keys m)\<rparr>) w) w'"
  shows "users_inv ph w'"
proof (rule users_inv_frame [OF _ assms(2)])
  define v where "v = upd_rtm (\<lambda>m. m\<lparr>rm_keys := filter P (rm_keys m)\<rparr>) w"
  have v: "rm_users (w_rtm v) = rm_users (w_rtm w)" "rm_keys (w_rtm v) = filter P (rm_keys (w_rtm w))"
      "w_users v = w_users w" "w_conns v = w_conns w" "w_next v = w_next w"
    by (simp_all add: v_def)
  have fresh: "fresh_user v = fresh_user w" by (simp add: fresh_user_def v fun_eq_iff)
  have "serving_conn_ok ph w c \<Longrightarrow> serving_conn_ok ph v c" for c
    unfolding serving_conn_ok_def fresh v by fastforce
  moreover have "key_ok w k r \<Longrightarrow> key_ok v k r" for k r
    unfolding key_ok_def fresh v by auto
  ultimately have "users_inv ph v"
    using users_invD [OF assms(1)]
    by (intro users_invI) (simp_all add: v user_entry_ok_def live_conn_ok_def)
  then show "users_inv ph (upd_rtm (\<lambda>m. m\<lparr>rm_keys := filter P (rm_keys m)\<rparr>) w)"
    by (simp add: v_def)
qed

lemma gm_del_filter: "gm_del k m = filter (\<lambda>e. fst e \<noteq> k) m"
  by (simp add: AList.delete_eq case_prod_beta' neq_commute)

text \<open>The websocket handler trades a key for a connection that is bound to the key's record.\<close>

lemma users_inv_new_conn:
  assumes "users_inv ph w" and "gm_get (rm_keys (w_rtm w)) key = Some kr" and "kr_user kr = Some u"
    and "ur_auth (w_users w u) \<noteq> None"
    and "rtm_new_conn now u ((upd_rtm (\<lambda>_. (w_rtm w)\<lparr>rm_keys := gm_del key (rm_keys (w_rtm w))\<rparr>) w)\<lparr>w_admin := a\<rparr>) = (c, w')"
  shows "users_inv (ph(c := PhServing)) w'"
proof -
  have w': "c = w_next w" "w_next w' = Suc c" "rm_users (w_rtm w') = rm_users (w_rtm w)" "w_users w' = w_users w"
      "rm_keys (w_rtm w') = filter (\<lambda>e. fst e \<noteq> key) (rm_keys (w_rtm w))"
      "cn_binder (w_conns w' c) = Some (BoundUser u)" "\<And>d. d \<noteq> c \<Longrightarrow> w_conns w' d = w_conns w d"
    using assms(5) by (auto simp: rtm_new_conn_def Let_def Bind_def gm_del_filter)
  have none: "ph c = PhNone" using assms(1) w'(1) by (simp add: users_inv_def)
  have mem: "(key, kr) \<in> set (rm_keys (w_rtm w))" using assms(2) by (rule map_of_SomeD)
  have kok: "key_ok w key kr" using assms(1) mem by (auto simp: users_inv_def)
  have fresh: "fresh_user w v \<Longrightarrow> fresh_user w' v" for v
    using w' by (auto simp: fresh_user_def)
  have entry: "user_entry_ok (ph(c := PhServing)) w' k v" if "user_entry_ok ph w k v" for k v
    using that none w' by (auto simp: user_entry_ok_def live_def)
  have livec: "live_conn_ok w' d" if "live ((ph(c := PhServing)) d)" for d
    using that assms(1) w' by (auto simp: users_inv_def live_conn_ok_def live_def split: if_splits)
  have notu: "cn_binder (w_conns w d) \<noteq> Some (BoundUser u)" if "ph d = PhServing" for d
  proof
    assume "cn_binder (w_conns w d) = Some (BoundUser u)"
    moreover have "serving_conn_ok ph w d" using assms(1) that by (simp add: users_inv_def)
    ultimately show False using mem assms(3) by (auto simp: serving_conn_ok_def)
  qed
  have serving: "serving_conn_ok (ph(c := PhServing)) w' d" if "(ph(c := PhServing)) d = PhServing" for d
  proof (cases "d = c")
    case True
    then show ?thesis
      using w' kok assms(3,4) fresh notu unfolding serving_conn_ok_def key_ok_def
      by (intro exI [of _ u]) (fastforce split: if_splits)
  next
    case False
    with that have "serving_conn_ok ph w d" "ph d = PhServing" using assms(1) by (auto simp: users_inv_def)
    then obtain v where v: "cn_binder (w_conns w d) = Some (BoundUser v)" "fresh_user w v" "ur_auth (w_users w v) \<noteq> None"
        "\<forall>(k, r) \<in> set (rm_keys (w_rtm w)). kr_user r \<noteq> Some v"
        "\<forall>d'. ph d' = PhServing \<longrightarrow> cn_binder (w_conns w d') = Some (BoundUser v) \<longrightarrow> d' = d"
      and "v \<noteq> u"
      using notu [of d] by (auto simp: serving_conn_ok_def)
    have "d' = d" if "(ph(c := PhServing)) d' = PhServing" "cn_binder (w_conns w' d') = Some (BoundUser v)" for d'
      using that v(5) w'(6,7) \<open>v \<noteq> u\<close> by (cases "d' = c") auto
    with v False w' fresh show ?thesis
      unfolding serving_conn_ok_def by (intro exI [of _ v]) auto
  qed
  have key: "key_ok w' k r" if "(k, r) \<in> set (rm_keys (w_rtm w'))" for k r
  proof -
    have "key_ok w k r" by (rule users_invD(6) [OF assms(1)]) (use that w'(5) in auto)
    then show ?thesis using fresh w'(5) by (auto simp: key_ok_def)
  qed
  have above: "(ph(c := PhServing)) d = PhNone" if "w_next w' \<le> d" for d
    using that users_invD(7) [OF assms(1), of d] w'(1,2) by simp
  show ?thesis
    by (rule users_invI)
      (use users_invD [OF assms(1)] w'(3,5) entry livec serving key above in \<open>simp_all del: fun_upd_apply\<close>)
qed

text \<open>\<open>OnConnect\<close> puts the connection into the record of the table, never panics and never blocks.\<close>

lemma serving_facts:
  assumes "users_inv ph w" and "ph c = PhServing" and "cn_binder (w_conns w c) = Some (BoundUser nur)"
  shows "fresh_user w nur" and "ur_auth (w_users w nur) \<noteq> None"
    and "\<forall>(k, r) \<in> set (rm_keys (w_rtm w)). kr_user r \<noteq> Some nur"
    and "\<forall>d. ph d = PhServing \<longrightarrow> cn_binder (w_conns w d) = Some (BoundUser nur) \<longrightarrow> d = c"
    and "nur \<notin> snd ` set (rm_users (w_rtm w))"
    and "(k, u) \<in> set (rm_users (w_rtm w)) \<Longrightarrow> c \<notin> set (ur_connections (w_users w u))"
    and "w_next w \<le> d \<Longrightarrow> (ph(c := PhOpen)) d = PhNone"
proof -
  have s: "serving_conn_ok ph w c" by (rule users_invD(5) [OF assms(1,2)])
  then show "fresh_user w nur" "ur_auth (w_users w nur) \<noteq> None"
      "\<forall>(k, r) \<in> set (rm_keys (w_rtm w)). kr_user r \<noteq> Some nur"
      "\<forall>d. ph d = PhServing \<longrightarrow> cn_binder (w_conns w d) = Some (BoundUser nur) \<longrightarrow> d = c"
    using assms(3) by (auto simp: serving_conn_ok_def)
  then show "nur \<notin> snd ` set (rm_users (w_rtm w))" by (simp add: fresh_user_def)
  show "(k, u) \<in> set (rm_users (w_rtm w)) \<Longrightarrow> c \<notin> set (ur_connections (w_users w u))"
    using users_invD(3) [OF assms(1), of k u] assms(2) by (auto simp: user_entry_ok_def live_def)
  show "w_next w \<le> d \<Longrightarrow> (ph(c := PhOpen)) d = PhNone"
    using users_invD(7) [OF assms(1), of d] assms(2) by auto
qed

lemma phase_open:
  "(ph(c := PhOpen)) d = PhServing \<longleftrightarrow> ph d = PhServing \<and> d \<noteq> c"
  "live ((ph(c := PhOpen)) d) \<longleftrightarrow> live (ph d) \<or> d = c"
  by (auto simp: live_def)

lemma connect_user_first:
  assumes "users_inv ph w" and "ph c = PhServing" and "cn_binder (w_conns w c) = Some (BoundUser nur)"
    and "gm_get (rm_users (w_rtm w)) (ur_id (w_users w nur)) = None"
  shows "\<exists>w'. connect_user now c nur w = Some (nur, True, w') \<and> ur_auth (w_users w' nur) \<noteq> None \<and>
    users_inv (ph(c := PhOpen)) w'"
proof -
  note fresh = serving_facts(1) [OF assms(1-3)] and auth = serving_facts(2) [OF assms(1-3)]
    and nokey = serving_facts(3) [OF assms(1-3)] and only = serving_facts(4) [OF assms(1-3)]
    and notin = serving_facts(5) [OF assms(1-3)] and cnew = serving_facts(6) [OF assms(1-3)]
    and above = serving_facts(7) [OF assms(1-3)] and other = phase_open [of ph c]
  define k where "k = ur_id (w_users w nur)"
  define w' where "w' = upd_rtm (\<lambda>m. m\<lparr>rm_users := gm_set k nur (rm_users m)\<rparr>)
    (upd_user nur (\<lambda>r. r\<lparr>ur_connections := ur_connections r @ [c], ur_when := now\<rparr>) w)"
  have run: "connect_user now c nur w = Some (nur, True, w')"
    using assms(4) by (simp add: connect_user_def w'_def k_def)
  have sub: "set (gm_set k nur m) \<subseteq> insert (k, nur) (set m)" for m :: "(string, user_ref) gomap"
    by (induction m) auto
  have keep: "set m \<subseteq> set (gm_set k nur m)" if "gm_get m k = None" for m :: "(string, user_ref) gomap"
    using that by (induction m) (auto split: if_splits)
  have new: "(k, nur) \<in> set (rm_users (w_rtm w'))"
    by (rule map_of_SomeD) (simp add: w'_def)
  have w': "w_conns w' = w_conns w" "w_next w' = w_next w" "rm_keys (w_rtm w') = rm_keys (w_rtm w)"
      "\<And>v. v \<noteq> nur \<Longrightarrow> w_users w' v = w_users w v" "ur_connections (w_users w' nur) = [c]"
      "ur_id (w_users w' nur) = k" "ur_auth (w_users w' nur) = ur_auth (w_users w nur)"
    using fresh by (simp_all add: w'_def k_def fresh_user_def)
  have mem: "(k', v) \<in> set (rm_users (w_rtm w')) \<Longrightarrow> (k' = k \<and> v = nur) \<or> (k', v) \<in> set (rm_users (w_rtm w)) \<and> v \<noteq> nur" for k' v
    using sub [of "rm_users (w_rtm w)"] notin by (force simp: w'_def)
  have fr: "fresh_user w' v" if "fresh_user w v" "v \<noteq> nur" for v
  proof -
    have "v \<notin> snd ` set (rm_users (w_rtm w'))" using that by (auto simp: fresh_user_def image_iff dest!: mem)
    with that w'(2) w'(4) [OF that(2)] show ?thesis by (simp add: fresh_user_def)
  qed
  have "users_inv (ph(c := PhOpen)) w'"
  proof (rule users_invI)
    show "gm_wf (rm_users (w_rtm w'))" "gm_wf (rm_keys (w_rtm w'))"
      using users_invD(1,2) [OF assms(1)] by (simp_all add: w'_def)
  next
    fix k' v assume "(k', v) \<in> set (rm_users (w_rtm w'))"
    then consider "k' = k" "v = nur" | "(k', v) \<in> set (rm_users (w_rtm w))" "v \<noteq> nur" using mem by blast
    then show "user_entry_ok (ph(c := PhOpen)) w' k' v"
    proof cases
      case 1
      then show ?thesis using w' auth fresh assms(3) by (auto simp: user_entry_ok_def fresh_user_def live_def)
    next
      case 2
      then show ?thesis
        using users_invD(3) [OF assms(1) 2(1)] w' unfolding user_entry_ok_def other by auto
    qed
  next
    fix d assume "live ((ph(c := PhOpen)) d)"
    then consider "d = c" | "live (ph d)" unfolding other by blast
    then show "live_conn_ok w' d"
    proof cases
      case 1
      then show ?thesis using w' new assms(3) by (auto simp: live_conn_ok_def)
    next
      case 2
      then obtain u where u: "cn_binder (w_conns w d) = Some (BoundUser u)" "(ur_id (w_users w u), u) \<in> set (rm_users (w_rtm w))"
          "d \<in> set (ur_connections (w_users w u))"
        using users_invD(4) [OF assms(1)] by (auto simp: live_conn_ok_def)
      then have "u \<noteq> nur" using notin by force
      moreover have "(ur_id (w_users w u), u) \<in> set (rm_users (w_rtm w'))"
        using keep [OF assms(4) [folded k_def]] u(2) by (auto simp: w'_def)
      ultimately show ?thesis using u w' by (auto simp: live_conn_ok_def)
    qed
  next
    fix d assume "(ph(c := PhOpen)) d = PhServing"
    then have "ph d = PhServing" "d \<noteq> c" unfolding other by auto
    then have "serving_conn_ok ph w d" by (simp add: users_invD(5) [OF assms(1)])
    then obtain v where v: "cn_binder (w_conns w d) = Some (BoundUser v)" "fresh_user w v" "ur_auth (w_users w v) \<noteq> None"
        "\<forall>(k, r) \<in> set (rm_keys (w_rtm w)). kr_user r \<noteq> Some v"
        "\<forall>d'. ph d' = PhServing \<longrightarrow> cn_binder (w_conns w d') = Some (BoundUser v) \<longrightarrow> d' = d"
      unfolding serving_conn_ok_def by blast
    have ne: "v \<noteq> nur" using only v(1) \<open>ph d = PhServing\<close> \<open>d \<noteq> c\<close> by blast
    show "serving_conn_ok (ph(c := PhOpen)) w' d"
      unfolding serving_conn_ok_def other w'(1,3)
      using v fr [OF v(2) ne] w'(4) [OF ne] by (intro exI [of _ v]) simp
  next
    fix k' r assume "(k', r) \<in> set (rm_keys (w_rtm w'))"
    then have "(k', r) \<in> set (rm_keys (w_rtm w))" using w'(3) by simp
    moreover from this have "key_ok w k' r" by (rule users_invD(6) [OF assms(1)])
    ultimately show "key_ok w' k' r"
      using fr nokey unfolding key_ok_def w'(3) by fastforce
  qed (simp_all only: w'(2) above)
  with run w'(7) auth show ?thesis by auto
qed

lemma connect_user_again:
  assumes "users_inv ph w" and "ph c = PhServing" and "cn_binder (w_conns w c) = Some (BoundUser nur)"
    and "gm_get (rm_users (w_rtm w)) (ur_id (w_users w nur)) = Some ur"
  shows "\<exists>w'. connect_user now c nur w = Some (ur, False, w') \<and> ur_auth (w_users w' ur) \<noteq> None \<and>
    users_inv (ph(c := PhOpen)) w'"
proof -
  note fresh = serving_facts(1) [OF assms(1-3)] and auth = serving_facts(2) [OF assms(1-3)]
    and nokey = serving_facts(3) [OF assms(1-3)] and only = serving_facts(4) [OF assms(1-3)]
    and notin = serving_facts(5) [OF assms(1-3)] and cnew = serving_facts(6) [OF assms(1-3)]
    and above = serving_facts(7) [OF assms(1-3)] and other = phase_open [of ph c]
  have mem: "(ur_id (w_users w nur), ur) \<in> set (rm_users (w_rtm w))" using assms(4) by (rule map_of_SomeD)
  then have ne: "ur \<noteq> nur" using notin by force
  define w' where "w' = upd_conn c (Bind (Some (BoundUser ur)))
    (upd_user ur (\<lambda>r. r\<lparr>ur_connections := ur_connections r @ [c]\<rparr>) w)"
  have run: "connect_user now c nur w = Some (ur, False, w')"
    using assms(4) ne by (simp add: connect_user_def w'_def)
  have eok: "user_entry_ok ph w (ur_id (w_users w nur)) ur" by (rule users_invD(3) [OF assms(1) mem])
  have w': "w_next w' = w_next w" "w_rtm w' = w_rtm w" "\<And>d. d \<noteq> c \<Longrightarrow> w_conns w' d = w_conns w d"
      "cn_binder (w_conns w' c) = Some (BoundUser ur)" "\<And>v. v \<noteq> ur \<Longrightarrow> w_users w' v = w_users w v"
      "ur_connections (w_users w' ur) = ur_connections (w_users w ur) @ [c]"
      "\<And>v. ur_id (w_users w' v) = ur_id (w_users w v)" "\<And>v. ur_auth (w_users w' v) = ur_auth (w_users w v)"
    by (simp_all add: w'_def Bind_def)
  have fr: "fresh_user w v \<Longrightarrow> fresh_user w' v" for v
    using w' mem by (cases "v = ur") (auto simp: fresh_user_def image_iff)
  have "users_inv (ph(c := PhOpen)) w'"
  proof (rule users_invI)
    show "gm_wf (rm_users (w_rtm w'))" "gm_wf (rm_keys (w_rtm w'))"
      using users_invD(1,2) [OF assms(1)] by (simp_all add: w')
  next
    fix k' v assume kv: "(k', v) \<in> set (rm_users (w_rtm w'))"
    then have old: "user_entry_ok ph w k' v" "c \<notin> set (ur_connections (w_users w v))"
      using users_invD(3) [OF assms(1)] cnew w'(2) by auto
    have conns: "w_conns w' d = w_conns w d" if "d \<in> set (ur_connections (w_users w v))" for d
      using that old(2) w'(3) by metis
    show "user_entry_ok (ph(c := PhOpen)) w' k' v"
    proof (cases "v = ur")
      case True
      with old w' conns show ?thesis unfolding user_entry_ok_def other by auto
    next
      case False
      then have "w_users w' v = w_users w v" by (rule w'(5))
      with old w'(1) conns show ?thesis unfolding user_entry_ok_def other by auto
    qed
  next
    fix d assume "live ((ph(c := PhOpen)) d)"
    then consider "d = c" | "live (ph d)" "d \<noteq> c" unfolding other by blast
    then show "live_conn_ok w' d"
    proof cases
      case 1
      have "ur_id (w_users w ur) = ur_id (w_users w nur)" using eok by (simp add: user_entry_ok_def)
      with 1 w' mem show ?thesis by (auto simp: live_conn_ok_def)
    next
      case 2
      then obtain u where u: "cn_binder (w_conns w d) = Some (BoundUser u)" "(ur_id (w_users w u), u) \<in> set (rm_users (w_rtm w))"
          "d \<in> set (ur_connections (w_users w u))"
        using users_invD(4) [OF assms(1)] by (auto simp: live_conn_ok_def)
      then have "d \<in> set (ur_connections (w_users w' u))" using w'(5,6) by (cases "u = ur") auto
      with u w'(2,3,7) 2(2) show ?thesis by (auto simp: live_conn_ok_def)
    qed
  next
    fix d assume "(ph(c := PhOpen)) d = PhServing"
    then have d: "ph d = PhServing" "d \<noteq> c" unfolding other by auto
    then have "serving_conn_ok ph w d" by (simp add: users_invD(5) [OF assms(1)])
    then obtain v where v: "cn_binder (w_conns w d) = Some (BoundUser v)" "fresh_user w v" "ur_auth (w_users w v) \<noteq> None"
        "\<forall>(k, r) \<in> set (rm_keys (w_rtm w)). kr_user r \<noteq> Some v"
        "\<forall>d'. ph d' = PhServing \<longrightarrow> cn_binder (w_conns w d') = Some (BoundUser v) \<longrightarrow> d' = d"
      by (auto simp: serving_conn_ok_def)
    have "d' = d" if "ph d' = PhServing \<and> d' \<noteq> c" "cn_binder (w_conns w' d') = Some (BoundUser v)" for d'
      using that v(5) w'(3) by auto
    moreover have "cn_binder (w_conns w' d) = Some (BoundUser v)" using v(1) w'(3) [OF d(2)] by simp
    moreover have "fresh_user w' v" using fr [OF v(2)] .
    moreover have "ur_auth (w_users w' v) \<noteq> None" using v(3) w'(8) by simp
    ultimately show "serving_conn_ok (ph(c := PhOpen)) w' d"
      unfolding serving_conn_ok_def other w'(2) using v(4) by (intro exI [of _ v] conjI allI impI)
  next
    fix k' r assume "(k', r) \<in> set (rm_keys (w_rtm w'))"
    then have "key_ok w k' r" using users_invD(6) [OF assms(1)] w'(2) by simp
    then show "key_ok w' k' r" using fr unfolding key_ok_def w'(2) by blast
  qed (simp_all only: w'(1) above)
  moreover have "ur_auth (w_users w' ur) \<noteq> None" using eok w'(8) by (simp add: user_entry_ok_def)
  ultimately show ?thesis using run by blast
qed

lemma connect_user_inv:
  assumes "users_inv ph w" and "ph c = PhServing" and "cn_binder (w_conns w c) = Some (BoundUser nur)"
  shows "\<exists>ur first w'. connect_user now c nur w = Some (ur, first, w') \<and> ur_auth (w_users w' ur) \<noteq> None \<and>
    users_inv (ph(c := PhOpen)) w'"
proof (cases "gm_get (rm_users (w_rtm w)) (ur_id (w_users w nur))")
  case None
  from connect_user_first [OF assms this, of now] show ?thesis by (elim exE) (intro exI)
next
  case (Some ur)
  from connect_user_again [OF assms this, of now] show ?thesis by (elim exE) (intro exI)
qed

lemma serve_begin_users_eq: "users_eq w (rtm_serve_begin c w)"
  by (simp add: rtm_serve_begin_def users_eq_def)

lemma serve_end_users_eq: "users_eq w (rtm_serve_end c w)"
  by (simp add: rtm_serve_end_def users_eq_def)

lemma send_hello_core: "core_eq w (snd (send_hello c ty self w))"
  by (simp add: send_hello_def core_send)

lemma send_hello_result: "fst (send_hello c ty self w) \<notin> {HPanic, HBlocked}"
  by (auto simp: send_hello_def result_of_send_def split: prod.splits option.splits)

lemma inc_metric_core: "core_eq w (inc_metric f w)"
  by (simp add: core_eq_def)

lemma users_inv_OnConnect:
  assumes "users_inv ph w" and "ph c = PhServing" and "rtm_OnConnect env c (rtm_serve_begin c w) = (r, w')"
  shows "r \<notin> {HPanic, HBlocked}" and "users_inv (ph(c := PhOpen)) w'"
proof -
  define v where "v = rtm_serve_begin c w"
  have v: "users_inv ph v" unfolding v_def by (rule users_inv_frame [OF assms(1) serve_begin_users_eq])
  obtain nur where nur: "cn_binder (w_conns v c) = Some (BoundUser nur)"
    using users_invD(5) [OF v assms(2)] by (auto simp: serving_conn_ok_def)
  obtain ur first w1 auth where c: "connect_user (en_now env) c nur v = Some (ur, first, w1)"
      "ur_auth (w_users w1 ur) = Some auth" and inv: "users_inv (ph(c := PhOpen)) w1"
    using connect_user_inv [OF v assms(2) nur, of "en_now env"] by auto
  let ?h = "send_hello c RTMTypeNameHello
    (Some \<lparr>self_ID = ur_id (w_users w1 ur), self_Name = token_Name auth, self_Auth = at_Auth auth\<rparr>)
    (if first then inc_metric (mt_userNew_update Suc) w1 else w1)"
  have run: "(r, w') = ?h"
    using assms(3) nur c by (simp add: rtm_OnConnect_def v_def [symmetric])
  have "core_eq w1 (if first then inc_metric (mt_userNew_update Suc) w1 else w1)"
    by (simp add: inc_metric_core)
  then have "core_eq w1 (snd ?h)" by (rule core_eq_trans [OF _ send_hello_core])
  then have "core_eq w1 w'" unfolding run [symmetric] by simp
  then show "users_inv (ph(c := PhOpen)) w'" by (rule users_inv_frame [OF inv core_users_eq])
  show "r \<notin> {HPanic, HBlocked}"
    using send_hello_result [of c] run by (metis fst_conv)
qed

text \<open>\<open>OnDisconnect\<close> finds the stored record and the connection in it.\<close>

lemma phase_gone:
  assumes "ph c = PhClosed"
  shows "(ph(c := PhGone)) d = PhServing \<longleftrightarrow> ph d = PhServing"
    and "live ((ph(c := PhGone)) d) \<longleftrightarrow> live (ph d) \<and> d \<noteq> c"
    and "ph d = PhNone \<Longrightarrow> (ph(c := PhGone)) d = PhNone"
  using assms by (auto simp: live_def)

lemma OnDisconnect_run:
  assumes "users_inv ph w" and "live (ph c)"
  obtains u where "cn_binder (w_conns w c) = Some (BoundUser u)"
    and "(ur_id (w_users w u), u) \<in> set (rm_users (w_rtm w))" and "c \<in> set (ur_connections (w_users w u))"
    and "rtm_OnDisconnect env c w = (HNil, upd_user u (\<lambda>r. r\<lparr>ur_exit :=
        (if filter (\<lambda>d. d \<noteq> c) (ur_connections (w_users w u)) = [] then en_now env else ur_exit r),
        ur_connections := filter (\<lambda>d. d \<noteq> c) (ur_connections (w_users w u))\<rparr>) w)"
proof -
  obtain u where u: "cn_binder (w_conns w c) = Some (BoundUser u)" "(ur_id (w_users w u), u) \<in> set (rm_users (w_rtm w))"
      "c \<in> set (ur_connections (w_users w u))"
    using users_invD(4) [OF assms] by (auto simp: live_conn_ok_def)
  have "gm_get (rm_users (w_rtm w)) (ur_id (w_users w u)) = Some u"
    using u(2) users_invD(1) [OF assms(1)] by (simp add: gm_wf_def)
  with u show thesis by (intro that) (simp_all add: rtm_OnDisconnect_def Let_def)
qed

lemma users_inv_OnDisconnect:
  assumes "users_inv ph w" and "ph c = PhClosed" and "rtm_OnDisconnect env c w = (r, w')"
  shows "r = HNil" and "users_inv (ph(c := PhGone)) w'"
proof -
  note ph = phase_gone [of ph c, OF assms(2)]
  have "live (ph c)" using assms(2) by (simp add: live_def)
  then obtain u where u: "cn_binder (w_conns w c) = Some (BoundUser u)"
    "(ur_id (w_users w u), u) \<in> set (rm_users (w_rtm w))" "c \<in> set (ur_connections (w_users w u))"
    and run: "rtm_OnDisconnect env c w = (HNil, upd_user u (\<lambda>r. r\<lparr>ur_exit :=
        (if filter (\<lambda>d. d \<noteq> c) (ur_connections (w_users w u)) = [] then en_now env else ur_exit r),
        ur_connections := filter (\<lambda>d. d \<noteq> c) (ur_connections (w_users w u))\<rparr>) w)"
    by (rule OnDisconnect_run [OF assms(1), where env = env])
  have w': "w_rtm w' = w_rtm w" "w_conns w' = w_conns w" "w_next w' = w_next w"
      "\<And>v. ur_id (w_users w' v) = ur_id (w_users w v)" "\<And>v. ur_auth (w_users w' v) = ur_auth (w_users w v)"
      "\<And>v. ur_connections (w_users w' v) = (if v = u then filter (\<lambda>d. d \<noteq> c) (ur_connections (w_users w u)) else ur_connections (w_users w v))"
    using assms(3) run by auto
  have fr: "fresh_user w v \<Longrightarrow> fresh_user w' v" for v
    using u(2) by (auto simp: fresh_user_def w' image_iff)
  have cother: "c \<notin> set (ur_connections (w_users w v))" if "user_entry_ok ph w k v" "v \<noteq> u" for k v
    using that u(1) by (auto simp: user_entry_ok_def)
  have entry: "user_entry_ok (ph(c := PhGone)) w' k v" if "user_entry_ok ph w k v" for k v
    using that cother [OF that] unfolding user_entry_ok_def w' ph by auto
  have livec: "live_conn_ok w' d" if "live_conn_ok w d" "d \<noteq> c" for d
    using that unfolding live_conn_ok_def w' by auto
  have serving: "serving_conn_ok ph w d \<Longrightarrow> serving_conn_ok (ph(c := PhGone)) w' d" for d
    unfolding serving_conn_ok_def w' ph using fr by blast
  have key: "key_ok w k r \<Longrightarrow> key_ok w' k r" for k r
    unfolding key_ok_def w' using fr by blast
  show "r = HNil" using assms(3) run by simp
  show "users_inv (ph(c := PhGone)) w'"
  proof (rule users_invI)
    show "gm_wf (rm_users (w_rtm w'))" "gm_wf (rm_keys (w_rtm w'))"
      using users_invD(1,2) [OF assms(1)] by (simp_all only: w')
    show "user_entry_ok (ph(c := PhGone)) w' k v" if "(k, v) \<in> set (rm_users (w_rtm w'))" for k v
      by (rule entry) (use that in \<open>simp only: w' users_invD(3) [OF assms(1)]\<close>)
    show "live_conn_ok w' d" if "live ((ph(c := PhGone)) d)" for d
      using that unfolding ph by (intro livec users_invD(4) [OF assms(1)]) simp_all
    show "serving_conn_ok (ph(c := PhGone)) w' d" if "(ph(c := PhGone)) d = PhServing" for d
      using that unfolding ph by (intro serving users_invD(5) [OF assms(1)])
    show "key_ok w' k v" if "(k, v) \<in> set (rm_keys (w_rtm w'))" for k v
      by (rule key) (use that in \<open>simp only: w' users_invD(6) [OF assms(1)]\<close>)
    show "(ph(c := PhGone)) d = PhNone" if "w_next w' \<le> d" for d
      by (rule ph(3)) (use that in \<open>simp only: w' users_invD(7) [OF assms(1)]\<close>)
  qed
qed

text \<open>Dropping users without connections.\<close>

lemma users_inv_drop:
  assumes "users_inv ph w" and "users_eq (upd_rtm (\<lambda>m. m\<lparr>rm_users := filter P (rm_users m)\<rparr>) w) w'"
    and "\<And>k u. (k, u) \<in> set (rm_users (w_rtm w)) \<Longrightarrow> ur_connections (w_users w u) \<noteq> [] \<Longrightarrow> P (k, u)"
  shows "users_inv ph w'"
proof (rule users_inv_frame [OF _ assms(2)])
  define v where "v = upd_rtm (\<lambda>m. m\<lparr>rm_users := filter P (rm_users m)\<rparr>) w"
  have v: "rm_users (w_rtm v) = filter P (rm_users (w_rtm w))" "rm_keys (w_rtm v) = rm_keys (w_rtm w)"
      "w_users v = w_users w" "w_conns v = w_conns w" "w_next v = w_next w"
    by (simp_all add: v_def)
  have fresh: "fresh_user w u \<Longrightarrow> fresh_user v u" for u by (auto simp: fresh_user_def v)
  have serving: "serving_conn_ok ph w c \<Longrightarrow> serving_conn_ok ph v c" for c
    unfolding serving_conn_ok_def v using fresh by blast
  have key: "key_ok w k r \<Longrightarrow> key_ok v k r" for k r
    unfolding key_ok_def v using fresh by blast
  have live: "live_conn_ok w c \<Longrightarrow> live_conn_ok v c" for c
    unfolding live_conn_ok_def v using assms(3) by fastforce
  have entry: "user_entry_ok ph w k u \<Longrightarrow> user_entry_ok ph v k u" for k u
    by (simp add: user_entry_ok_def v)
  have "users_inv ph v"
    using users_invD [OF assms(1)]
    by (intro users_invI serving key live entry) (simp_all add: v)
  then show "users_inv ph (upd_rtm (\<lambda>m. m\<lparr>rm_users := filter P (rm_users m)\<rparr>) w)"
    by (simp add: v_def)
qed

lemma purgeExpiredKeys_eq:
  "gm_wf (rm_keys m) \<Longrightarrow> purgeExpiredKeys now m =
     m\<lparr>rm_keys := filter (\<lambda>e. \<not> kr_when (snd e) < now - connectExpiration) (rm_keys m)\<rparr>"
  by (simp add: purgeExpiredKeys_def Let_def gm_purge_filter)

lemma Channel_Cleanup_users_eq: "Channel_Cleanup h w = Some (b, w') \<Longrightarrow> users_eq w w'"
  by (auto simp: Channel_Cleanup_def Let_def users_eq_def split: if_splits option.splits)

lemma del_channel_users_eq: "users_eq w (upd_rtm (\<lambda>m. m\<lparr>rm_channels := gm_del k (rm_channels m)\<rparr>) w)"
  by (simp add: users_eq_def)

lemma cleanup_all_users_eq: "users_eq w (snd (cleanup_all es w))"
proof (induction es arbitrary: w)
  case (Cons e es)
  show ?case
  proof (cases "Channel_Cleanup (cr_channel (snd e)) w")
    case (Some bw)
    obtain b v where bw: "bw = (b, v)" by (cases bw)
    have v: "users_eq w v" using Some bw by (simp add: Channel_Cleanup_users_eq)
    show ?thesis
      using Some bw users_eq_trans [OF v Cons.IH] users_eq_trans [OF v users_eq_trans [OF del_channel_users_eq Cons.IH]]
      by (cases b) simp_all
  qed simp
qed simp

lemma purgeEmptyChannels_users_eq: "users_eq w (snd (purgeEmptyChannels now w))"
  by (simp add: purgeEmptyChannels_def cleanup_all_users_eq split: option.splits)

lemma users_inv_purgeInactiveUsers:
  assumes "users_inv ph w"
  shows "users_inv ph (purgeInactiveUsers now w)"
proof (rule users_inv_drop [OF assms])
  let ?P = "\<lambda>e. \<not> user_inactive now (w_users w (snd e))"
  let ?es = "filter (\<lambda>e. user_inactive now (w_users w (snd e))) (rm_users (w_rtm w))"
  have ids: "map (\<lambda>u. ur_id (w_users w u)) (map snd ?es) = map fst ?es"
    using users_invD(3) [OF assms] by (auto simp: user_entry_ok_def)
  have "rm_users (w_rtm (purgeInactiveUsers now w)) = gm_remove_all (map fst ?es) (rm_users (w_rtm w))"
    unfolding purgeInactiveUsers_def Let_def ids [symmetric]
    by (rule drop_users_table) (auto simp: user_inactive_def)
  then have "rm_users (w_rtm (purgeInactiveUsers now w)) = filter ?P (rm_users (w_rtm w))"
    by (simp add: gm_purge_filter [OF users_invD(1) [OF assms]])
  then show "users_eq (upd_rtm (\<lambda>m. m\<lparr>rm_users := filter ?P (rm_users m)\<rparr>) w) (purgeInactiveUsers now w)"
    by (simp add: users_eq_def purgeInactiveUsers_def Let_def)
  show "?P (k, u)" if "ur_connections (w_users w u) \<noteq> []" for k u
    using that by (simp add: user_inactive_def)
qed

lemma users_inv_cleanup:
  assumes "users_inv ph w" and "cleanup_tick now w = (r, w')"
  shows "users_inv ph w'"
proof -
  let ?v = "upd_rtm (purgeExpiredKeys now) w"
  have v: "users_inv ph ?v"
    by (rule users_inv_del_key [OF assms(1), where P = "\<lambda>e. \<not> kr_when (snd e) < now - connectExpiration"])
      (simp add: users_eq_def purgeExpiredKeys_eq [OF users_invD(2) [OF assms(1)]])
  obtain x y where xy: "purgeEmptyChannels now ?v = (x, y)" by (cases "purgeEmptyChannels now ?v")
  have y: "users_inv ph y"
    by (rule users_inv_frame [OF v]) (metis purgeEmptyChannels_users_eq xy snd_conv)
  show ?thesis
    using assms(2) xy y users_inv_purgeInactiveUsers [OF y]
    by (auto simp: cleanup_tick_def split: handler_result.splits)
qed

subsection \<open>HTTP handlers\<close>

lemma isRequestWithValidAuth_core:
  "isRequestWithValidAuth env req w = (r, req1, w1) \<Longrightarrow> core_eq w w1"
  by (auto simp: isRequestWithValidAuth_def split: list.splits if_splits prod.splits)

lemma authorize_user_core:
  assumes "authorize_user env denied req w = (r, w1)"
  shows "core_eq w w1"
proof -
  obtain x req1 w0 where v: "isRequestWithValidAuth env req w = (x, req1, w0)"
    by (cases "isRequestWithValidAuth env req w") auto
  with assms have "core_eq w0 w1"
    by (auto simp: authorize_user_def Let_def split: auth_result.splits if_splits)
  with isRequestWithValidAuth_core [OF v] show ?thesis by (rule core_eq_trans)
qed

lemma connect_outcome:
  assumes "HTTPConnectHandler env req w = (res, w')"
  shows "\<exists>v. core_eq w v \<and> (core_eq v w' \<or> (\<exists>user auth. user \<noteq> [] \<and> core_eq (snd (rtm_Connect (hv_rtm env) user auth v)) w'))"
proof -
  obtain r :: "RTMConnectResponse http_result + string \<times> AdminAuthToken" and v
    where a: "authorize_user env ''auth failed'' req w = (r, v)"
    by (rule prod.exhaust)
  have v: "core_eq w v" by (rule authorize_user_core [OF a])
  show ?thesis
  proof (cases r)
    case (Inl x)
    with assms a v show ?thesis by (auto simp: HTTPConnectHandler_def)
  next
    case (Inr ua)
    obtain user auth where ua: "ua = (user, auth)" by (cases ua)
    have "core_eq (snd (rtm_Connect (hv_rtm env) user (Some auth) v)) w'"
      using assms a Inr ua inc_metric_core
      by (auto simp: HTTPConnectHandler_def Let_def split: prod.splits option.splits sum.splits)
    with authorize_user_Inr(1) [OF a [unfolded Inr ua]] v show ?thesis by blast
  qed
qed

lemma turn_core: "HTTPTURNHandler env req w = (res, w') \<Longrightarrow> core_eq w w'"
  using authorize_user_core [of env "[]" req w] inc_metric_core
  by (auto simp: HTTPTURNHandler_def split: option.splits prod.splits sum.splits intro: core_eq_trans)

end
