(* ===== verification/Rooms.thy ===== *)
theory Rooms
  imports System
begin

text \<open>
  The channels of the running server: the rooms invariant says who can be a member of a channel, that
  every member's removal is registered on its connection, and which goroutines can be pending. It is
  kept by every message, by closing a connection and by the cleanup; together with the users invariant
  and the channel table it is inductive for the transition system.
\<close>

section \<open>The rooms invariant\<close>

definition active :: "phase \<Rightarrow> bool" where
  "active p \<longleftrightarrow> p \<in> {PhOpen, PhEnding, PhStuck}"

definition unclosed :: "phase \<Rightarrow> bool" where
  "unclosed p \<longleftrightarrow> p \<in> {PhServing, PhOpen, PhEnding}"

definition known_user :: "world \<Rightarrow> conn_ref \<Rightarrow> string \<Rightarrow> bool" where
  "known_user w c uid \<longleftrightarrow> c < w_next w \<and>
     (case bound_user c w of None \<Rightarrow> False | Some u \<Rightarrow> u < w_next w \<and> ur_id (w_users w u) = uid)"

definition member_ok :: "(conn_ref \<Rightarrow> phase) \<Rightarrow> world \<Rightarrow> chan_ref \<Rightarrow> string \<Rightarrow> conn_ref \<Rightarrow> bool" where
  "member_ok ph w h uid c \<longleftrightarrow> active (ph c) \<and> known_user w c uid \<and>
     (ph c \<noteq> PhStuck \<longrightarrow> CbChannelRemove h uid c \<in> set (cn_onClosedCallbacks (w_conns w c)))"

definition task_ok :: "world \<Rightarrow> task \<Rightarrow> bool" where
  "task_ok w t \<longleftrightarrow>
     (case t of TEmitChats c h op uid \<Rightarrow> c < w_next w \<and> bound_user c w \<noteq> None | _ \<Rightarrow> True)"

text \<open>The tasks that concern no connection.\<close>

definition plain_task :: "task \<Rightarrow> bool" where
  "plain_task t \<longleftrightarrow> (case t of TEmitChats c h op uid \<Rightarrow> False | _ \<Rightarrow> True)"

lemma plain_task_ok: "plain_task t \<Longrightarrow> task_ok w t"
  by (simp add: plain_task_def task_ok_def split: task.splits)

text \<open>The callbacks of a client's connection remove it from channels; those of other connections do not.\<close>

definition cb_ok :: "(conn_ref \<Rightarrow> phase) \<Rightarrow> conn_ref \<Rightarrow> closed_cb \<Rightarrow> bool" where
  "cb_ok ph c cb \<longleftrightarrow>
     (case cb of CbChannelRemove h uid d \<Rightarrow> d = c \<and> ph c \<noteq> PhNone | _ \<Rightarrow> ph c = PhNone)"

lemma cb_ok_simps [simp]:
  "cb_ok ph c (CbChannelRemove h uid d) \<longleftrightarrow> d = c \<and> ph c \<noteq> PhNone"
  "cb_ok ph c (CbPipelineClosed p) \<longleftrightarrow> ph c = PhNone" "cb_ok ph c (CbAttachedClosed a) \<longleftrightarrow> ph c = PhNone"
  by (simp_all add: cb_ok_def)

lemma cb_ok_client: "cb_ok ph c cb \<Longrightarrow> ph c \<noteq> PhNone \<Longrightarrow> \<exists>h uid. cb = CbChannelRemove h uid c"
  by (cases cb) simp_all

definition room_inv :: "(conn_ref \<Rightarrow> phase) \<Rightarrow> world \<Rightarrow> bool" where
  "room_inv ph w \<longleftrightarrow> (\<forall>t \<in> set (w_tasks w). task_ok w t) \<and>
     (\<forall>c. \<forall>cb \<in> set (cn_onClosedCallbacks (w_conns w c)). cb_ok ph c cb) \<and>
     (\<forall>c. unclosed (ph c) \<longrightarrow> \<not> cn_closed (w_conns w c)) \<and>
     (\<forall>h uid c. channel_member h w uid = Some c \<longrightarrow> member_ok ph w h uid c)"

lemma room_invI:
  assumes "\<And>t. t \<in> set (w_tasks w) \<Longrightarrow> task_ok w t"
    and "\<And>c cb. cb \<in> set (cn_onClosedCallbacks (w_conns w c)) \<Longrightarrow> cb_ok ph c cb"
    and "\<And>c. unclosed (ph c) \<Longrightarrow> \<not> cn_closed (w_conns w c)"
    and "\<And>h uid c. channel_member h w uid = Some c \<Longrightarrow> member_ok ph w h uid c"
  shows "room_inv ph w"
  using assms by (simp add: room_inv_def)

lemma room_invD:
  assumes "room_inv ph w"
  shows "t \<in> set (w_tasks w) \<Longrightarrow> task_ok w t"
    and "cb \<in> set (cn_onClosedCallbacks (w_conns w c)) \<Longrightarrow> cb_ok ph c cb"
    and "unclosed (ph c) \<Longrightarrow> \<not> cn_closed (w_conns w c)"
    and "channel_member h w uid = Some c \<Longrightarrow> member_ok ph w h uid c"
  using assms by (simp_all add: room_inv_def)

text \<open>
  What may change around the channels without concerning them. Connections that are not of clients
  may be closed and get callbacks of pipelines.
\<close>

definition room_frame :: "(conn_ref \<Rightarrow> phase) \<Rightarrow> world \<Rightarrow> world \<Rightarrow> bool" where
  "room_frame ph w w' \<longleftrightarrow> w_chans w' = w_chans w \<and> w_next w \<le> w_next w' \<and>
     (\<forall>t \<in> set (w_tasks w'). t \<in> set (w_tasks w) \<or> plain_task t) \<and>
     (\<forall>c. ph c \<noteq> PhNone \<longrightarrow> cn_onClosedCallbacks (w_conns w' c) = cn_onClosedCallbacks (w_conns w c) \<and>
        cn_closed (w_conns w' c) = cn_closed (w_conns w c)) \<and>
     (\<forall>c. ph c = PhNone \<longrightarrow> (\<forall>cb \<in> set (cn_onClosedCallbacks (w_conns w' c)).
        cb \<in> set (cn_onClosedCallbacks (w_conns w c)) \<or> cb_ok ph c cb)) \<and>
     (\<forall>c < w_next w. bound_user c w \<noteq> None \<longrightarrow> bound_user c w' \<noteq> None) \<and>
     (\<forall>c uid. active (ph c) \<longrightarrow> known_user w c uid \<longrightarrow> known_user w' c uid)"

lemma task_ok_bound:
  "task_ok w t \<Longrightarrow> (\<And>c. c < w_next w \<Longrightarrow> bound_user c w \<noteq> None \<Longrightarrow> bound_user c w' \<noteq> None) \<Longrightarrow>
   w_next w \<le> w_next w' \<Longrightarrow> task_ok w' t"
  by (auto simp: task_ok_def split: task.splits)

lemma phase_some: "unclosed p \<Longrightarrow> p \<noteq> PhNone" "active p \<Longrightarrow> p \<noteq> PhNone"
  by (auto simp: unclosed_def active_def)

lemma room_inv_frame:
  assumes "room_inv ph w" and "room_frame ph w w'"
  shows "room_inv ph w'"
proof (rule room_invI)
  note D = room_invD [OF assms(1)]
  show "task_ok w' t" if "t \<in> set (w_tasks w')" for t
  proof (rule task_ok_bound)
    show "task_ok w t" using that assms(2) D(1) plain_task_ok by (auto simp: room_frame_def)
  qed (use assms(2) in \<open>auto simp: room_frame_def\<close>)
  show "cb_ok ph c cb" if "cb \<in> set (cn_onClosedCallbacks (w_conns w' c))" for c cb
    using that assms(2) D(2) unfolding room_frame_def by (cases "ph c = PhNone") metis+
  show "\<not> cn_closed (w_conns w' c)" if "unclosed (ph c)" for c
    using D(3) [OF that] phase_some(1) [OF that] assms(2) by (simp add: room_frame_def)
  show "member_ok ph w' h uid c" if "channel_member h w' uid = Some c" for h uid c
  proof -
    have "member_ok ph w h uid c"
      by (rule D(4)) (use that assms(2) in \<open>auto simp: room_frame_def channel_member_def\<close>)
    then show ?thesis using assms(2) phase_some(2) by (auto simp: room_frame_def member_ok_def)
  qed
qed

text \<open>The connection of a client, or a new one, changes its phase.\<close>

lemma room_inv_phase:
  assumes "room_inv ph w" and "unclosed p \<Longrightarrow> \<not> cn_closed (w_conns w c)" and "p \<noteq> PhNone"
    and "ph c \<noteq> PhNone \<or> cn_onClosedCallbacks (w_conns w c) = []"
    and "\<And>h uid. channel_member h w uid = Some c \<Longrightarrow> member_ok (ph(c := p)) w h uid c"
  shows "room_inv (ph(c := p)) w"
proof (rule room_invI)
  show "\<And>t. t \<in> set (w_tasks w) \<Longrightarrow> task_ok w t" using room_invD [OF assms(1)] by auto
  show "cb_ok (ph(c := p)) d cb" if "cb \<in> set (cn_onClosedCallbacks (w_conns w d))" for d cb
    using room_invD(2) [OF assms(1) that] that assms(3,4) by (auto simp: cb_ok_def split: closed_cb.splits)
  show "\<not> cn_closed (w_conns w d)" if "unclosed ((ph(c := p)) d)" for d
    using that assms(2) room_invD(3) [OF assms(1)] by (cases "d = c") auto
  show "member_ok (ph(c := p)) w h uid d" if "channel_member h w uid = Some d" for h uid d
    using that assms(5) room_invD(4) [OF assms(1) that] by (cases "d = c") (auto simp: member_ok_def)
qed

lemma room_inv_active:
  assumes "room_inv ph w" and "ph c \<in> {PhOpen, PhEnding}" and "active p"
  shows "room_inv (ph(c := p)) w"
proof (rule room_inv_phase [OF assms(1)])
  show "\<not> cn_closed (w_conns w c)"
    by (rule room_invD(3) [OF assms(1)]) (use assms(2) in \<open>auto simp: unclosed_def\<close>)
  show "member_ok (ph(c := p)) w h uid c" if "channel_member h w uid = Some c" for h uid
    using room_invD(4) [OF assms(1) that] assms(2,3) by (auto simp: member_ok_def)
qed (use assms(2,3) phase_some(2) in auto)

lemma room_inv_outside:
  assumes "room_inv ph w" and "\<not> active (ph c)" and "unclosed p \<Longrightarrow> \<not> cn_closed (w_conns w c)" and "p \<noteq> PhNone"
    and "ph c \<noteq> PhNone \<or> cn_onClosedCallbacks (w_conns w c) = []"
  shows "room_inv (ph(c := p)) w"
  by (rule room_inv_phase [OF assms(1,3-5)]) (use room_invD(4) [OF assms(1)] assms(2) in \<open>auto simp: member_ok_def\<close>)

lemma room_frame_trans:
  assumes "room_frame ph w1 w2" and "room_frame ph w2 w3"
  shows "room_frame ph w1 w3"
proof -
  have "cb \<in> set (cn_onClosedCallbacks (w_conns w1 c)) \<or> cb_ok ph c cb"
    if "ph c = PhNone" "cb \<in> set (cn_onClosedCallbacks (w_conns w3 c))" for c cb
    using assms that unfolding room_frame_def by blast
  moreover have "t \<in> set (w_tasks w1) \<or> plain_task t" if "t \<in> set (w_tasks w3)" for t
    using assms that unfolding room_frame_def by blast
  ultimately show ?thesis using assms unfolding room_frame_def by simp
qed

subsection \<open>Steps that do not concern the channels\<close>

lemma known_user_eq: "users_eq w w' \<Longrightarrow> known_user w c uid \<Longrightarrow> known_user w' c uid"
  by (auto simp: users_eq_def known_user_def bound_user_def split: option.splits)

lemma bound_eq: "users_eq w w' \<Longrightarrow> c < w_next w \<Longrightarrow> bound_user c w' = bound_user c w"
  by (simp add: users_eq_def bound_user_def)

lemma users_task_ok: "users_eq w w' \<Longrightarrow> task_ok w t \<Longrightarrow> task_ok w' t"
  by (erule task_ok_bound) (metis bound_eq, simp add: users_eq_def)

lemma users_room_frame:
  assumes "users_eq w w'" and "w_chans w' = w_chans w"
    and "set (w_tasks w') \<subseteq> set (w_tasks w)"
    and "\<And>c. cn_onClosedCallbacks (w_conns w' c) = cn_onClosedCallbacks (w_conns w c)"
    and "\<And>c. cn_closed (w_conns w' c) = cn_closed (w_conns w c)"
  shows "room_frame ph w w'"
  using assms known_user_eq [OF assms(1)] bound_eq [OF assms(1)] by (auto simp: room_frame_def users_eq_def)

lemma core_room_frame: "core_eq w w' \<Longrightarrow> room_frame ph w w'"
  by (rule users_room_frame [OF core_users_eq]) (simp_all add: core_eq_def)

lemma Connect_room_frame: "room_frame ph w (snd (rtm_Connect env uid auth w))"
  by (auto simp: rtm_Connect_def Let_def room_frame_def bound_user_def known_user_def split: option.splits bound_value.splits)

subsection \<open>Effects of a message\<close>

text \<open>
  A change of one channel: its members afterwards are members from before or the joining connection,
  whose removal is registered; new tasks belong to channels.
\<close>

lemma room_inv_channel:
  assumes "room_inv ph w" and "users_eq w w'"
    and "\<And>t. t \<in> set (w_tasks w') \<Longrightarrow> t \<in> set (w_tasks w) \<or> task_ok w t"
    and "\<And>d. set (cn_onClosedCallbacks (w_conns w d)) \<subseteq> set (cn_onClosedCallbacks (w_conns w' d))"
    and "\<And>d cb. cb \<in> set (cn_onClosedCallbacks (w_conns w' d)) \<Longrightarrow> cb_ok ph d cb"
    and "\<And>d. cn_closed (w_conns w' d) = cn_closed (w_conns w d)"
    and "\<And>g i d. channel_member g w' i = Some d \<Longrightarrow> channel_member g w i = Some d \<or> member_ok ph w' g i d"
  shows "room_inv ph w'"
proof (rule room_invI)
  note D = room_invD [OF assms(1)]
  show "task_ok w' t" if "t \<in> set (w_tasks w')" for t
    by (rule users_task_ok [OF assms(2)]) (use assms(3) [OF that] D(1) in auto)
  show "\<not> cn_closed (w_conns w' c)" if "unclosed (ph c)" for c using D(3) [OF that] assms(6) by simp
  show "member_ok ph w' h uid c" if "channel_member h w' uid = Some c" for h uid c
    using assms(7) [OF that]
  proof
    assume "channel_member h w uid = Some c"
    then have "member_ok ph w h uid c" by (rule D(4))
    then show ?thesis using assms(4) known_user_eq [OF assms(2)] by (auto simp: member_ok_def)
  qed
qed (use assms(5) in auto)

lemma store_tasks:
  "t \<in> set (w_tasks (channel_store h uid c r w)) \<Longrightarrow>
   t \<in> set (w_tasks w) \<or> t = TEmitChats c h ChannelOpAdd uid \<or> t = TAfterAddOrRemove h ChannelOpAdd uid"
  by (auto simp: channel_store_def Let_def spawn_def split: if_splits)

lemma store_conns:
  "w_conns (channel_store h uid c r w) = (w_conns w)(c := OnClosed (CbChannelRemove h uid c) (w_conns w c))"
  by (simp add: channel_store_def Let_def)

lemma remove_tasks:
  "t \<in> set (w_tasks (snd (channel_remove h uid d w))) \<Longrightarrow>
   t \<in> set (w_tasks w) \<or> (\<exists>e. channel_member h w uid = Some e \<and> t = TEmitChats e h ChannelOpRemove uid) \<or>
   t = TAfterAddOrRemove h ChannelOpRemove uid"
  by (auto simp: channel_remove_def channel_member_def Let_def spawn_def split: if_splits option.splits)

lemma remove_chans:
  "channel_member g (snd (channel_remove h uid d w)) i =
     (if g = h \<and> i = uid \<and> (d = None \<or> channel_member h w uid = d) then None else channel_member g w i)"
  by (auto simp: channel_remove_def channel_member_def Let_def split: option.splits)

lemma known_bound: "known_user w c uid \<Longrightarrow> c < w_next w \<and> bound_user c w \<noteq> None"
  by (auto simp: known_user_def split: option.splits)

lemma room_inv_remove:
  assumes "room_inv ph w"
  shows "room_inv ph (snd (channel_remove h uid d w))"
proof (rule room_inv_channel [OF assms])
  note D = room_invD [OF assms]
  have "e < w_next w \<and> bound_user e w \<noteq> None" if "channel_member h w uid = Some e" for e
    using D(4) [OF that] known_bound by (auto simp: member_ok_def)
  then show "t \<in> set (w_tasks w) \<or> task_ok w t" if "t \<in> set (w_tasks (snd (channel_remove h uid d w)))" for t
    using remove_tasks [OF that] by (auto simp: task_ok_def)
  show "channel_member g w i = Some x \<or> member_ok ph (snd (channel_remove h uid d w)) g i x"
    if "channel_member g (snd (channel_remove h uid d w)) i = Some x" for g i x
    using that by (simp add: remove_chans split: if_splits)
qed (use room_invD [OF assms] in \<open>simp_all add: users_eq_def remove_chans\<close>)

lemma room_inv_store:
  assumes "room_inv ph w" and "ph c = PhOpen" and "known_user w c uid"
  shows "room_inv ph (channel_store h uid c r w)"
proof (rule room_inv_channel [OF assms(1)])
  note D = room_invD [OF assms(1)]
  let ?w = "channel_store h uid c r w"
  show eq: "users_eq w ?w"
    using apply_effect_users_eq [of w "EJoin h uid c r"] by simp
  show "t \<in> set (w_tasks w) \<or> task_ok w t" if "t \<in> set (w_tasks ?w)" for t
    using store_tasks [OF that] known_bound [OF assms(3)] by (auto simp: task_ok_def)
  have "member_ok ph ?w h uid c"
    using assms known_user_eq [OF eq assms(3)] by (auto simp: member_ok_def active_def store_conns OnClosed_def)
  then show "channel_member g w i = Some x \<or> member_ok ph ?w g i x" if "channel_member g ?w i = Some x" for g i x
    using that by (auto simp: channel_member_def channel_store_chans split: if_splits)
  show "cb_ok ph d cb" if "cb \<in> set (cn_onClosedCallbacks (w_conns ?w d))" for d cb
    using that D(2) assms(2) by (auto simp: store_conns OnClosed_def split: if_splits)
qed (use room_invD [OF assms(1)] in \<open>auto simp: channel_store_chans store_conns OnClosed_def\<close>)

lemma NewChannel_tasks:
  assumes "NewChannel cid cfg w = (h, w')"
  shows "set (w_tasks w') \<subseteq> set (w_tasks w) \<union> {TPipelineConnect p h | p. True}"
  using assms
  by (auto simp: NewChannel_def rtm_Pipeline_def mcu_Pipeline_def mcu_NewHandle_def Let_def
      split: option.splits if_splits prod.splits)

lemma room_inv_new:
  assumes "room_inv ph w"
  shows "room_inv ph (snd (NewChannel cid cfg w))"
proof -
  obtain h w' where new: "NewChannel cid cfg w = (h, w')" by (cases "NewChannel cid cfg w")
  note res = NewChannel_result [OF new]
  have eq: "users_eq w w'" using apply_effect_users_eq [of w "ENew cid cfg"] new by simp
  have "room_inv ph w'"
  proof (rule room_inv_channel [OF assms eq])
    show "t \<in> set (w_tasks w) \<or> task_ok w t" if "t \<in> set (w_tasks w')" for t
      using NewChannel_tasks [OF new] that by (auto simp: task_ok_def)
    show "channel_member g w i = Some d \<or> member_ok ph w' g i d" if "channel_member g w' i = Some d" for g i d
      using that res(6,9) by (cases "g = h") (auto simp: channel_member_def)
  qed (use room_invD [OF assms] in \<open>simp_all add: res(10)\<close>)
  then show ?thesis using new by simp
qed

lemma room_inv_effect:
  assumes "room_inv ph w" and "ph c = PhOpen" and "known_user w c uid" and "webrtc_allowed n msg uid c prof own w e"
  shows "room_inv ph (apply_effect e w)"
proof (cases e)
  case (ESend d p)
  have "core_eq w (send_to p d w)" by (rule same_core_eq [OF send_to_same])
  then show ?thesis using ESend room_inv_frame [OF assms(1) core_room_frame] by simp
next
  case (EWedge h)
  show ?thesis
    unfolding EWedge
  proof (rule room_inv_channel [OF assms(1) apply_effect_users_eq])
    show "channel_member g w i = Some d \<or> member_ok ph (apply_effect (EWedge h) w) g i d"
      if "channel_member g (apply_effect (EWedge h) w) i = Some d" for g i d
      using that by (simp add: channel_member_def split: if_splits)
  qed (use room_invD [OF assms(1)] in simp_all)
next
  case (ERegister k rec)
  have "room_frame ph w (apply_effect e w)"
    by (rule users_room_frame [OF apply_effect_users_eq]) (simp_all add: ERegister)
  then show ?thesis by (rule room_inv_frame [OF assms(1)])
qed (use assms room_inv_remove room_inv_store room_inv_new in auto)

section \<open>The channel table\<close>

definition table_frame :: "world \<Rightarrow> world \<Rightarrow> bool" where
  "table_frame w w' \<longleftrightarrow> rm_channels (w_rtm w') = rm_channels (w_rtm w) \<and> w_next w \<le> w_next w' \<and>
     (\<forall>h. ch_id (w_chans w' h) = ch_id (w_chans w h) \<and> ch_config (w_chans w' h) = ch_config (w_chans w h) \<and>
        ch_closed (w_chans w' h) = ch_closed (w_chans w h))"

lemma table_frame_refl [simp]: "table_frame w w"
  by (simp add: table_frame_def)

lemma table_frame_trans: "table_frame w1 w2 \<Longrightarrow> table_frame w2 w3 \<Longrightarrow> table_frame w1 w3"
  by (auto simp: table_frame_def)

lemma channel_table_frame: "channel_table_ok w \<Longrightarrow> table_frame w w' \<Longrightarrow> channel_table_ok w'"
  by (fastforce simp: channel_table_ok_def table_frame_def chan_named_def)

lemma core_table_frame: "core_eq w w' \<Longrightarrow> table_frame w w'"
  by (simp add: core_eq_def table_frame_def)

lemma remove_table_frame: "table_frame w (snd (channel_remove h uid d w))"
  by (simp add: table_frame_def channel_remove_def Let_def split: option.splits)

section \<open>Closing a connection\<close>

lemma room_inv_shut:
  assumes "room_inv ph w" and "ph c = PhStuck"
  shows "room_inv ph (upd_conn c (\<lambda>_. snd (conn_Close now (w_conns w c))) w)"
proof (rule room_invI)
  note D = room_invD [OF assms(1)]
  let ?w = "upd_conn c (\<lambda>_. snd (conn_Close now (w_conns w c))) w"
  have eq: "users_eq w ?w" by (simp add: users_eq_def conn_Close_def)
  show "task_ok ?w t" if "t \<in> set (w_tasks ?w)" for t
    by (rule users_task_ok [OF eq D(1)]) (use that in simp)
  show "cb_ok ph d cb" if "cb \<in> set (cn_onClosedCallbacks (w_conns ?w d))" for d cb
    by (rule D(2)) (use that in \<open>auto simp: conn_Close_def split: if_splits\<close>)
  show "\<not> cn_closed (w_conns ?w d)" if "unclosed (ph d)" for d
    using D(3) [OF that] that assms(2) by (auto simp: unclosed_def)
  show "member_ok ph ?w h uid d" if "channel_member h ?w uid = Some d" for h uid d
  proof -
    have "member_ok ph w h uid d" by (rule D(4)) (use that in \<open>simp add: channel_member_def\<close>)
    then show ?thesis using assms(2) known_user_eq [OF eq] by (auto simp: member_ok_def)
  qed
qed

text \<open>What running the registered removals leaves.\<close>

definition closed_out :: "(conn_ref \<Rightarrow> phase) \<Rightarrow> conn_ref \<Rightarrow> closed_cb list \<Rightarrow> world \<Rightarrow> handler_result \<Rightarrow> world \<Rightarrow> bool" where
  "closed_out ph c cbs w r w' \<longleftrightarrow> room_inv ph w' \<and> users_eq w w' \<and> table_frame w w' \<and> r \<in> {HNil, HBlocked} \<and>
     (\<forall>g i d. channel_member g w' i = Some d \<longrightarrow> channel_member g w i = Some d) \<and>
     (r = HNil \<longrightarrow> (\<forall>h uid. CbChannelRemove h uid c \<in> set cbs \<longrightarrow> channel_member h w' uid \<noteq> Some c))"

lemma closed_out_cbs:
  assumes "room_inv ph w" and "\<forall>cb \<in> set cbs. \<exists>h uid. cb = CbChannelRemove h uid c"
    and "run_closed_cbs c cbs w = (r, w')"
  shows "closed_out ph c cbs w r w'"
  using assms
proof (induction cbs arbitrary: w)
  case Nil
  then show ?case by (simp add: closed_out_def)
next
  case (Cons cb cbs)
  obtain h uid where cb: "cb = CbChannelRemove h uid c" using Cons.prems(2) by auto
  show ?case
  proof (cases "ch_locked (w_chans w h)")
    case True
    then show ?thesis
      using Cons.prems cb by (auto simp: run_closed_cb_def closed_out_def)
  next
    case False
    define v where "v = snd (channel_remove h uid (Some c) w)"
    have step: "run_closed_cbs c cbs v = (r, w')"
      using Cons.prems(3) False by (simp add: cb run_closed_cb_def v_def)
    have v: "room_inv ph v" "users_eq w v" "table_frame w v"
      using Cons.prems(1) by (simp_all add: v_def room_inv_remove users_eq_def remove_table_frame)
    have "closed_out ph c cbs v r w'"
      by (rule Cons.IH [OF v(1) _ step]) (use Cons.prems(2) in simp)
    moreover have "channel_member h v uid \<noteq> Some c" "channel_member g v i = Some d \<Longrightarrow> channel_member g w i = Some d" for g i d
      by (auto simp: v_def remove_chans split: if_splits)
    ultimately show ?thesis
      using v users_eq_trans [OF v(2)] table_frame_trans [OF v(3)] by (auto simp: closed_out_def cb)
  qed
qed

lemma close_conn_out:
  assumes "room_inv ph w" and "ph c = PhEnding" and "close_conn now c w = (r, w')"
  shows "r \<in> {HNil, HBlocked}" and "users_eq w w'" and "table_frame w w'"
    and "room_inv (ph(c := (if r = HNil then PhClosed else PhStuck))) w'"
    and "r = HNil \<Longrightarrow> channel_member h w' uid \<noteq> Some c"
proof -
  define cbs where "cbs = cn_onClosedCallbacks (w_conns w c)"
  define v where "v = upd_conn c (\<lambda>_. snd (conn_Close now (w_conns w c))) w"
  let ?ph = "ph(c := PhStuck)"
  have open_c: "\<not> cn_closed (w_conns w c)"
    by (rule room_invD(3) [OF assms(1)]) (simp add: assms(2) unclosed_def)
  have "room_inv ?ph w" by (rule room_inv_active [OF assms(1)]) (simp_all add: assms(2) active_def)
  then have rv: "room_inv ?ph v" unfolding v_def by (rule room_inv_shut) simp
  have wv: "users_eq w v" "table_frame w v" by (auto simp: v_def users_eq_def table_frame_def conn_Close_def)
  have run: "run_closed_cbs c cbs v = (r, w')"
    using assms(3) open_c by (simp add: close_conn_def conn_Close_def cbs_def v_def)
  have "\<forall>cb \<in> set cbs. \<exists>h uid. cb = CbChannelRemove h uid c"
    using cb_ok_client [OF room_invD(2) [OF assms(1)]] assms(2) by (auto simp: cbs_def)
  from closed_out_cbs [OF rv this run] have out: "closed_out ?ph c cbs v r w'" .
  then show "r \<in> {HNil, HBlocked}" by (simp add: closed_out_def)
  show "users_eq w w'" using out users_eq_trans [OF wv(1)] by (simp add: closed_out_def)
  show "table_frame w w'" using out table_frame_trans [OF wv(2)] by (simp add: closed_out_def)
  show none: "channel_member h w' uid \<noteq> Some c" if "r = HNil" for h uid
  proof
    assume m: "channel_member h w' uid = Some c"
    then have "channel_member h w uid = Some c"
      using out by (auto simp: closed_out_def v_def channel_member_def)
    then have "CbChannelRemove h uid c \<in> set cbs"
      using room_invD(4) [OF assms(1)] assms(2) by (auto simp: member_ok_def cbs_def)
    then show False using out that m by (auto simp: closed_out_def)
  qed
  have stuck: "room_inv ?ph w'" using out by (simp add: closed_out_def)
  show "room_inv (ph(c := (if r = HNil then PhClosed else PhStuck))) w'"
  proof (cases "r = HNil")
    case True
    have "room_inv (?ph(c := PhClosed)) w'"
      by (rule room_inv_phase [OF stuck]) (use none [OF True] in \<open>auto simp: unclosed_def\<close>)
    then show ?thesis using True by simp
  qed (simp add: stuck)
qed

end
