(* ===== verification/Steps.thy ===== *)
theory Steps
  imports Rooms
begin

text \<open>
  The invariant of the running server, the conjunction of the users invariant, the rooms invariant and
  the channel table, is kept by each kind of step of the transition system: messages, closing,
  connecting, disconnecting, websocket requests and the cleanup.
\<close>

section \<open>The invariant of the server\<close>

definition server_inv :: "(conn_ref \<Rightarrow> phase) \<Rightarrow> world \<Rightarrow> bool" where
  "server_inv ph w \<longleftrightarrow> users_inv ph w \<and> room_inv ph w \<and> channel_table_ok w"

lemma server_inv_core: "server_inv ph w \<Longrightarrow> core_eq w w' \<Longrightarrow> server_inv ph w'"
  using users_inv_frame [OF _ core_users_eq] room_inv_frame [OF _ core_room_frame] channel_table_frame [OF _ core_table_frame]
  by (auto simp: server_inv_def)

lemma server_inv_live:
  assumes "server_inv ph w" and "ph c = PhOpen" and "active p"
  shows "server_inv (ph(c := p)) w"
  using assms users_inv_live [of ph w c p] room_inv_active [of ph w c p]
  by (auto simp: server_inv_def live_def active_def)

lemma live_below: "users_inv ph w \<Longrightarrow> ph c \<noteq> PhNone \<Longrightarrow> c < w_next w"
  using users_invD(7) [of ph w c] by (metis not_le)

lemma live_bound:
  assumes "users_inv ph w" and "live (ph c)"
  obtains u where "bound_user c w = Some u" and "known_user w c (ur_id (w_users w u))"
proof -
  obtain u where u: "cn_binder (w_conns w c) = Some (BoundUser u)" "(ur_id (w_users w u), u) \<in> set (rm_users (w_rtm w))"
    using users_invD(4) [OF assms] by (auto simp: live_conn_ok_def)
  moreover have "c < w_next w" using assms(2) by (intro live_below [OF assms(1)]) (auto simp: live_def)
  moreover have "u < w_next w" using users_invD(3) [OF assms(1) u(2)] by (simp add: user_entry_ok_def)
  ultimately show thesis by (intro that [of u]) (simp_all add: bound_user_def known_user_def)
qed

lemma server_inv_message:
  assumes "server_inv ph w" and "ph c = PhOpen"
  shows "server_inv ph (snd (processWebRTCMessage env c msg w))"
proof -
  have inv: "users_inv ph w" "room_inv ph w" "channel_table_ok w" using assms(1) by (simp_all add: server_inv_def)
  obtain u where u: "bound_user c w = Some u" and known: "known_user w c (ur_id (w_users w u))"
    by (rule live_bound [OF inv(1), of c]) (simp_all add: assms(2) live_def)
  let ?A = "webrtc_allowed (w_next w) msg (ur_id (w_users w u)) c (user_profile (w_users w u))
    (user_connections (ur_id (w_users w u)) w)"
  let ?I = "\<lambda>v. users_eq w v \<and> room_inv ph v \<and> channel_table_ok v"
  have "?I (snd (processWebRTCMessage env c msg w))"
  proof (rule effects_invariant [OF processWebRTCMessage_effects [OF inv(3) u refl]])
    fix v e assume v: "?I v" and e: "?A v e"
    have "known_user v c (ur_id (w_users w u))" using v known_user_eq [OF _ known] by simp
    with v e assms(2) room_inv_effect channel_table_ok_step apply_effect_users_eq users_eq_trans
    show "?I (apply_effect e v)" by metis
  qed (use inv in simp)
  then show ?thesis using users_inv_frame [OF inv(1)] by (simp add: server_inv_def)
qed

lemma server_inv_read:
  assumes "server_inv ph w" and "ph c = PhOpen" and "readPump_text env c msg w = (rr, w')"
  shows "server_inv (ph(c := phase_after_read rr)) w'"
proof -
  have "server_inv ph w'"
    using readPump_outcome [OF assms(3)] server_inv_core [OF assms(1)] server_inv_message [of ph _ c, OF _ assms(2)] server_inv_core
    by blast
  moreover have "active (phase_after_read rr)" by (simp add: phase_after_read_def active_def split: read_result.splits)
  ultimately show ?thesis using assms(2) by (intro server_inv_live)
qed

lemma server_inv_close:
  assumes "server_inv ph w" and "ph c = PhEnding" and "close_conn now c w = (r, w')"
  shows "server_inv (ph(c := (if r = HNil then PhClosed else PhStuck))) w'"
proof -
  have inv: "users_inv ph w" "room_inv ph w" "channel_table_ok w" using assms(1) by (simp_all add: server_inv_def)
  note out = close_conn_out [OF inv(2) assms(2,3)]
  have "users_inv (ph(c := (if r = HNil then PhClosed else PhStuck))) w'"
    by (rule users_inv_live [OF users_inv_frame [OF inv(1) out(2)]]) (simp_all add: assms(2) live_def)
  with out(4) channel_table_frame [OF inv(3) out(3)] show ?thesis by (simp add: server_inv_def)
qed

subsection \<open>Connect and disconnect\<close>

lemma connect_user_room_frame:
  assumes "ph c = PhServing" and "connect_user now c nur w = Some (ur, first, w')"
  shows "room_frame ph w w'" and "table_frame w w'"
  using assms
  by (auto simp: connect_user_def room_frame_def table_frame_def Bind_def known_user_def bound_user_def active_def
      split: option.splits if_splits bound_value.splits)

lemma OnConnect_frame:
  assumes "ph c = PhServing" and "rtm_OnConnect env c w = (r, w')"
  shows "room_frame ph w w' \<and> table_frame w w'"
proof -
  have hello: "room_frame ph v v' \<and> table_frame v v'" if "send_hello c ty self v = (x, v')" for ty self v x v'
    using send_hello_core [of v c ty self] that by (simp add: core_room_frame core_table_frame)
  have more: "room_frame ph w v' \<and> table_frame w v'"
    if "connect_user (en_now env) c nur w = Some (ur, b, v)" "send_hello c ty self (if b then inc_metric f v else v) = (x, v')"
    for nur ur b v ty self f x v'
  proof -
    note cu = connect_user_room_frame [of ph c, OF assms(1) that(1)]
    have "core_eq v (if b then inc_metric f v else v)" by (simp add: inc_metric_core)
    then have "room_frame ph v (if b then inc_metric f v else v)" "table_frame v (if b then inc_metric f v else v)"
      by (simp_all add: core_room_frame core_table_frame)
    with cu hello [OF that(2)] show ?thesis by (blast intro: room_frame_trans table_frame_trans)
  qed
  show ?thesis
    using assms(2) hello more connect_user_room_frame [of ph c, OF assms(1)] core_room_frame [of w w ph]
    by (auto simp: rtm_OnConnect_def split: option.splits bound_value.splits)
qed

lemma serve_begin_frame: "room_frame ph w (rtm_serve_begin c w)" "table_frame w (rtm_serve_begin c w)"
  by (rule users_room_frame [OF serve_begin_users_eq], simp_all add: rtm_serve_begin_def table_frame_def)

lemma serve_end_frame: "room_frame ph w (rtm_serve_end c w)" "table_frame w (rtm_serve_end c w)"
  by (rule users_room_frame [OF serve_end_users_eq], simp_all add: rtm_serve_end_def table_frame_def)

lemma server_inv_serve:
  assumes "server_inv ph w" and "ph c = PhServing" and "rtm_OnConnect env c (rtm_serve_begin c w) = (r, w')"
  shows "r \<notin> {HPanic, HBlocked}" and "server_inv (ph(c := PhOpen)) w'"
proof -
  have inv: "users_inv ph w" "room_inv ph w" "channel_table_ok w" using assms(1) by (simp_all add: server_inv_def)
  note conn = users_inv_OnConnect [OF inv(1) assms(2,3)] and frame = OnConnect_frame [of ph c, OF assms(2,3)]
  have room: "room_inv ph w'"
    using room_inv_frame [OF inv(2) room_frame_trans [OF serve_begin_frame(1)]] frame by blast
  have "room_inv (ph(c := PhOpen)) w'"
    by (rule room_inv_outside [OF room])
      (use room_invD(3) [OF room, of c] in \<open>auto simp: assms(2) active_def unclosed_def\<close>)
  moreover have "channel_table_ok w'"
    using channel_table_frame [OF inv(3) table_frame_trans [OF serve_begin_frame(2)]] frame by blast
  ultimately show "server_inv (ph(c := PhOpen)) w'" using conn(2) by (simp add: server_inv_def)
  show "r \<notin> {HPanic, HBlocked}" by (rule conn(1))
qed

lemma server_inv_disconnect:
  assumes "server_inv ph w" and "ph c = PhClosed" and "rtm_OnDisconnect env c w = (r, w')"
  shows "r = HNil" and "server_inv (ph(c := PhGone)) (rtm_serve_end c w')"
proof -
  have inv: "users_inv ph w" "room_inv ph w" "channel_table_ok w" using assms(1) by (simp_all add: server_inv_def)
  note dis = users_inv_OnDisconnect [OF inv(1) assms(2,3)]
  have live: "live (ph c)" by (simp add: assms(2) live_def)
  obtain u f where w': "w' = upd_user u f w" and f: "ur_id (f (w_users w u)) = ur_id (w_users w u)"
    by (rule OnDisconnect_run [OF inv(1) live, where env = env]) (use assms(3) in simp)
  have "room_frame ph w w'" using f by (auto simp: w' room_frame_def known_user_def bound_user_def split: option.splits)
  then have room: "room_inv ph w'" by (rule room_inv_frame [OF inv(2)])
  have "room_inv (ph(c := PhGone)) w'" by (rule room_inv_outside [OF room]) (simp_all add: assms(2) active_def unclosed_def)
  then have "room_inv (ph(c := PhGone)) (rtm_serve_end c w')" by (rule room_inv_frame [OF _ serve_end_frame(1)])
  moreover have "table_frame w w'" by (simp add: w' table_frame_def)
  then have "channel_table_ok (rtm_serve_end c w')"
    by (rule channel_table_frame [OF inv(3) table_frame_trans [OF _ serve_end_frame(2)]])
  ultimately show "server_inv (ph(c := PhGone)) (rtm_serve_end c w')"
    using users_inv_frame [OF dis(2) serve_end_users_eq] by (simp add: server_inv_def)
  show "r = HNil" by (rule dis(1))
qed

subsection \<open>Websocket requests\<close>

definition drops_keys :: "world \<Rightarrow> world \<Rightarrow> bool" where
  "drops_keys w w' \<longleftrightarrow> (\<exists>P. core_eq (upd_rtm (\<lambda>m. m\<lparr>rm_keys := filter P (rm_keys m)\<rparr>) w) w')"

lemma drops_keys_core: "core_eq w w' \<Longrightarrow> drops_keys w w'"
  unfolding drops_keys_def by (rule exI [of _ "\<lambda>_. True"]) (simp add: core_eq_def)

lemma drops_keys_Pop: "drops_keys w (upd_rtm (\<lambda>_. (w_rtm w)\<lparr>rm_keys := gm_del k (rm_keys (w_rtm w))\<rparr>) w)"
  unfolding drops_keys_def by (rule exI [of _ "\<lambda>e. fst e \<noteq> k"]) (simp add: core_eq_def gm_del_filter)

lemma drops_keys_after: "core_eq w v \<Longrightarrow> drops_keys v w' \<Longrightarrow> drops_keys w w'"
  unfolding drops_keys_def core_eq_def by auto

definition trades_key :: "world \<Rightarrow> conn_ref \<Rightarrow> world \<Rightarrow> bool" where
  "trades_key w c w' \<longleftrightarrow> (\<exists>k kr u a now. gm_get (rm_keys (w_rtm w)) k = Some kr \<and> kr_user kr = Some u \<and>
     ur_auth (w_users w u) \<noteq> None \<and>
     rtm_new_conn now u ((upd_rtm (\<lambda>_. (w_rtm w)\<lparr>rm_keys := gm_del k (rm_keys (w_rtm w))\<rparr>) w)\<lparr>w_admin := a\<rparr>) = (c, w'))"

lemma HandleWebsocketConnect_outcome:
  assumes "rtm_HandleWebsocketConnect env k up w = (out, w')"
  shows "case wo_conn out of None \<Rightarrow> drops_keys w w' | Some c \<Rightarrow> trades_key w c w'"
proof (cases "wo_conn out")
  case None
  then show ?thesis
    using assms drops_keys_core [OF core_eq_refl] drops_keys_Pop
    by (auto simp: rtm_HandleWebsocketConnect_def keys_Pop_def ws_refuse_def Let_def
        split: option.splits prod.splits upgrade.splits)
next
  case (Some c)
  then obtain kr u auth where kr: "gm_get (rm_keys (w_rtm w)) k = Some kr" "kr_user kr = Some u" "ur_auth (w_users w u) = Some auth"
    using assms
    by (auto simp: rtm_HandleWebsocketConnect_def keys_Pop_def ws_refuse_def Let_def split: option.splits)
  define a where "a = snd (RefreshAdminAuthToken (en_now (hv_rtm env)) auth (w_admin w))"
  have "rtm_new_conn (en_now (hv_rtm env)) u
      ((upd_rtm (\<lambda>_. (w_rtm w)\<lparr>rm_keys := gm_del k (rm_keys (w_rtm w))\<rparr>) w)\<lparr>w_admin := a\<rparr>) = (c, w')"
    using assms kr Some
    by (auto simp: rtm_HandleWebsocketConnect_def keys_Pop_def ws_refuse_def Let_def a_def
        split: option.splits upgrade.splits prod.splits)
  moreover have "ur_auth (w_users w u) \<noteq> None" using kr(3) by simp
  ultimately have "trades_key w c w'" unfolding trades_key_def using kr(1,2) by (intro exI conjI)
  with Some show ?thesis by simp
qed

lemma websocket_outcome:
  assumes "rtm_HTTPWebsocketHandler env meth key up w = (out, w')"
  shows "(wo_conn out = None \<and> drops_keys w w') \<or> (\<exists>c v. wo_conn out = Some c \<and> core_eq w v \<and> trades_key v c w')"
proof (cases "meth = ''GET'' \<and> key \<noteq> None")
  case True
  then obtain k where k: "key = Some k" by auto
  let ?v = "inc_metric (mt_httpWebsocket_update Suc) w"
  obtain o1 w1 where h: "rtm_HandleWebsocketConnect env k up ?v = (o1, w1)"
    by (cases "rtm_HandleWebsocketConnect env k up ?v")
  have "wo_conn out = wo_conn o1" "w' = w1"
    using assms True k h by (auto simp: rtm_HTTPWebsocketHandler_def split: option.splits)
  then show ?thesis
    using HandleWebsocketConnect_outcome [OF h] drops_keys_after [OF inc_metric_core]
      inc_metric_core [of w "mt_httpWebsocket_update Suc"]
    by (cases "wo_conn o1") auto
qed (use assms drops_keys_core [OF core_eq_refl] in
    \<open>auto simp: rtm_HTTPWebsocketHandler_def ws_refuse_def split: if_splits option.splits\<close>)

lemma room_inv_new_conn:
  assumes "room_inv ph w" and "rtm_new_conn now u w = (c, w')" and "ph c = PhNone"
  shows "room_inv (ph(c := PhServing)) w'"
proof (rule room_inv_outside)
  have w': "w_chans w' = w_chans w" "w_tasks w' = w_tasks w" "w_users w' = w_users w" "w_next w' = Suc (w_next w)"
      "\<And>d. d \<noteq> c \<Longrightarrow> w_conns w' d = w_conns w d" "bound_user c w' = Some u"
    and new: "cn_onClosedCallbacks (w_conns w' c) = []" "\<not> cn_closed (w_conns w' c)"
    using assms(2) by (auto simp: rtm_new_conn_def Let_def Bind_def conn_New_def bound_user_def)
  have bound: "bound_user d w' = (if d = c then Some u else bound_user d w)" for d
    using w'(5,6) by (simp add: bound_user_def)
  note D = room_invD [OF assms(1)]
  show "room_inv ph w'"
  proof (rule room_invI)
    show "task_ok w' t" if "t \<in> set (w_tasks w')" for t
      by (rule task_ok_bound [OF D(1)]) (use that in \<open>simp_all add: w' bound\<close>)
    show "cb_ok ph d cb" if "cb \<in> set (cn_onClosedCallbacks (w_conns w' d))" for d cb
      using that D(2) w'(5) new(1) by (cases "d = c") auto
    show "\<not> cn_closed (w_conns w' d)" if "unclosed (ph d)" for d
      using that D(3) w'(5) new(2) by (cases "d = c") auto
    show "member_ok ph w' h uid d" if "channel_member h w' uid = Some d" for h uid d
    proof -
      have m: "member_ok ph w h uid d" using D(4) that by (simp add: channel_member_def w')
      then have "d \<noteq> c" using assms(3) by (auto simp: member_ok_def active_def)
      then show ?thesis using m by (auto simp: member_ok_def known_user_def bound w' split: option.splits)
    qed
  qed
  show "\<not> active (ph c)" by (simp add: assms(3) active_def)
  show "\<not> cn_closed (w_conns w' c)" "ph c \<noteq> PhNone \<or> cn_onClosedCallbacks (w_conns w' c) = []" by (simp_all add: new)
qed simp

lemma server_inv_websocket:
  assumes "server_inv ph w" and "rtm_HTTPWebsocketHandler env meth key up w = (out, w')"
  shows "server_inv (case wo_conn out of None \<Rightarrow> ph | Some c \<Rightarrow> ph(c := PhServing)) w'"
  using websocket_outcome [OF assms(2)]
proof (elim disjE conjE exE)
  assume none: "wo_conn out = None" and "drops_keys w w'"
  then obtain P where eq: "core_eq (upd_rtm (\<lambda>m. m\<lparr>rm_keys := filter P (rm_keys m)\<rparr>) w) w'"
    by (auto simp: drops_keys_def)
  let ?v = "upd_rtm (\<lambda>m. m\<lparr>rm_keys := filter P (rm_keys m)\<rparr>) w"
  have "users_inv ph w" "room_inv ph w" "channel_table_ok w" using assms(1) by (simp_all add: server_inv_def)
  then have "users_inv ph ?v" "room_inv ph ?v" "channel_table_ok ?v"
    by (auto intro: users_inv_del_key [OF _ users_eq_refl] room_inv_frame channel_table_frame
        simp: room_frame_def table_frame_def bound_user_def known_user_def split: option.splits)
  then show ?thesis using server_inv_core [OF _ eq] none by (simp add: server_inv_def)
next
  fix c v
  assume c: "wo_conn out = Some c" and eq: "core_eq w v" and "trades_key v c w'"
  then obtain k kr u a now where key: "gm_get (rm_keys (w_rtm v)) k = Some kr" "kr_user kr = Some u"
    "ur_auth (w_users v u) \<noteq> None"
    and new: "rtm_new_conn now u ((upd_rtm (\<lambda>_. (w_rtm v)\<lparr>rm_keys := gm_del k (rm_keys (w_rtm v))\<rparr>) v)\<lparr>w_admin := a\<rparr>) = (c, w')"
    unfolding trades_key_def by (elim exE conjE)
  let ?x = "(upd_rtm (\<lambda>_. (w_rtm v)\<lparr>rm_keys := gm_del k (rm_keys (w_rtm v))\<rparr>) v)\<lparr>w_admin := a\<rparr>"
  have inv: "users_inv ph v" "room_inv ph v" "channel_table_ok v"
    using server_inv_core [OF assms(1) eq] by (simp_all add: server_inv_def)
  have "c = w_next v" using new by (auto simp: rtm_new_conn_def Let_def)
  then have none: "ph c = PhNone" using users_invD(7) [OF inv(1)] by simp
  have "room_frame ph v ?x" by (auto simp: room_frame_def bound_user_def known_user_def split: option.splits)
  then have "room_inv (ph(c := PhServing)) w'"
    by (rule room_inv_new_conn [OF room_inv_frame [OF inv(2)] new none])
  moreover have "channel_table_ok w'"
    by (rule channel_table_frame [OF inv(3)]) (use new in \<open>auto simp: rtm_new_conn_def Let_def table_frame_def\<close>)
  ultimately show ?thesis
    using users_inv_new_conn [OF inv(1) key new] c by (simp add: server_inv_def)
qed

subsection \<open>Cleanup\<close>

text \<open>A cleaned up channel is closed, and its pipeline, if any, will be.\<close>

definition shut_channel :: "chan_ref \<Rightarrow> world \<Rightarrow> world" where
  "shut_channel h w =
     (let w1 = upd_chan h (\<lambda>ch. ch\<lparr>ch_closed := True, ch_pipeline := None\<rparr>) w
      in case ch_pipeline (w_chans w h) of Some p \<Rightarrow> spawn (TPipelineClose p) w1 | None \<Rightarrow> w1)"

lemma shut_channel_frame [simp]:
  "w_rtm (shut_channel h w) = w_rtm w" "w_mcu (shut_channel h w) = w_mcu w" "w_users (shut_channel h w) = w_users w"
  "w_conns (shut_channel h w) = w_conns w" "w_pipes (shut_channel h w) = w_pipes w" "w_atts (shut_channel h w) = w_atts w"
  "w_next (shut_channel h w) = w_next w"
  "w_chans (shut_channel h w) = (w_chans w)(h := (w_chans w h)\<lparr>ch_closed := True, ch_pipeline := None\<rparr>)"
  by (simp_all add: shut_channel_def Let_def split: option.splits)

lemma shut_channel_tasks: "t \<in> set (w_tasks (shut_channel h w)) \<Longrightarrow> t \<in> set (w_tasks w) \<or> (\<exists>p. t = TPipelineClose p)"
  by (auto simp: shut_channel_def Let_def split: option.splits)

lemma Channel_Cleanup_cases:
  assumes "Channel_Cleanup h w = Some (b, w')"
  shows "(b = False \<and> w' = w) \<or> (b \<and> w' = inc_metric (mt_channelCleanup_update Suc) (shut_channel h w))"
  using assms by (auto simp: Channel_Cleanup_def shut_channel_def Let_def split: if_splits)

lemma room_inv_closed_channel:
  assumes "room_inv ph w"
  shows "room_inv ph (upd_rtm (\<lambda>m. m\<lparr>rm_channels := f m\<rparr>) (inc_metric g (shut_channel h w)))"
    (is "room_inv ph ?w")
proof (rule room_inv_channel [OF assms])
  show "channel_member g w i = Some d \<or> member_ok ph ?w g i d" if "channel_member g ?w i = Some d" for g i d
    using that by (simp add: channel_member_def split: if_splits)
  show "t \<in> set (w_tasks w) \<or> task_ok w t" if "t \<in> set (w_tasks ?w)" for t
    using shut_channel_tasks [of t h w] that by (auto simp: task_ok_def)
qed (use room_invD [OF assms] in \<open>simp_all add: users_eq_def\<close>)

lemma table_closed_channel:
  assumes "channel_table_ok w" and "(k, rec) \<in> set (rm_channels (w_rtm w))"
  shows "channel_table_ok (upd_rtm (\<lambda>m. m\<lparr>rm_channels := gm_del k (rm_channels m)\<rparr>)
    (inc_metric g (shut_channel (cr_channel rec) w)))"
proof -
  have id: "ch_id (w_chans w (cr_channel r)) = k'" if "(k', r) \<in> set (rm_channels (w_rtm w))" for k' r
    using assms(1) that by (auto simp: channel_table_ok_def chan_named_def)
  have "cr_channel r \<noteq> cr_channel rec" if "(k', r) \<in> set (rm_channels (w_rtm w))" "k' \<noteq> k" for k' r
    using id [OF that(1)] id [OF assms(2)] that(2) by auto
  with assms(1) show ?thesis
    by (fastforce simp: channel_table_ok_def gm_del_filter gm_wf_def distinct_map_filter)
qed

lemma cleanup_all_inv:
  assumes "room_inv ph w" and "channel_table_ok w" and "set es \<subseteq> set (rm_channels (w_rtm w))" and "distinct (map fst es)"
  shows "room_inv ph (snd (cleanup_all es w)) \<and> channel_table_ok (snd (cleanup_all es w))"
  using assms
proof (induction es arbitrary: w)
  case (Cons e es)
  let ?h = "cr_channel (snd e)"
  show ?case
  proof (cases "Channel_Cleanup ?h w")
    case (Some bw)
    obtain b w1 where bw: "bw = (b, w1)" by (cases bw)
    have e: "(fst e, snd e) \<in> set (rm_channels (w_rtm w))" using Cons.prems(3) by simp
    define v where "v = (if b then upd_rtm (\<lambda>m. m\<lparr>rm_channels := gm_del (fst e) (rm_channels m)\<rparr>) w1 else w1)"
    have run: "cleanup_all (e # es) w = cleanup_all es v" using Some bw by (cases b) (simp_all add: v_def)
    have cases: "(b = False \<and> w1 = w) \<or>
        (b \<and> w1 = inc_metric (mt_channelCleanup_update Suc) (shut_channel ?h w))"
      by (rule Channel_Cleanup_cases) (use Some bw in simp)
    have "room_inv ph v" "channel_table_ok v"
      using cases Cons.prems(1,2) room_inv_closed_channel [OF Cons.prems(1)] table_closed_channel [OF Cons.prems(2) e]
      by (auto simp: v_def)
    moreover have "set es \<subseteq> set (rm_channels (w_rtm v))"
    proof
      fix x assume x: "x \<in> set es"
      then have "x \<in> set (rm_channels (w_rtm w))" "fst x \<noteq> fst e" using Cons.prems(3,4) by (auto simp: image_iff)
      then show "x \<in> set (rm_channels (w_rtm v))" using cases by (auto simp: v_def gm_del_filter)
    qed
    ultimately show ?thesis unfolding run using Cons.prems(4) by (intro Cons.IH) simp_all
  qed (use Cons.prems in simp)
qed simp

lemma collect_empty_sub: "collect_empty d w es = Some l \<Longrightarrow> set l \<subseteq> set es \<and> (distinct (map fst es) \<longrightarrow> distinct (map fst l))"
proof (induction es arbitrary: l)
  case (Cons e es)
  then show ?case by (fastforce split: option.splits if_splits)
qed simp

lemma purgeEmptyChannels_inv:
  assumes "room_inv ph w" and "channel_table_ok w"
  shows "room_inv ph (snd (purgeEmptyChannels now w)) \<and> channel_table_ok (snd (purgeEmptyChannels now w))"
proof (cases "collect_empty (now - channelExpiration) w (rm_channels (w_rtm w))")
  case (Some l)
  have "distinct (map fst (rm_channels (w_rtm w)))" using assms(2) by (simp add: channel_table_ok_def gm_wf_def)
  with collect_empty_sub [OF Some] have "set l \<subseteq> set (rm_channels (w_rtm w))" "distinct (map fst l)" by auto
  from cleanup_all_inv [OF assms this] Some show ?thesis by (simp add: purgeEmptyChannels_def)
qed (use assms in \<open>simp add: purgeEmptyChannels_def\<close>)

lemma server_inv_cleanup:
  assumes "server_inv ph w" and "cleanup_tick now w = (r, w')"
  shows "server_inv ph w'"
proof -
  let ?v = "upd_rtm (purgeExpiredKeys now) w"
  have inv: "users_inv ph w" "room_inv ph w" "channel_table_ok w" using assms(1) by (simp_all add: server_inv_def)
  have "room_frame ph w ?v" "table_frame w ?v"
    by (auto simp: purgeExpiredKeys_def Let_def room_frame_def table_frame_def bound_user_def known_user_def split: option.splits)
  then have v: "room_inv ph ?v" "channel_table_ok ?v"
    using room_inv_frame [OF inv(2)] channel_table_frame [OF inv(3)] by auto
  obtain x y where xy: "purgeEmptyChannels now ?v = (x, y)" by (cases "purgeEmptyChannels now ?v")
  have y: "room_inv ph y" "channel_table_ok y" using purgeEmptyChannels_inv [OF v, of now] xy by auto
  have "room_frame ph y (purgeInactiveUsers now y)" "table_frame y (purgeInactiveUsers now y)"
    by (auto simp: purgeInactiveUsers_def Let_def room_frame_def table_frame_def bound_user_def known_user_def split: option.splits)
  then have "room_inv ph w'" "channel_table_ok w'"
    using assms(2) xy y room_inv_frame [OF y(1)] channel_table_frame [OF y(2)]
    by (auto simp: cleanup_tick_def split: handler_result.splits)
  then show ?thesis using users_inv_cleanup [OF inv(1) assms(2)] by (simp add: server_inv_def)
qed

end
