(* ===== verification/Mcu_Inv.thy ===== *)
theory Mcu_Inv
  imports Steps
begin

text \<open>
  The MCU side of the running server: an invariant ties pipelines, attach records, timers and the
  connections of the MCU to the channels they serve. It is kept by every operation of the MCU manager
  and of the pipelines, each of which also keeps the invariant of the server, because it changes only
  connections that are not clients'.
\<close>

section \<open>Steps aside of the clients\<close>

definition aside :: "(conn_ref \<Rightarrow> phase) \<Rightarrow> world \<Rightarrow> world \<Rightarrow> bool" where
  "aside ph w w' \<longleftrightarrow> w_rtm w' = w_rtm w \<and> w_users w' = w_users w \<and> w_chans w' = w_chans w \<and> w_next w \<le> w_next w' \<and>
     (\<forall>t \<in> set (w_tasks w'). t \<in> set (w_tasks w) \<or> plain_task t) \<and>
     (\<forall>c. ph c \<noteq> PhNone \<longrightarrow> cn_binder (w_conns w' c) = cn_binder (w_conns w c) \<and>
        cn_onClosedCallbacks (w_conns w' c) = cn_onClosedCallbacks (w_conns w c) \<and>
        cn_closed (w_conns w' c) = cn_closed (w_conns w c)) \<and>
     (\<forall>c < w_next w. bound_user c w' = bound_user c w) \<and>
     (\<forall>c. ph c = PhNone \<longrightarrow> (\<forall>cb \<in> set (cn_onClosedCallbacks (w_conns w' c)).
        cb \<in> set (cn_onClosedCallbacks (w_conns w c)) \<or> cb_ok ph c cb))"

lemma server_inv_aside:
  assumes "server_inv ph w" and "aside ph w w'"
  shows "server_inv ph w'"
proof -
  have inv: "users_inv ph w" "room_inv ph w" "channel_table_ok w" using assms(1) by (simp_all add: server_inv_def)
  have "users_eq_on ph w w'" using assms(2) by (simp add: aside_def users_eq_on_def)
  moreover have "table_frame w w'" using assms(2) by (simp add: aside_def table_frame_def)
  moreover have "known_user w c uid \<Longrightarrow> known_user w' c uid" for c uid
    using assms(2) by (auto simp: aside_def known_user_def split: option.splits)
  then have "room_frame ph w w'" using assms(2) unfolding aside_def room_frame_def by simp
  ultimately show ?thesis
    using inv users_inv_frame_on room_inv_frame channel_table_frame by (auto simp: server_inv_def)
qed

section \<open>The MCU invariant\<close>

text \<open>A pipeline that has its handlers; the channel whose pipeline it is, until the channel is cleaned up.\<close>

definition pipe_ok :: "world \<Rightarrow> pipe_ref \<Rightarrow> bool" where
  "pipe_ok w p \<longleftrightarrow> pl_handlers (w_pipes w p) \<noteq> None"

definition pipe_of :: "world \<Rightarrow> pipe_ref \<Rightarrow> chan_ref \<Rightarrow> bool" where
  "pipe_of w p h \<longleftrightarrow> p < w_next w \<and> h < w_next w \<and>
     (ch_pipeline (w_chans w h) = Some p \<or> ch_closed (w_chans w h))"

definition mcu_task_ok :: "world \<Rightarrow> task \<Rightarrow> bool" where
  "mcu_task_ok w t \<longleftrightarrow>
     (case t of
        TPipelineConnect p h \<Rightarrow> pipe_of w p h
      | TPipelineReconnect p \<Rightarrow> pipe_ok w p
      | TPipelineWatch p \<Rightarrow> pipe_ok w p
      | TReconnectTimer p \<Rightarrow> pipe_ok w p
      | TWatchTimer p \<Rightarrow> pipe_ok w p
      | _ \<Rightarrow> True)"

definition armed :: "world \<Rightarrow> att_ref \<Rightarrow> pipe_ref \<Rightarrow> bool" where
  "armed w a p \<longleftrightarrow> ar_onConnect (w_atts w a) = Some p \<or> ar_onText (w_atts w a) = Some p"

text \<open>The list of the control connections: those that are served, each once.\<close>

definition ring_ok :: "(conn_ref \<Rightarrow> phase) \<Rightarrow> world \<Rightarrow> bool" where
  "ring_ok m w \<longleftrightarrow> distinct (mm_connections (w_mcu w)) \<and>
     (\<forall>c. c \<in> set (mm_connections (w_mcu w)) \<longleftrightarrow> live (m c) \<and> mcu_control c w)"

lemma ring_ok_frame:
  assumes "ring_ok m w" and "mm_connections (w_mcu w') = mm_connections (w_mcu w)"
    and "\<And>c. m c \<noteq> PhNone \<Longrightarrow> cn_binder (w_conns w' c) = cn_binder (w_conns w c)"
  shows "ring_ok m w'"
proof -
  have "live (m c) \<and> mcu_control c w' \<longleftrightarrow> live (m c) \<and> mcu_control c w" for c
    using assms(3) [of c] by (cases "m c = PhNone") (auto simp: mcu_control_def live_def)
  with assms(1,2) show ?thesis by (simp add: ring_ok_def)
qed

definition mcu_inv :: "(conn_ref \<Rightarrow> phase) \<Rightarrow> (conn_ref \<Rightarrow> phase) \<Rightarrow> world \<Rightarrow> bool" where
  "mcu_inv m ph w \<longleftrightarrow>
     (\<forall>p h. pl_handlers (w_pipes w p) = Some h \<longrightarrow> pipe_of w p h) \<and>
     (\<forall>p c. pl_connection (w_pipes w p) = Some c \<longrightarrow> ph c = PhNone \<and> c < w_next w) \<and>
     (\<forall>a p. armed w a p \<longrightarrow> pipe_ok w p) \<and>
     (\<forall>t \<in> set (w_tasks w). mcu_task_ok w t) \<and>
     (\<forall>c p. CbPipelineClosed p \<in> set (cn_onClosedCallbacks (w_conns w c)) \<longrightarrow> pipe_ok w p) \<and>
     (\<forall>c. m c \<noteq> PhNone \<longrightarrow> ph c = PhNone \<and> c < w_next w \<and> bound_user c w = None) \<and>
     (\<forall>h. ch_closed (w_chans w h) \<longrightarrow> ch_connections (w_chans w h) = []) \<and> ring_ok m w"

lemma mcu_invI:
  assumes "\<And>p h. pl_handlers (w_pipes w p) = Some h \<Longrightarrow> pipe_of w p h"
    and "\<And>p c. pl_connection (w_pipes w p) = Some c \<Longrightarrow> ph c = PhNone \<and> c < w_next w"
    and "\<And>a p. armed w a p \<Longrightarrow> pipe_ok w p"
    and "\<And>t. t \<in> set (w_tasks w) \<Longrightarrow> mcu_task_ok w t"
    and "\<And>c p. CbPipelineClosed p \<in> set (cn_onClosedCallbacks (w_conns w c)) \<Longrightarrow> pipe_ok w p"
    and "\<And>c. m c \<noteq> PhNone \<Longrightarrow> ph c = PhNone \<and> c < w_next w \<and> bound_user c w = None"
    and "\<And>h. ch_closed (w_chans w h) \<Longrightarrow> ch_connections (w_chans w h) = []" and "ring_ok m w"
  shows "mcu_inv m ph w"
  unfolding mcu_inv_def using assms by blast

lemma mcu_invD:
  assumes "mcu_inv m ph w"
  shows "pl_handlers (w_pipes w p) = Some h \<Longrightarrow> pipe_of w p h"
    and "pl_connection (w_pipes w p) = Some c \<Longrightarrow> ph c = PhNone \<and> c < w_next w"
    and "armed w a p \<Longrightarrow> pipe_ok w p"
    and "t \<in> set (w_tasks w) \<Longrightarrow> mcu_task_ok w t"
    and "CbPipelineClosed p \<in> set (cn_onClosedCallbacks (w_conns w c)) \<Longrightarrow> pipe_ok w p"
    and "m c \<noteq> PhNone \<Longrightarrow> ph c = PhNone \<and> c < w_next w \<and> bound_user c w = None"
    and "ch_closed (w_chans w h) \<Longrightarrow> ch_connections (w_chans w h) = []" and "ring_ok m w"
  using assms unfolding mcu_inv_def by blast+

definition full_inv :: "(conn_ref \<Rightarrow> phase) \<Rightarrow> (conn_ref \<Rightarrow> phase) \<Rightarrow> world \<Rightarrow> bool" where
  "full_inv m ph w \<longleftrightarrow> server_inv ph w \<and> mcu_inv m ph w"

subsection \<open>Elementary changes\<close>

text \<open>What a change of the MCU side has to respect; everything it refers to stays connected.\<close>

lemma full_change:
  assumes "full_inv m ph w" and "aside ph w w'"
    and "\<And>p h. pl_handlers (w_pipes w' p) = Some h \<Longrightarrow> pl_handlers (w_pipes w p) = Some h \<or> pipe_of w p h"
    and "\<And>p. pipe_ok w p \<Longrightarrow> pipe_ok w' p"
    and "\<And>p c. pl_connection (w_pipes w' p) = Some c \<Longrightarrow>
      pl_connection (w_pipes w p) = Some c \<or> ph c = PhNone \<and> c < w_next w"
    and "\<And>a p. armed w' a p \<Longrightarrow> armed w a p \<or> pipe_ok w p"
    and "\<And>t. t \<in> set (w_tasks w') \<Longrightarrow> t \<in> set (w_tasks w) \<or> mcu_task_ok w t"
    and "\<And>c p. CbPipelineClosed p \<in> set (cn_onClosedCallbacks (w_conns w' c)) \<Longrightarrow>
      CbPipelineClosed p \<in> set (cn_onClosedCallbacks (w_conns w c)) \<or> pipe_ok w p"
    and "mm_connections (w_mcu w') = mm_connections (w_mcu w)"
    and "\<And>c. m c \<noteq> PhNone \<Longrightarrow> cn_binder (w_conns w' c) = cn_binder (w_conns w c)"
  shows "full_inv m ph w'"
proof -
  have inv: "server_inv ph w" "mcu_inv m ph w" using assms(1) by (simp_all add: full_inv_def)
  note D = mcu_invD [OF inv(2)]
  have eq: "w_chans w' = w_chans w" "w_next w \<le> w_next w'" "\<And>c. c < w_next w \<Longrightarrow> bound_user c w' = bound_user c w"
    using assms(2) by (simp_all add: aside_def)
  have pof: "pipe_of w p h \<Longrightarrow> pipe_of w' p h" for p h using eq by (auto simp: pipe_of_def)
  have task: "mcu_task_ok w t \<Longrightarrow> mcu_task_ok w' t" for t
    using pof assms(4) by (auto simp: mcu_task_ok_def split: task.splits)
  have "mcu_inv m ph w'"
  proof (rule mcu_invI)
    show "pipe_of w' p h" if "pl_handlers (w_pipes w' p) = Some h" for p h using assms(3) [OF that] D(1) pof by blast
    show "ph c = PhNone \<and> c < w_next w'" if "pl_connection (w_pipes w' p) = Some c" for p c
      using assms(5) [OF that] D(2) eq(2) by (meson less_le_trans)
    show "pipe_ok w' p" if "armed w' a p" for a p using assms(6) [OF that] D(3) assms(4) by blast
    show "mcu_task_ok w' t" if "t \<in> set (w_tasks w')" for t using assms(7) [OF that] D(4) task by blast
    show "pipe_ok w' p" if "CbPipelineClosed p \<in> set (cn_onClosedCallbacks (w_conns w' c))" for c p
      using assms(8) [OF that] D(5) assms(4) by blast
    show "ph c = PhNone \<and> c < w_next w' \<and> bound_user c w' = None" if "m c \<noteq> PhNone" for c
      using D(6) [OF that] eq(2,3) by auto
    show "ch_connections (w_chans w' h) = []" if "ch_closed (w_chans w' h)" for h using that D(7) eq(1) by simp
    show "ring_ok m w'" by (rule ring_ok_frame [OF D(8) assms(9,10)])
  qed
  with server_inv_aside [OF inv(1) assms(2)] show ?thesis by (simp add: full_inv_def)
qed

lemma armed_eq: "w_atts w' = w_atts w \<Longrightarrow> armed w' = armed w"
  by (simp add: armed_def fun_eq_iff)

lemma pipe_ok_eq: "w_pipes w' = w_pipes w \<Longrightarrow> pipe_ok w' = pipe_ok w"
  by (simp add: pipe_ok_def fun_eq_iff)

text \<open>The pipeline keeps its handlers, or gets those of its channel; its connection goes or is one of the MCU.\<close>

lemma full_pipe:
  assumes "full_inv m ph w"
    and "pl_handlers (f (w_pipes w p)) = pl_handlers (w_pipes w p) \<or> (\<exists>h. pl_handlers (f (w_pipes w p)) = Some h \<and> pipe_of w p h)"
    and "pl_connection (f (w_pipes w p)) \<in> {None, pl_connection (w_pipes w p)} \<or>
      (\<exists>c. pl_connection (f (w_pipes w p)) = Some c \<and> ph c = PhNone \<and> c < w_next w)"
  shows "full_inv m ph (upd_pipe p f w)"
proof (rule full_change [OF assms(1)])
  show "aside ph w (upd_pipe p f w)" by (simp add: aside_def bound_user_def)
  show "pl_handlers (w_pipes w q) = Some h \<or> pipe_of w q h" if "pl_handlers (w_pipes (upd_pipe p f w) q) = Some h" for q h
    using that assms(2) by (auto split: if_splits)
  show "pl_connection (w_pipes w q) = Some c \<or> ph c = PhNone \<and> c < w_next w"
    if "pl_connection (w_pipes (upd_pipe p f w) q) = Some c" for q c
    using that assms(3) by (auto split: if_splits)
  show "pipe_ok w q \<Longrightarrow> pipe_ok (upd_pipe p f w) q" for q
    using assms(2) by (auto simp: pipe_ok_def)
qed (simp_all add: armed_def)

lemma full_spawn:
  assumes "full_inv m ph w" and "plain_task t" and "mcu_task_ok w t"
  shows "full_inv m ph (spawn t w)"
  by (rule full_change [OF assms(1)])
    (use assms in \<open>auto simp: aside_def bound_user_def armed_def pipe_ok_def\<close>)

lemma full_stop_timer:
  assumes "full_inv m ph w"
  shows "full_inv m ph (stop_timer t w)"
  by (rule full_change [OF assms])
    (auto simp: aside_def bound_user_def armed_def pipe_ok_def stop_timer_def)

lemma full_upd_mcu:
  assumes "full_inv m ph w" and "mm_connections (f (w_mcu w)) = mm_connections (w_mcu w)"
  shows "full_inv m ph (upd_mcu f w)"
  by (rule full_change [OF assms(1)]) (simp_all add: aside_def bound_user_def armed_def pipe_ok_def assms(2))

lemma full_next:
  assumes "full_inv m ph w"
  shows "full_inv m ph (w\<lparr>w_next := Suc (w_next w)\<rparr>)"
  by (rule full_change [OF assms]) (simp_all add: aside_def bound_user_def armed_def pipe_ok_def)

lemma full_att:
  assumes "full_inv m ph w"
    and "\<And>q. armed (upd_att a f w) a q \<Longrightarrow> armed w a q \<or> pipe_ok w q"
  shows "full_inv m ph (upd_att a f w)"
proof (rule full_change [OF assms(1)])
  show "armed w b q \<or> pipe_ok w q" if "armed (upd_att a f w) b q" for b q
    using that assms(2) by (cases "b = a") (auto simp: armed_def)
qed (simp_all add: aside_def bound_user_def pipe_ok_def)

lemma full_core:
  assumes "full_inv m ph w" and "core_eq w w'" and "w_rtm w' = w_rtm w"
  shows "full_inv m ph w'"
  by (rule full_change [OF assms(1)])
    (use assms(2,3) in \<open>simp_all add: core_eq_def aside_def bound_user_def armed_def pipe_ok_def\<close>)

text \<open>A connection that is not a client's is changed, but not bound to a user.\<close>

lemma full_conn:
  assumes "full_inv m ph w" and "ph c = PhNone" and "bound_user c (upd_conn c f w) = bound_user c w"
    and "m c \<noteq> PhNone \<Longrightarrow> cn_binder (f (w_conns w c)) = cn_binder (w_conns w c)"
    and "\<And>cb. cb \<in> set (cn_onClosedCallbacks (f (w_conns w c))) \<Longrightarrow>
      cb \<in> set (cn_onClosedCallbacks (w_conns w c)) \<or> cb_ok ph c cb \<and> (\<forall>p. cb = CbPipelineClosed p \<longrightarrow> pipe_ok w p)"
  shows "full_inv m ph (upd_conn c f w)"
proof (rule full_change [OF assms(1)])
  show "aside ph w (upd_conn c f w)"
    using assms(2,3,5) by (auto simp: aside_def bound_user_def)
  show "CbPipelineClosed p \<in> set (cn_onClosedCallbacks (w_conns w d)) \<or> pipe_ok w p"
    if "CbPipelineClosed p \<in> set (cn_onClosedCallbacks (w_conns (upd_conn c f w) d))" for d p
    using that assms(5) by (auto split: if_splits)
qed (use assms(4) in \<open>auto simp: armed_def pipe_ok_def\<close>)

section \<open>Operations of pipelines and of the MCU manager\<close>

lemma plain_task_simps [simp]:
  "plain_task (TPipelineConnect p h)" "plain_task (TPipelineClose p)" "plain_task (TPipelineReconnect p)"
  "plain_task (TPipelineWatch p)" "plain_task (TReconnectTimer p)" "plain_task (TWatchTimer p)"
  "plain_task (TAfterAddOrRemove h op uid)" "plain_task (TAfterReset h)"
  by (simp_all add: plain_task_def)

lemma mcu_task_ok_simps [simp]:
  "mcu_task_ok w (TPipelineConnect p h) = pipe_of w p h" "mcu_task_ok w (TPipelineClose p)"
  "mcu_task_ok w (TPipelineReconnect p) = pipe_ok w p" "mcu_task_ok w (TPipelineWatch p) = pipe_ok w p"
  "mcu_task_ok w (TReconnectTimer p) = pipe_ok w p" "mcu_task_ok w (TWatchTimer p) = pipe_ok w p"
  "mcu_task_ok w (TAfterAddOrRemove h op uid)" "mcu_task_ok w (TAfterReset h)" "mcu_task_ok w (TEmitChats c h op uid)"
  by (simp_all add: mcu_task_ok_def)

text \<open>A pipeline with handlers stays one; the operations below set handlers but never drop them.\<close>

lemma pipe_ok_simps [simp]:
  "pipe_ok (spawn t w) = pipe_ok w" "pipe_ok (stop_timer t w) = pipe_ok w" "pipe_ok (upd_mcu g w) = pipe_ok w"
  "pipe_ok (upd_att a k w) = pipe_ok w" "pipe_ok (upd_conn c j w) = pipe_ok w" "pipe_ok (w\<lparr>w_next := n\<rparr>) = pipe_ok w"
  "pipe_ok (snd (w_send c x w)) = pipe_ok w"
  by (simp_all add: pipe_ok_def fun_eq_iff)

lemma pipe_ok_upd_pipe: "pl_handlers (f (w_pipes w p)) = pl_handlers (w_pipes w p) \<Longrightarrow> pipe_ok (upd_pipe p f w) = pipe_ok w"
  by (auto simp: pipe_ok_def fun_eq_iff)

lemma full_send: "full_inv m ph w \<Longrightarrow> full_inv m ph (snd (w_send c x w))"
  by (rule full_core [OF _ core_send]) simp_all

lemma full_watch:
  assumes "full_inv m ph w" and "pipe_ok w p"
  shows "full_inv m ph (pipeline_watch p w)"
  using assms by (auto simp: pipeline_watch_def Let_def pipe_ok_upd_pipe intro!: full_spawn full_pipe full_stop_timer)

lemma full_watch_timer:
  assumes "full_inv m ph w" and "pipe_ok w p"
  shows "full_inv m ph (watch_timer p w)"
  using assms by (auto simp: watch_timer_def Let_def pipe_ok_upd_pipe intro!: full_spawn full_pipe)

lemma full_reconnect:
  assumes "full_inv m ph w" and "pipe_ok w p"
  shows "full_inv m ph (pipeline_reconnect p w)"
  using assms by (auto simp: pipeline_reconnect_def Let_def pipe_ok_upd_pipe intro!: full_spawn full_pipe full_stop_timer)

lemma full_onReset:
  assumes "full_inv m ph w"
  shows "full_inv m ph (pipeline_onReset p w)"
  using assms by (auto simp: pipeline_onReset_def split: option.splits intro!: full_spawn)

lemma GetConnection_ring: "GetConnection mm = (c, mm') \<Longrightarrow> mm_connections mm' = mm_connections mm"
  using GetConnection_keeps(1) [of mm] by simp

lemma full_Attach:
  assumes "full_inv m ph w" and "pipe_ok w p" and "Attach env plugin handle p w = (r, w')"
  shows "full_inv m ph w' \<and> pipe_ok w' = pipe_ok w \<and> w_pipes w' = w_pipes w"
proof (cases "GetConnection (w_mcu w)")
  case (Pair c mm)
  show ?thesis
  proof (cases c)
    case None
    then show ?thesis using Pair assms GetConnection_ring [OF Pair] by (auto simp: Attach_def intro!: full_upd_mcu)
  next
    case (Some k)
    define v where "v = upd_mcu (\<lambda>_. mm\<lparr>mm_attached := gm_set (en_rnd env) (w_next w) (mm_attached mm)\<rparr>)
      (upd_att (w_next w) (\<lambda>_. \<lparr>ar_when = en_now env, ar_connection = None, ar_onConnect = Some p, ar_onText = Some p\<rparr>)
        (w\<lparr>w_next := Suc (w_next w)\<rparr>))"
    have v: "full_inv m ph v" "pipe_ok v = pipe_ok w" "w_pipes v = w_pipes w"
      unfolding v_def using assms(1,2) GetConnection_ring [OF Pair] by (auto intro!: full_upd_mcu full_att full_next simp: armed_def)
    have "\<exists>x. w' = snd (w_send k x v)"
      using assms(3) Pair Some by (auto simp: Attach_def Let_def v_def split: prod.splits option.splits)
        (metis snd_conv)+
    then show ?thesis using full_send [OF v(1)] v(2,3) by auto
  qed
qed

lemma full_reconnect_timer:
  assumes "full_inv m ph w" and "pipe_ok w p"
  shows "full_inv m ph (reconnect_timer env p w)"
proof -
  define v where "v = upd_pipe p (\<lambda>x. x\<lparr>pl_reconnector := False\<rparr>) w"
  have v: "full_inv m ph v" "pipe_ok v p"
    unfolding v_def using assms by (auto simp: pipe_ok_upd_pipe intro!: full_pipe)
  obtain r v1 where at: "Attach env (pl_plugin (w_pipes v p)) (pl_handle (w_pipes v p)) p v = (r, v1)"
    by (cases "Attach env (pl_plugin (w_pipes v p)) (pl_handle (w_pipes v p)) p v")
  define v2 where "v2 = upd_pipe p (\<lambda>x. x\<lparr>pl_connecting := False\<rparr>) v1"
  note a = full_Attach [OF v at]
  have v2: "full_inv m ph v2" "pipe_ok v2 p" unfolding v2_def using a v(2) by (auto simp: pipe_ok_upd_pipe intro!: full_pipe)
  have v3: "full_inv m ph (pipeline_onReset p v2)" "pipe_ok (pipeline_onReset p v2) p"
    using v2 full_onReset by (auto simp: pipeline_onReset_def split: option.splits)
  show ?thesis
    using v v2 v3 at unfolding reconnect_timer_def Let_def v_def [symmetric]
    by (auto simp: v2_def [symmetric] split: sum.splits intro!: full_spawn full_stop_timer)
qed

lemma full_Connect:
  assumes "full_inv m ph w" and "pipe_of w p h" and "pipeline_Connect env p h w = (r, w')"
  shows "full_inv m ph w' \<and> r \<noteq> HPanic"
proof (cases "pl_closed (w_pipes w p)")
  case True
  then show ?thesis using assms by (auto simp: pipeline_Connect_def)
next
  case False
  define v where "v = upd_pipe p (\<lambda>x. x\<lparr>pl_handlers := Some h\<rparr>) w"
  have v: "full_inv m ph v" "pipe_ok v p"
    unfolding v_def using assms by (auto simp: pipe_ok_def intro!: full_pipe)
  obtain x v1 where at: "Attach env (pl_plugin (w_pipes v p)) (pl_handle (w_pipes v p)) p v = (x, v1)"
    by (cases "Attach env (pl_plugin (w_pipes v p)) (pl_handle (w_pipes v p)) p v")
  note a = full_Attach [OF v at]
  have "full_inv m ph (spawn (TPipelineWatch p) v1)" "full_inv m ph (spawn (TPipelineWatch p) (spawn (TPipelineReconnect p) v1))"
    using a v(2) by (auto intro!: full_spawn)
  then show ?thesis
    using assms(3) False at unfolding pipeline_Connect_def Let_def v_def [symmetric] by (auto split: sum.splits)
qed

subsection \<open>Closing\<close>

lemma full_onClosed:
  assumes "full_inv m ph w" and "pipe_ok w p"
  shows "full_inv m ph (pipeline_onClosed p c w)" and "pipe_ok (pipeline_onClosed p c w) = pipe_ok w"
  using assms by (auto simp: pipeline_onClosed_def Let_def pipe_ok_upd_pipe intro!: full_spawn full_pipe)

text \<open>The callbacks of a connection of the MCU never wait.\<close>

lemma full_closed_cbs:
  assumes "full_inv m ph w" and "ph c = PhNone" and "\<forall>cb \<in> set cbs. cb_ok ph c cb"
    and "\<forall>p. CbPipelineClosed p \<in> set cbs \<longrightarrow> pipe_ok w p"
    and "run_closed_cbs c cbs w = (r, w')"
  shows "r = HNil \<and> full_inv m ph w'"
  using assms
proof (induction cbs arbitrary: w)
  case (Cons cb cbs)
  show ?case
  proof (cases cb)
    case (CbChannelRemove h uid d)
    then show ?thesis using Cons.prems by simp
  next
    case (CbPipelineClosed p)
    then have "pipe_ok w p" using Cons.prems(4) by simp
    note cl = full_onClosed [OF Cons.prems(1) this, of c]
    show ?thesis
      by (rule Cons.IH [OF cl(1)]) (use Cons.prems CbPipelineClosed cl(2) in \<open>simp_all add: run_closed_cb_def\<close>)
  next
    case (CbAttachedClosed a)
    have "full_inv m ph (upd_att a (\<lambda>r. r\<lparr>ar_connection := None\<rparr>) w)"
      using Cons.prems(1) by (rule full_att) (simp add: armed_def)
    then show ?thesis
      by (rule Cons.IH) (use Cons.prems CbAttachedClosed in \<open>simp_all add: run_closed_cb_def\<close>)
  qed
qed simp

lemma full_close_conn:
  assumes "full_inv m ph w" and "ph c = PhNone" and "close_conn now c w = (r, w')"
  shows "r = HNil \<and> full_inv m ph w'"
proof -
  obtain cbs conn where cl: "conn_Close now (w_conns w c) = (cbs, conn)" by (cases "conn_Close now (w_conns w c)")
  have conn: "cn_binder conn = cn_binder (w_conns w c)"
      "set (cn_onClosedCallbacks conn) \<subseteq> set (cn_onClosedCallbacks (w_conns w c))"
      "set cbs \<subseteq> set (cn_onClosedCallbacks (w_conns w c))"
    using cl by (auto simp: conn_Close_def split: if_splits)
  have inv: "room_inv ph w" "mcu_inv m ph w" using assms(1) by (simp_all add: full_inv_def server_inv_def)
  have "full_inv m ph (upd_conn c (\<lambda>_. conn) w)"
    using assms(1,2) by (rule full_conn) (use conn in \<open>auto simp: bound_user_def\<close>)
  then show ?thesis
    by (rule full_closed_cbs [where cbs = cbs and c = c])
      (use assms(2) conn(3) room_invD(2) [OF inv(1)] mcu_invD(5) [OF inv(2)] assms(3) cl in \<open>auto simp: close_conn_def\<close>)
qed

lemma full_Detach: "full_inv m ph w \<Longrightarrow> full_inv m ph (snd (Detach plugin handle w))"
  by (auto simp: Detach_def GetConnection_ring split: prod.splits option.splits intro!: full_send full_upd_mcu)

lemma full_Close:
  assumes "full_inv m ph w" and "pipeline_Close env p w = (r, w')"
  shows "full_inv m ph w' \<and> r \<noteq> HPanic"
proof -
  let ?pl = "w_pipes w p"
  define v where "v = upd_pipe p (\<lambda>x. x\<lparr>pl_connection := None, pl_closed := True, pl_reconnector := False, pl_watcher := False\<rparr>) w"
  define v2 where "v2 = (if pl_reconnector ?pl then stop_timer (TReconnectTimer p) v else v)"
  define v3 where "v3 = (if pl_watcher ?pl then stop_timer (TWatchTimer p) v2 else v2)"
  have v3: "full_inv m ph v3"
    unfolding v3_def v2_def v_def using assms(1) by (auto intro!: full_stop_timer full_pipe)
  have run: "(r, w') = (case pl_connection ?pl of None \<Rightarrow> (HNil, v3)
      | Some c \<Rightarrow> close_conn (en_now env) c (snd (Detach (pl_plugin ?pl) (pl_handle ?pl) v3)))"
    using assms(2) unfolding pipeline_Close_def Let_def v_def [symmetric] v2_def [symmetric] v3_def [symmetric] by simp
  show ?thesis
  proof (cases "pl_connection ?pl")
    case None
    then show ?thesis using run v3 by simp
  next
    case (Some c)
    have "ph c = PhNone" using mcu_invD(2) [of m ph w p c] assms(1) Some by (simp add: full_inv_def)
    moreover have "close_conn (en_now env) c (snd (Detach (pl_plugin ?pl) (pl_handle ?pl) v3)) = (r, w')" using run Some by simp
    ultimately have "r = HNil \<and> full_inv m ph w'" by (rule full_close_conn [OF full_Detach [OF v3]])
    then show ?thesis by simp
  qed
qed

subsection \<open>Websocket requests and texts of the MCU\<close>

lemma full_phase:
  assumes "full_inv m ph w" and "p \<noteq> PhNone \<Longrightarrow> ph c = PhNone \<and> c < w_next w \<and> bound_user c w = None"
    and "live p = live (m c)"
  shows "full_inv (m(c := p)) ph w"
proof -
  have "ring_ok m w" using assms(1) by (simp add: full_inv_def mcu_inv_def)
  then have "ring_ok (m(c := p)) w" using assms(3) by (auto simp: ring_ok_def)
  then show ?thesis using assms(1,2) by (auto simp: full_inv_def mcu_inv_def)
qed

lemma full_mcu_moves:
  assumes "full_inv m ph w" and "live (m c)" and "live p"
  shows "full_inv (m(c := p)) ph w"
proof (rule full_phase [OF assms(1)])
  have "m c \<noteq> PhNone" using assms(2) by (auto simp: live_def)
  then show "ph c = PhNone \<and> c < w_next w \<and> bound_user c w = None"
    using mcu_invD(6) [of m ph w c] assms(1) by (simp add: full_inv_def)
qed (simp add: assms(2,3))

text \<open>A control connection enters the list when it is served and leaves it afterwards.\<close>

lemma full_listed:
  assumes "full_inv m ph w" and "m c \<noteq> PhNone" and "p \<noteq> PhNone" and "aside ph w w'"
    and "w_pipes w' = w_pipes w" and "w_atts w' = w_atts w" and "w_tasks w' = w_tasks w" and "w_conns w' = w_conns w"
    and "ring_ok (m(c := p)) w'"
  shows "full_inv (m(c := p)) ph w'"
proof -
  have inv: "server_inv ph w" "mcu_inv m ph w" using assms(1) by (simp_all add: full_inv_def)
  note D = mcu_invD [OF inv(2)]
  have eq: "w_chans w' = w_chans w" "w_next w \<le> w_next w'" using assms(4) by (simp_all add: aside_def)
  have pof: "pipe_of w q h \<Longrightarrow> pipe_of w' q h" for q h using eq by (auto simp: pipe_of_def)
  have ok: "pipe_ok w' = pipe_ok w" by (rule pipe_ok_eq [OF assms(5)])
  have "mcu_inv (m(c := p)) ph w'"
  proof (rule mcu_invI)
    show "mcu_task_ok w' t" if "t \<in> set (w_tasks w')" for t
    proof -
      have "mcu_task_ok w t" using D(4) that assms(7) by simp
      then show ?thesis using pof ok by (auto simp: mcu_task_ok_def split: task.splits)
    qed
    show "ph d = PhNone \<and> d < w_next w' \<and> bound_user d w' = None" if "(m(c := p)) d \<noteq> PhNone" for d
      using D(6) [of d] that assms(2,8) eq(2) by (auto simp: bound_user_def split: if_splits)
    show "ph d = PhNone \<and> d < w_next w'" if "pl_connection (w_pipes w' q) = Some d" for q d
      using D(2) [of q d] that assms(5) eq(2) by simp
    show "pipe_of w' q h" if "pl_handlers (w_pipes w' q) = Some h" for q h using D(1) that assms(5) pof by simp
    show "pipe_ok w' q" if "armed w' a q" for a q using D(3) [of a q] that assms(6) ok by (simp add: armed_def)
    show "pipe_ok w' q" if "CbPipelineClosed q \<in> set (cn_onClosedCallbacks (w_conns w' d))" for d q
      using D(5) that assms(8) ok by simp
    show "ch_connections (w_chans w' h) = []" if "ch_closed (w_chans w' h)" for h using D(7) that eq(1) by simp
  qed (rule assms(9))
  then show ?thesis using server_inv_aside [OF inv(1) assms(4)] by (simp add: full_inv_def)
qed

lemma full_new_conn:
  assumes "full_inv m ph w" and "mcu_new_conn now w = (c, w')"
  shows "full_inv m ph w'" and "ph c = PhNone" and "c < w_next w'" and "bound_user c w' = None" and "m c = PhNone"
    and "cn_binder (w_conns w' c) = None" and "cn_onClosedCallbacks (w_conns w' c) = []" and "w_atts w' = w_atts w" and "pipe_ok w' = pipe_ok w"
proof -
  have c: "c = w_next w" using assms(2) by (auto simp: mcu_new_conn_def Let_def)
  show ph: "ph c = PhNone" using assms(1) users_invD(7) [of ph w c] c by (simp add: full_inv_def server_inv_def)
  show m: "m c = PhNone" using assms(1) mcu_invD(6) [of m ph w c] c by (auto simp: full_inv_def)
  have w': "w_rtm w' = w_rtm w" "w_users w' = w_users w" "w_chans w' = w_chans w" "w_tasks w' = w_tasks w"
      "w_next w' = Suc c" "\<And>d. d \<noteq> c \<Longrightarrow> w_conns w' d = w_conns w d" "w_pipes w' = w_pipes w"
      "mm_connections (w_mcu w') = mm_connections (w_mcu w)"
    using assms(2) by (auto simp: mcu_new_conn_def Let_def)
  show new: "c < w_next w'" "bound_user c w' = None" "cn_binder (w_conns w' c) = None" "cn_onClosedCallbacks (w_conns w' c) = []"
      and atts: "w_atts w' = w_atts w" and "pipe_ok w' = pipe_ok w"
    using assms(2) by (auto simp: mcu_new_conn_def Let_def bound_user_def conn_New_def pipe_ok_def)
  have conns: "set (cn_onClosedCallbacks (w_conns w' d)) \<subseteq> set (cn_onClosedCallbacks (w_conns w d))" for d
    using w'(6) new(4) by (cases "d = c") auto
  have "aside ph w w'"
    unfolding aside_def bound_user_def
    using w' ph conns c by (auto simp: subset_iff) (metis less_irrefl)+
  then show "full_inv m ph w'"
  proof (rule full_change [OF assms(1)])
    show "cn_binder (w_conns w' d) = cn_binder (w_conns w d)" if "m d \<noteq> PhNone" for d using w'(6) m that by (cases "d = c") auto
  qed (use conns w'(4,7,8) atts in \<open>auto simp: armed_def pipe_ok_def subset_iff\<close>)
qed

lemma full_onConnect:
  assumes "full_inv m ph w" and "pipe_ok w p" and "ph c = PhNone" and "c < w_next w" and "pipeline_onConnect p c w = (r, w')"
  shows "full_inv m ph w'" and "r \<noteq> HPanic" and "bound_user c w' = bound_user c w" and "c < w_next w'" and "pipe_ok w' = pipe_ok w"
    and "w_atts w' = w_atts w"
proof -
  define v where "v = upd_conn c (OnClosed (CbPipelineClosed p)) (upd_pipe p (\<lambda>x. x\<lparr>pl_connecting := False, pl_connection := Some c\<rparr>) w)"
  have ok: "pipe_ok v = pipe_ok w" by (auto simp: v_def pipe_ok_def fun_eq_iff)
  have "full_inv m ph (upd_pipe p (\<lambda>x. x\<lparr>pl_connecting := False, pl_connection := Some c\<rparr>) w)"
    using assms(1,3,4) by (intro full_pipe) auto
  then have v: "full_inv m ph v"
    unfolding v_def
    by (rule full_conn) (use assms(2,3) in \<open>auto simp: bound_user_def OnClosed_def pipe_ok_upd_pipe\<close>)
  obtain h where h: "pl_handlers (w_pipes v p) = Some h" using assms(2) unfolding ok [symmetric] pipe_ok_def by auto
  have run: "(r, w') = channel_pipeline_announce p h v"
    using assms(5) h unfolding pipeline_onConnect_def Let_def v_def [symmetric] by simp
  then have out: "w' = v \<or> (\<exists>d x. w' = snd (w_send d x v))" "r \<noteq> HPanic"
    by (auto simp: channel_pipeline_announce_def pipeline_Send_def split: if_splits option.splits prod.splits)
      (metis snd_conv)+
  then show "r \<noteq> HPanic" by simp
  show "full_inv m ph w'" using out(1) v full_send [OF v] by auto
  show "bound_user c w' = bound_user c w" using out(1) by (auto simp: bound_user_def v_def OnClosed_def)
  show "c < w_next w'" using out(1) assms(4) by (auto simp: v_def)
  show "pipe_ok w' = pipe_ok w" using out(1) ok by auto
  show "w_atts w' = w_atts w" using out(1) by (auto simp: v_def)
qed

lemma full_attach_conn:
  assumes "full_inv m ph w" and "ph c = PhNone" and "c < w_next w" and "bound_user c w = None" and "m c = PhNone"
    and "mcu_attach_conn a c w = (out, w')"
  shows "full_inv (case wo_conn out of None \<Rightarrow> m | Some d \<Rightarrow> m(d := PhServing)) ph w'"
proof -
  define v where "v = upd_att a (\<lambda>r. r\<lparr>ar_connection := Some c\<rparr>) w"
  have v: "full_inv m ph v" unfolding v_def using assms(1) by (rule full_att) (simp add: armed_def)
  show ?thesis
  proof (cases "ar_onConnect (w_atts v a)")
    case None
    then show ?thesis
      using assms(6) v unfolding mcu_attach_conn_def Let_def v_def [symmetric] by (auto simp: ws_refuse_def)
  next
    case (Some p)
    have ok: "pipe_ok v p" using Some mcu_invD(3) [of m ph v a p] v by (simp add: armed_def full_inv_def)
    obtain r v1 where con: "pipeline_onConnect p c v = (r, v1)" by (cases "pipeline_onConnect p c v")
    have cv: "c < w_next v" "bound_user c v = None" using assms(3,4) by (simp_all add: v_def bound_user_def)
    note oc = full_onConnect [of m ph v p c, OF v ok assms(2) cv(1) con]
    define v2 where "v2 = upd_conn c (Bind (Some (BoundAttached a)) \<circ> OnClosed (CbAttachedClosed a))
      (upd_att a (\<lambda>r. r\<lparr>ar_onConnect := None\<rparr>) v1)"
    have "full_inv m ph (upd_att a (\<lambda>r. r\<lparr>ar_onConnect := None\<rparr>) v1)"
      using oc(1) by (rule full_att) (simp add: armed_def)
    then have v2: "full_inv m ph v2"
      unfolding v2_def
      by (rule full_conn) (use assms(2,5) oc(3) cv(2) in \<open>auto simp: bound_user_def Bind_def OnClosed_def split: option.splits bound_value.splits\<close>)
    have "full_inv (m(c := PhServing)) ph v2"
      by (rule full_phase [OF v2]) (use assms(2,5) oc(4) in \<open>auto simp: v2_def bound_user_def Bind_def live_def\<close>)
    moreover have "wo_conn out = Some c" "w' = v2"
      using assms(6) Some con oc(2) unfolding mcu_attach_conn_def Let_def v_def [symmetric]
      by (auto simp: v2_def split: handler_result.splits)
    ultimately show ?thesis by simp
  qed
qed

lemma full_upgraded:
  assumes "full_inv m ph w" and "mcu_upgraded now ar w = (out, w')"
  shows "full_inv (case wo_conn out of None \<Rightarrow> m | Some d \<Rightarrow> m(d := PhServing)) ph w'"
proof -
  obtain c v where v: "mcu_new_conn now w = (c, v)" by (cases "mcu_new_conn now w")
  note new = full_new_conn [OF assms(1) v]
  show ?thesis
  proof (cases ar)
    case None
    then have "wo_conn out = Some c" "w' = v" using assms(2) v by (auto simp: mcu_upgraded_def)
    moreover have "full_inv (m(c := PhServing)) ph v" by (rule full_phase [OF new(1)]) (use new(2-5) in \<open>simp_all add: live_def\<close>)
    ultimately show ?thesis by simp
  next
    case (Some a)
    with assms(2) v have "mcu_attach_conn a c v = (out, w')" by (simp add: mcu_upgraded_def)
    then show ?thesis using full_attach_conn [of m ph v c a out w'] new(1-5) by blast
  qed
qed

lemma full_mcu_websocket:
  assumes "full_inv m ph w" and "mcu_HTTPWebsocketHandler env meth transaction up w = (out, w')"
  shows "full_inv (case wo_conn out of None \<Rightarrow> m | Some d \<Rightarrow> m(d := PhServing)) ph w'"
proof -
  have handle: "full_inv (case wo_conn o1 of None \<Rightarrow> m | Some d \<Rightarrow> m(d := PhServing)) ph w1"
    if "mcu_HandleWebsocketConnect env transaction up w = (o1, w1)" for o1 w1
    using that assms(1) full_upgraded [OF assms(1)]
    by (auto simp: mcu_HandleWebsocketConnect_def Let_def ws_refuse_def split: if_splits upgrade.splits)
  show ?thesis
  proof (cases "meth = ''GET''")
    case True
    obtain o1 w1 where h: "mcu_HandleWebsocketConnect env transaction up w = (o1, w1)"
      by (cases "mcu_HandleWebsocketConnect env transaction up w")
    then have "wo_conn out = wo_conn o1" "w' = w1"
      using assms(2) True by (auto simp: mcu_HTTPWebsocketHandler_def split: option.splits)
    with handle [OF h] show ?thesis by simp
  qed (use assms in \<open>auto simp: mcu_HTTPWebsocketHandler_def ws_refuse_def\<close>)
qed

text \<open>
  A text of the MCU reaches a member of the channel at most; it changes a queue. It ends the process
  only when it decodes to a message without an envelope: JSON without \<open>id\<close>, \<open>type\<close> and \<open>subtype\<close>.
\<close>

definition bare_text :: "json option \<Rightarrow> bool" where
  "bare_text data \<longleftrightarrow> (case Option.bind data decode_webrtc of None \<Rightarrow> False | Some msg \<Rightarrow> \<not> wm_Envelope msg)"

lemma deliver_cases:
  assumes "deliver h msg w = (r, w')"
  shows "r = HPanic \<Longrightarrow> \<not> wm_Envelope msg" and "w' = w \<or> (\<exists>d. channel_member h w (wm_Target msg) = Some d \<and> w' = send_to (PWebRTC msg) d w)"
  using assms
  by (auto simp: deliver_def result_of_send_def Channel_Get_def channel_member_def send_to_def Let_def
      split: if_splits option.splits prod.splits)

definition mcu_delivers :: "conn_ref \<Rightarrow> json option \<Rightarrow> world \<Rightarrow> world \<Rightarrow> bool" where
  "mcu_delivers c data w w' \<longleftrightarrow> (\<exists>p h msg d. pl_connection (w_pipes w p) = Some c \<and> pl_handlers (w_pipes w p) = Some h \<and>
     Option.bind data decode_webrtc = Some msg \<and> channel_member h w (wm_Target msg) = Some d \<and> w' = send_to (PWebRTC msg) d w)"

lemma onText_cases:
  assumes "pipeline_onText p c data w = (r, w')"
  shows "r = HPanic \<Longrightarrow> \<not> pipe_ok w p \<or> bare_text data" and "w' = w \<or> mcu_delivers c data w w'"
proof -
  have "(r = HPanic \<longrightarrow> \<not> pipe_ok w p \<or> bare_text data) \<and> (w' = w \<or> mcu_delivers c data w w')"
  proof (cases "pl_connection (w_pipes w p) = Some c \<and> \<not> pl_closed (w_pipes w p)")
    case True
    show ?thesis
    proof (cases "pl_handlers (w_pipes w p)")
      case None
      then show ?thesis using assms True by (auto simp: pipeline_onText_def pipe_ok_def)
    next
      case (Some h)
      show ?thesis
      proof (cases "Option.bind data decode_webrtc")
        case None
        then show ?thesis using assms True Some by (auto simp: pipeline_onText_def)
      next
        case msg: (Some msg)
        obtain r1 w1 where d: "deliver h msg w = (r1, w1)" by (cases "deliver h msg w")
        have "w' = w1" "r = HPanic \<Longrightarrow> r1 = HPanic"
          using assms True Some msg d by (auto simp: pipeline_onText_def split: handler_result.splits)
        moreover have "w1 = w \<or> mcu_delivers c data w w1"
          using deliver_cases(2) [OF d] True Some msg unfolding mcu_delivers_def by blast
        ultimately show ?thesis using deliver_cases(1) [OF d] msg by (auto simp: bare_text_def)
      qed
    qed
  qed (use assms in \<open>auto simp: pipeline_onText_def\<close>)
  then show "r = HPanic \<Longrightarrow> \<not> pipe_ok w p \<or> bare_text data" and "w' = w \<or> mcu_delivers c data w w'" by auto
qed

lemma mcu_OnText_cases:
  assumes "mcu_inv m ph w" and "m c \<noteq> PhNone" and "mcu_OnText c msg w = (r, w')"
  shows "(r = HPanic \<longrightarrow> bare_text msg) \<and> (\<exists>v. core_eq w v \<and> w_rtm v = w_rtm w \<and> (\<forall>d. cn_send (w_conns v d) = cn_send (w_conns w d)) \<and>
    (w' = v \<or> mcu_delivers c msg v w'))"
proof (cases "Option.bind msg decode_transaction_message")
  case None
  then show ?thesis using assms(3) by (auto simp: mcu_OnText_def intro: exI [of _ w])
next
  case (Some tid)
  obtain x conn where t: "Transaction tid None (w_conns w c) = (x, conn)" by (cases "Transaction tid None (w_conns w c)")
  define v where "v = upd_conn c (\<lambda>_. conn) w"
  have send: "cn_send conn = cn_send (w_conns w c)"
    using t by (auto simp: Transaction_def split: if_splits option.splits)
  have v: "core_eq w v" "w_rtm v = w_rtm w" "\<And>d. cn_send (w_conns v d) = cn_send (w_conns w d)"
    unfolding v_def using Transaction_core [OF t] send by simp_all
  have bound: "bound_user c v = None" and armed: "\<And>a p. armed v a p \<Longrightarrow> pipe_ok v p"
    using v(1) mcu_invD(6) [OF assms(1,2)] mcu_invD(3) [OF assms(1)]
    by (simp_all add: core_eq_def bound_user_def armed_def pipe_ok_def)
  have "(r = HPanic \<longrightarrow> bare_text msg) \<and> (w' = v \<or> mcu_delivers c msg v w')"
  proof (cases x)
    case None
    show ?thesis
    proof (cases "cn_binder conn")
      case b: (Some b)
      then obtain a where a: "b = BoundAttached a" using bound by (cases b) (auto simp: bound_user_def v_def)
      show ?thesis
      proof (cases "ar_onText (w_atts v a)")
        case p: (Some p)
        then have "pipe_ok v p" by (intro armed [of a]) (simp add: armed_def)
        moreover have "pipeline_onText p c msg v = (r, w')"
          using assms(3) Some t None a b p unfolding mcu_OnText_def by (simp add: v_def [symmetric])
        ultimately show ?thesis using onText_cases by blast
      qed (use assms(3) Some t None a b in \<open>auto simp: mcu_OnText_def v_def [symmetric]\<close>)
    qed (use assms(3) Some t None in \<open>auto simp: mcu_OnText_def v_def [symmetric]\<close>)
  qed (use assms(3) Some t in \<open>auto simp: mcu_OnText_def v_def [symmetric]\<close>)
  with v show ?thesis by blast
qed

lemma mcu_readPump_cases:
  assumes "mcu_inv m ph w" and "m c \<noteq> PhNone" and "mcu_readPump_text c msg w = (rr, w')"
  shows "(rr = ReadPanic \<longrightarrow> bare_text msg) \<and> (\<exists>v. core_eq w v \<and> w_rtm v = w_rtm w \<and> (\<forall>d. cn_send (w_conns v d) = cn_send (w_conns w d)) \<and>
    (w' = v \<or> mcu_delivers c msg v w'))"
proof -
  obtain r w1 where run: "mcu_OnText c msg w = (r, w1)" by (cases "mcu_OnText c msg w")
  have "w' = w1" "rr = ReadPanic \<longrightarrow> r = HPanic"
    using assms(3) run by (auto simp: mcu_readPump_text_def mcu_OnError_def split: handler_result.splits)
  with mcu_OnText_cases [OF assms(1,2) run] show ?thesis by auto
qed

lemma full_mcu_text:
  assumes "full_inv m ph w" and "m c \<noteq> PhNone" and "mcu_readPump_text c msg w = (rr, w')"
  shows "full_inv m ph w'" and "core_eq w w'"
proof -
  have "mcu_inv m ph w" using assms(1) by (simp add: full_inv_def)
  from mcu_readPump_cases [OF this assms(2,3)] obtain v where v: "core_eq w v" "w_rtm v = w_rtm w"
    and out: "w' = v \<or> mcu_delivers c msg v w'" by blast
  have "core_eq v w' \<and> w_rtm w' = w_rtm v"
    using out same_core_eq [OF send_to_same] by (auto simp: mcu_delivers_def)
  then have "core_eq w w'" "w_rtm w' = w_rtm w" using v core_eq_trans by auto
  then show "full_inv m ph w'" "core_eq w w'" using full_core [OF assms(1)] by auto
qed

lemma full_purge: "full_inv m ph w \<Longrightarrow> full_inv m ph (purgeExpiredAttached now w)"
proof -
  assume inv: "full_inv m ph w"
  have "full_inv m ph (fold (\<lambda>e. upd_att (snd e) (\<lambda>r. r\<lparr>ar_onConnect := None, ar_onText := None\<rparr>)) old w)" for old :: "(string \<times> att_ref) list"
    using inv
  proof (induction old arbitrary: w)
    case (Cons e old)
    have "full_inv m ph (upd_att (snd e) (\<lambda>r. r\<lparr>ar_onConnect := None, ar_onText := None\<rparr>) w)"
      using Cons.prems by (rule full_att) (simp add: armed_def)
    then show ?case using Cons.IH by simp
  qed simp
  then show ?thesis unfolding purgeExpiredAttached_def Let_def by (intro full_upd_mcu) simp_all
qed

end
