(* ===== verification/Mcu_Steps.thy ===== *)
theory Mcu_Steps
  imports Mcu_Inv
begin

text \<open>
  The steps of the clients keep the MCU invariant: a message may create a channel with a pipeline, the
  cleanup may close one, and everything else leaves pipelines, attach records and the connections of
  the MCU alone.
\<close>

section \<open>Steps of the clients\<close>

text \<open>What the steps of the clients leave of the MCU side.\<close>

definition chan_frame :: "Channel \<Rightarrow> Channel \<Rightarrow> bool" where
  "chan_frame ch ch' \<longleftrightarrow> (ch_closed ch \<longrightarrow> ch_closed ch') \<and> (ch_pipeline ch' = ch_pipeline ch \<or> ch_closed ch') \<and>
     ((ch_closed ch \<longrightarrow> ch_connections ch = []) \<longrightarrow> ch_closed ch' \<longrightarrow> ch_connections ch' = [])"

definition mcu_frame :: "world \<Rightarrow> world \<Rightarrow> bool" where
  "mcu_frame w w' \<longleftrightarrow> w_pipes w' = w_pipes w \<and> w_atts w' = w_atts w \<and> w_next w \<le> w_next w' \<and>
     (\<forall>t \<in> set (w_tasks w'). t \<in> set (w_tasks w) \<or> (\<forall>v. mcu_task_ok v t)) \<and>
     (\<forall>c p. CbPipelineClosed p \<in> set (cn_onClosedCallbacks (w_conns w' c)) \<longrightarrow>
        CbPipelineClosed p \<in> set (cn_onClosedCallbacks (w_conns w c))) \<and>
     mm_connections (w_mcu w') = mm_connections (w_mcu w) \<and>
     (\<forall>c < w_next w. bound_user c w = None \<longrightarrow> cn_binder (w_conns w' c) = cn_binder (w_conns w c)) \<and>
     (\<forall>h. chan_frame (w_chans w h) (w_chans w' h))"

lemma chan_frame_refl [simp]: "chan_frame ch ch"
  by (simp add: chan_frame_def)

lemma chan_frame_trans: "chan_frame c1 c2 \<Longrightarrow> chan_frame c2 c3 \<Longrightarrow> chan_frame c1 c3"
  by (auto simp: chan_frame_def)

lemma mcu_frame_refl [simp]: "mcu_frame w w"
  by (simp add: mcu_frame_def)

lemma mcu_frame_trans:
  assumes "mcu_frame w1 w2" and "mcu_frame w2 w3"
  shows "mcu_frame w1 w3"
proof -
  have "chan_frame (w_chans w1 h) (w_chans w3 h)" for h
    using assms chan_frame_trans [of _ "w_chans w2 h"] by (simp add: mcu_frame_def)
  moreover have "t \<in> set (w_tasks w1) \<or> (\<forall>v. mcu_task_ok v t)" if "t \<in> set (w_tasks w3)" for t
    using assms that unfolding mcu_frame_def by blast
  moreover have "cn_binder (w_conns w3 c) = cn_binder (w_conns w1 c)" if "c < w_next w1" "bound_user c w1 = None" for c
  proof -
    have "cn_binder (w_conns w2 c) = cn_binder (w_conns w1 c)" "c < w_next w2" using assms(1) that by (auto simp: mcu_frame_def)
    moreover from this that(2) have "bound_user c w2 = None" by (simp add: bound_user_def)
    ultimately show ?thesis using assms(2) by (simp add: mcu_frame_def)
  qed
  ultimately show ?thesis using assms unfolding mcu_frame_def by simp
qed

lemma mcu_inv_frame:
  assumes "mcu_inv m ph w" and "mcu_frame w w'" and "\<And>d. d < w_next w \<Longrightarrow> ph d = PhNone \<Longrightarrow> ph' d = PhNone"
  shows "mcu_inv m ph' w'"
proof (rule mcu_invI)
  note D = mcu_invD [OF assms(1)]
  have F: "w_pipes w' = w_pipes w" "w_atts w' = w_atts w" "w_next w \<le> w_next w'"
      "\<And>h. chan_frame (w_chans w h) (w_chans w' h)"
    using assms(2) by (simp_all add: mcu_frame_def)
  have ok: "pipe_ok w' = pipe_ok w" by (rule pipe_ok_eq [OF F(1)])
  have pof: "pipe_of w p h \<Longrightarrow> pipe_of w' p h" for p h
    using F(3) F(4) [of h] by (auto simp: pipe_of_def chan_frame_def)
  show "pipe_of w' p h" if "pl_handlers (w_pipes w' p) = Some h" for p h using that D(1) F(1) pof by simp
  show "ph' c = PhNone \<and> c < w_next w'" if "pl_connection (w_pipes w' p) = Some c" for p c
    using that D(2) [of p c] F(1,3) assms(3) by auto
  show "pipe_ok w' p" if "armed w' a p" for a p using that D(3) F(2) ok by (simp add: armed_def)
  show "mcu_task_ok w' t" if "t \<in> set (w_tasks w')" for t
  proof -
    have "mcu_task_ok w t \<or> (\<forall>v. mcu_task_ok v t)" using that D(4) assms(2) by (auto simp: mcu_frame_def)
    then show ?thesis using pof ok by (auto simp: mcu_task_ok_def split: task.splits)
  qed
  show "pipe_ok w' p" if "CbPipelineClosed p \<in> set (cn_onClosedCallbacks (w_conns w' c))" for c p
    using that D(5) assms(2) unfolding ok mcu_frame_def by blast
  show "ph' c = PhNone \<and> c < w_next w' \<and> bound_user c w' = None" if "m c \<noteq> PhNone" for c
    using D(6) [OF that] F(3) assms(2,3) by (auto simp: mcu_frame_def bound_user_def)
  show "ch_connections (w_chans w' h) = []" if "ch_closed (w_chans w' h)" for h
    using that D(7) [of h] F(4) [of h] by (auto simp: chan_frame_def)
  show "ring_ok m w'"
    by (rule ring_ok_frame [OF D(8)]) (use D(6) assms(2) in \<open>simp_all add: mcu_frame_def\<close>)
qed

lemma core_mcu_frame: "core_eq w w' \<Longrightarrow> mcu_frame w w'"
  by (simp add: core_eq_def mcu_frame_def bound_user_def)

lemma Connect_mcu_frame: "mcu_frame w (snd (rtm_Connect env uid auth w))"
  by (simp add: rtm_Connect_def Let_def mcu_frame_def bound_user_def)

lemma remove_mcu_frame: "mcu_frame w (snd (channel_remove h uid d w))"
proof -
  have "w_pipes (snd (channel_remove h uid d w)) = w_pipes w" "w_atts (snd (channel_remove h uid d w)) = w_atts w"
      "w_mcu (snd (channel_remove h uid d w)) = w_mcu w"
    by (simp_all add: channel_remove_def Let_def split: option.splits)
  moreover have "chan_frame (w_chans w g) (w_chans (snd (channel_remove h uid d w)) g)" for g
    by (auto simp: channel_remove_def Let_def chan_frame_def split: option.splits)
  moreover have "t \<in> set (w_tasks w) \<or> (\<forall>v. mcu_task_ok v t)" if "t \<in> set (w_tasks (snd (channel_remove h uid d w)))" for t
    using remove_tasks [OF that] by auto
  ultimately show ?thesis by (simp add: mcu_frame_def bound_user_def)
qed

lemma closed_cbs_mcu_frame:
  "\<forall>cb \<in> set cbs. \<exists>h uid. cb = CbChannelRemove h uid c \<Longrightarrow> mcu_frame w (snd (run_closed_cbs c cbs w))"
proof (induction cbs arbitrary: w)
  case (Cons cb cbs)
  then obtain h uid where cb: "cb = CbChannelRemove h uid c" by auto
  have "mcu_frame (snd (channel_remove h uid (Some c) w)) (snd (run_closed_cbs c cbs (snd (channel_remove h uid (Some c) w))))"
    by (rule Cons.IH) (use Cons.prems in simp)
  then show ?case using mcu_frame_trans [OF remove_mcu_frame] by (simp add: cb run_closed_cb_def)
qed simp

lemma close_conn_mcu_frame:
  assumes "room_inv ph w" and "ph c \<noteq> PhNone" and "close_conn now c w = (r, w')"
  shows "mcu_frame w w'"
proof -
  obtain cbs conn where cl: "conn_Close now (w_conns w c) = (cbs, conn)" by (cases "conn_Close now (w_conns w c)")
  have "\<forall>cb \<in> set cbs. \<exists>h uid. cb = CbChannelRemove h uid c"
    using cl cb_ok_client [OF room_invD(2) [OF assms(1)] assms(2)] by (auto simp: conn_Close_def split: if_splits)
  from closed_cbs_mcu_frame [OF this, of "upd_conn c (\<lambda>_. conn) w"]
  have "mcu_frame (upd_conn c (\<lambda>_. conn) w) w'" using cl assms(3) by (simp add: close_conn_def)
  moreover have "mcu_frame w (upd_conn c (\<lambda>_. conn) w)"
    using cl by (auto simp: conn_Close_def mcu_frame_def bound_user_def split: if_splits)
  ultimately show ?thesis by (rule mcu_frame_trans [rotated])
qed

subsection \<open>Messages\<close>

lemma NewChannel_pipes:
  assumes "NewChannel cid cfg w = (h, w')"
  shows "w_atts w' = w_atts w" and "w_conns w' = w_conns w" and "mm_connections (w_mcu w') = mm_connections (w_mcu w)"
    and "w_pipes w' q = w_pipes w q \<or> w_next w \<le> q \<and> pl_handlers (w_pipes w' q) = None \<and> pl_connection (w_pipes w' q) = None"
    and "t \<in> set (w_tasks w') \<Longrightarrow> t \<in> set (w_tasks w) \<or> (\<exists>p. t = TPipelineConnect p h \<and> pipe_of w' p h)"
  using assms
  by (auto simp: NewChannel_def rtm_Pipeline_def mcu_Pipeline_def mcu_NewHandle_def pipe_of_def Let_def
      split: option.splits if_splits prod.splits)

text \<open>A new channel may come with a pipeline, which is not connected yet.\<close>

lemma mcu_inv_new:
  assumes "mcu_inv m ph w" and "NewChannel cid cfg w = (h, w')"
  shows "mcu_inv m ph w'"
proof (rule mcu_invI)
  note D = mcu_invD [OF assms(1)] and N = NewChannel_pipes [OF assms(2)] and R = NewChannel_result [OF assms(2)]
  have pof: "pipe_of w p g \<Longrightarrow> pipe_of w' p g" for p g
    using R(1,2) R(9) [of g] by (auto simp: pipe_of_def)
  have old: "w_pipes w' q = w_pipes w q" if "q < w_next w" for q using N(4) [of q] that by auto
  have ok: "pipe_ok w' q" if "pipe_ok w q" for q
  proof -
    have "q < w_next w" using that D(1) [of q] by (auto simp: pipe_ok_def pipe_of_def)
    then show ?thesis using that old by (simp add: pipe_ok_def)
  qed
  show "pipe_of w' p g" if "pl_handlers (w_pipes w' p) = Some g" for p g
    using N(4) [of p] that D(1) [of p g] pof by auto
  show "ph c = PhNone \<and> c < w_next w'" if "pl_connection (w_pipes w' p) = Some c" for p c
    using N(4) [of p] that D(2) [of p c] R(2) by auto
  show "pipe_ok w' p" if "armed w' a p" for a p using that N(1) ok [OF D(3)] by (simp add: armed_def)
  show "mcu_task_ok w' t" if "t \<in> set (w_tasks w')" for t
  proof -
    have "mcu_task_ok w t \<Longrightarrow> mcu_task_ok w' t" using pof ok by (auto simp: mcu_task_ok_def split: task.splits)
    then show ?thesis using N(5) [OF that] D(4) by auto
  qed
  show "pipe_ok w' p" if "CbPipelineClosed p \<in> set (cn_onClosedCallbacks (w_conns w' c))" for c p
    using that N(2) ok [OF D(5)] by simp
  show "ph c = PhNone \<and> c < w_next w' \<and> bound_user c w' = None" if "m c \<noteq> PhNone" for c
    using D(6) [OF that] R(2) N(2) by (simp add: bound_user_def)
  show "ch_connections (w_chans w' g) = []" if "ch_closed (w_chans w' g)" for g
    using that D(7) [of g] R(7,9) by (cases "g = h") auto
  show "ring_ok m w'" by (rule ring_ok_frame [OF D(8) N(3)]) (simp add: N(2))
qed

lemma mcu_inv_effect:
  assumes "mcu_inv m ph w" and "webrtc_allowed n msg uid c prof own w e"
  shows "mcu_inv m ph (apply_effect e w)"
proof -
  have frame: "mcu_inv m ph (apply_effect e w)" if "mcu_frame w (apply_effect e w)"
    by (rule mcu_inv_frame [OF assms(1) that])
  show ?thesis
  proof (cases e)
    case (ESend d p)
    have "core_eq w (send_to p d w)" by (rule same_core_eq [OF send_to_same])
    then show ?thesis using ESend by (intro frame) (simp add: core_mcu_frame)
  next
    case (ENew cid cfg)
    then show ?thesis using mcu_inv_new [OF assms(1)] by (cases "NewChannel cid cfg w") auto
  next
    case (ERegister k rec)
    then show ?thesis by (intro frame) (simp add: mcu_frame_def bound_user_def)
  next
    case (EJoin h u d b)
    have "chan_frame (w_chans w g) (w_chans (channel_store h u d b w) g)" for g
      using assms(2) EJoin by (auto simp: channel_store_chans chan_frame_def)
    moreover have "w_pipes (channel_store h u d b w) = w_pipes w" "w_atts (channel_store h u d b w) = w_atts w"
        "w_next (channel_store h u d b w) = w_next w" "w_mcu (channel_store h u d b w) = w_mcu w"
      by (simp_all add: channel_store_def Let_def)
    moreover have "t \<in> set (w_tasks w) \<or> (\<forall>v. mcu_task_ok v t)" if "t \<in> set (w_tasks (channel_store h u d b w))" for t
      using store_tasks [OF that] by auto
    ultimately show ?thesis
      using EJoin by (intro frame) (auto simp: mcu_frame_def store_conns OnClosed_def bound_user_def)
  next
    case (EWedge h)
    then show ?thesis by (intro frame) (simp add: mcu_frame_def bound_user_def chan_frame_def)
  next
    case (ELeave h u)
    then show ?thesis by (intro frame) (simp add: remove_mcu_frame)
  qed
qed

lemma mcu_inv_message:
  assumes "mcu_inv m ph w" and "server_inv ph w" and "ph c = PhOpen"
  shows "mcu_inv m ph (snd (processWebRTCMessage env c msg w))"
proof -
  have inv: "users_inv ph w" "channel_table_ok w" using assms(2) by (simp_all add: server_inv_def)
  obtain u where u: "bound_user c w = Some u"
    by (rule live_bound [OF inv(1), of c]) (simp_all add: assms(3) live_def)
  show ?thesis
    by (rule effects_invariant [where I = "mcu_inv m ph", OF processWebRTCMessage_effects [OF inv(2) u refl] assms(1)])
      (rule mcu_inv_effect)
qed

lemma full_read:
  assumes "full_inv m ph w" and "ph c = PhOpen" and "readPump_text env c msg w = (rr, w')"
  shows "full_inv m (ph(c := phase_after_read rr)) w'"
proof -
  have inv: "server_inv ph w" "mcu_inv m ph w" using assms(1) by (simp_all add: full_inv_def)
  have core: "mcu_inv m ph v" if "mcu_inv m ph u" "core_eq u v" for u v by (rule mcu_inv_frame [OF that(1) core_mcu_frame [OF that(2)]])
  have "mcu_inv m ph w'"
    using readPump_outcome [OF assms(3)]
  proof (elim disjE exE conjE)
    fix x v assume v: "core_eq w v" and w': "core_eq (snd (processWebRTCMessage env c x v)) w'"
    have "mcu_inv m ph (snd (processWebRTCMessage env c x v))"
      by (rule mcu_inv_message) (use core [OF inv(2) v] server_inv_core [OF inv(1) v] assms(2) in auto)
    then show ?thesis by (rule core [OF _ w'])
  qed (rule core [OF inv(2)])
  then have "mcu_inv m (ph(c := phase_after_read rr)) w'"
    by (rule mcu_inv_frame [OF _ mcu_frame_refl]) (use assms(2) in auto)
  then show ?thesis using server_inv_read [OF inv(1) assms(2,3)] by (simp add: full_inv_def)
qed

subsection \<open>Connections\<close>

lemma full_core_any:
  assumes "full_inv m ph w" and "core_eq w w'"
  shows "full_inv m ph w'"
  using assms server_inv_core mcu_inv_frame [OF _ core_mcu_frame [OF assms(2)]] by (auto simp: full_inv_def)

lemma full_phase_end:
  assumes "full_inv m ph w" and "ph c = PhOpen"
  shows "full_inv m (ph(c := PhEnding)) w"
proof -
  have "mcu_inv m (ph(c := PhEnding)) w"
    by (rule mcu_inv_frame [OF _ mcu_frame_refl, of m ph]) (use assms in \<open>auto simp: full_inv_def\<close>)
  then show ?thesis using assms server_inv_live [of ph w c PhEnding] by (simp add: full_inv_def active_def)
qed

lemma full_connect:
  assumes "full_inv m ph w" and "HTTPConnectHandler env req w = (res, w')" and "server_inv ph w'"
  shows "full_inv m ph w'"
proof -
  obtain v where v: "core_eq w v" and out: "core_eq v w' \<or>
      (\<exists>user auth. user \<noteq> [] \<and> core_eq (snd (rtm_Connect (hv_rtm env) user auth v)) w')"
    using connect_outcome [OF assms(2)] by blast
  have "mcu_frame v w'"
    using out core_mcu_frame mcu_frame_trans [OF Connect_mcu_frame] by blast
  then have "mcu_frame w w'" by (rule mcu_frame_trans [OF core_mcu_frame [OF v]])
  then show ?thesis using assms mcu_inv_frame by (auto simp: full_inv_def)
qed

lemma drop_keys_mcu_frame: "mcu_frame w (upd_rtm f w)"
  by (simp add: mcu_frame_def bound_user_def)

lemma full_websocket:
  assumes "full_inv m ph w" and "rtm_HTTPWebsocketHandler env meth key up w = (out, w')"
  shows "full_inv m (case wo_conn out of None \<Rightarrow> ph | Some c \<Rightarrow> ph(c := PhServing)) w'"
proof -
  have inv: "server_inv ph w" "mcu_inv m ph w" using assms(1) by (simp_all add: full_inv_def)
  have "mcu_inv m (case wo_conn out of None \<Rightarrow> ph | Some c \<Rightarrow> ph(c := PhServing)) w'"
    using websocket_outcome [OF assms(2)]
  proof (elim disjE conjE exE)
    assume none: "wo_conn out = None" and "drops_keys w w'"
    then obtain P where "core_eq (upd_rtm (\<lambda>m. m\<lparr>rm_keys := filter P (rm_keys m)\<rparr>) w) w'"
      by (auto simp: drops_keys_def)
    from mcu_frame_trans [OF drop_keys_mcu_frame core_mcu_frame [OF this]] none show ?thesis
      using mcu_inv_frame [OF inv(2)] by simp
  next
    fix c v assume c: "wo_conn out = Some c" and v: "core_eq w v" and "trades_key v c w'"
    then obtain k u a now where
      new: "rtm_new_conn now u ((upd_rtm (\<lambda>_. (w_rtm v)\<lparr>rm_keys := gm_del k (rm_keys (w_rtm v))\<rparr>) v)\<lparr>w_admin := a\<rparr>) = (c, w')"
      unfolding trades_key_def by (elim exE conjE)
    then have w': "c = w_next v" and frame: "mcu_frame v w'"
      by (auto simp: rtm_new_conn_def Let_def mcu_frame_def bound_user_def conn_New_def Bind_def split: if_splits)
    have "mcu_inv m (ph(c := PhServing)) w'"
      by (rule mcu_inv_frame [OF inv(2) mcu_frame_trans [OF core_mcu_frame [OF v] frame]])
        (use w' v in \<open>auto simp: core_eq_def\<close>)
    then show ?thesis using c by simp
  qed
  then show ?thesis using server_inv_websocket [OF inv(1) assms(2)] by (simp add: full_inv_def)
qed

lemma OnConnect_mcu_frame:
  assumes "bound_user c w \<noteq> None" and "rtm_OnConnect env c w = (r, w')"
  shows "mcu_frame w w'"
proof -
  have hello: "mcu_frame v v'" if "send_hello c ty self v = (x, v')" for ty self v x v'
    using send_hello_core [of v c ty self] that by (simp add: core_mcu_frame)
  have user: "mcu_frame w v" if "connect_user now c nur w = Some (ur, b, v)" for now nur ur b v
    using that assms(1) by (auto simp: connect_user_def mcu_frame_def bound_user_def Bind_def split: option.splits if_splits bound_value.splits)
  have more: "mcu_frame w v'"
    if "connect_user (en_now env) c nur w = Some (ur, b, v)" "send_hello c ty self (if b then inc_metric f v else v) = (x, v')"
    for nur ur b v ty self f x v'
  proof -
    have "core_eq v (if b then inc_metric f v else v)" by (simp add: inc_metric_core)
    from mcu_frame_trans [OF mcu_frame_trans [OF user [OF that(1)] core_mcu_frame [OF this]] hello [OF that(2)]] show ?thesis .
  qed
  show ?thesis
    using assms(2) hello more user
    by (auto simp: rtm_OnConnect_def split: option.splits bound_value.splits)
qed

lemma full_serve:
  assumes "full_inv m ph w" and "ph c = PhServing" and "rtm_OnConnect env c (rtm_serve_begin c w) = (r, w')"
  shows "full_inv m (ph(c := PhOpen)) w'"
proof -
  have inv: "server_inv ph w" "mcu_inv m ph w" using assms(1) by (simp_all add: full_inv_def)
  have "users_inv ph w" using inv(1) by (simp add: server_inv_def)
  from users_invD(5) [OF this assms(2)] have "bound_user c (rtm_serve_begin c w) \<noteq> None"
    by (auto simp: serving_conn_ok_def bound_user_def rtm_serve_begin_def)
  then have "mcu_frame (rtm_serve_begin c w) w'" by (rule OnConnect_mcu_frame [OF _ assms(3)])
  moreover have "mcu_frame w (rtm_serve_begin c w)" by (simp add: rtm_serve_begin_def mcu_frame_def bound_user_def)
  ultimately have "mcu_frame w w'" by (rule mcu_frame_trans [rotated])
  then have "mcu_inv m (ph(c := PhOpen)) w'" by (rule mcu_inv_frame [OF inv(2)]) (use assms(2) in auto)
  then show ?thesis using server_inv_serve(2) [OF inv(1) assms(2,3)] by (simp add: full_inv_def)
qed

lemma full_close:
  assumes "full_inv m ph w" and "ph c = PhEnding" and "close_conn now c w = (r, w')"
  shows "full_inv m (ph(c := (if r = HNil then PhClosed else PhStuck))) w'"
proof -
  have inv: "server_inv ph w" "mcu_inv m ph w" using assms(1) by (simp_all add: full_inv_def)
  have "ph c \<noteq> PhNone" "room_inv ph w" using assms(2) inv(1) by (simp_all add: server_inv_def)
  then have "mcu_frame w w'" using close_conn_mcu_frame [of ph w c now r w'] assms(3) by simp
  then have "mcu_inv m (ph(c := (if r = HNil then PhClosed else PhStuck))) w'"
    by (rule mcu_inv_frame [OF inv(2)]) (use assms(2) in auto)
  then show ?thesis using server_inv_close [OF inv(1) assms(2,3)] by (simp add: full_inv_def)
qed

lemma full_disconnect:
  assumes "full_inv m ph w" and "ph c = PhClosed" and "rtm_OnDisconnect env c w = (r, w')"
  shows "full_inv m (ph(c := PhGone)) (rtm_serve_end c w')"
proof -
  have inv: "server_inv ph w" "mcu_inv m ph w" using assms(1) by (simp_all add: full_inv_def)
  have "users_inv ph w" "live (ph c)" using inv(1) assms(2) by (simp_all add: server_inv_def live_def)
  then obtain u f where "w' = upd_user u f w"
    by (rule OnDisconnect_run [where env = env]) (use assms(3) in simp)
  then have "mcu_frame w (rtm_serve_end c w')" by (simp add: rtm_serve_end_def mcu_frame_def bound_user_def)
  then have "mcu_inv m (ph(c := PhGone)) (rtm_serve_end c w')"
    by (rule mcu_inv_frame [OF inv(2)]) (use assms(2) in auto)
  then show ?thesis using server_inv_disconnect(2) [OF inv(1) assms(2,3)] by (simp add: full_inv_def)
qed

subsection \<open>Cleanup\<close>

lemma closed_channel_mcu_frame:
  assumes "Channel_Cleanup h w = Some (b, w')" and "ch_config (w_chans w h) \<noteq> None"
  shows "mcu_frame w w'"
proof (cases b)
  case True
  then have w': "w' = inc_metric (mt_channelCleanup_update Suc) (shut_channel h w)" and "ch_connections (w_chans w h) = []"
    using Channel_Cleanup_cases [OF assms(1)] assms by (auto simp: Channel_Cleanup_def canBeCleanedUp_def Let_def split: if_splits)
  then have "chan_frame (w_chans w g) (w_chans w' g)" for g by (simp add: chan_frame_def)
  moreover have "t \<in> set (w_tasks w) \<or> (\<forall>v. mcu_task_ok v t)" if "t \<in> set (w_tasks w')" for t
    using shut_channel_tasks [of t h w] that by (auto simp: w')
  ultimately show ?thesis by (simp add: w' mcu_frame_def bound_user_def)
qed (use Channel_Cleanup_cases [OF assms(1)] in simp)

lemma cleanup_all_mcu_frame:
  assumes "\<forall>e \<in> set es. ch_config (w_chans w (cr_channel (snd e))) \<noteq> None"
  shows "mcu_frame w (snd (cleanup_all es w))"
  using assms
proof (induction es arbitrary: w)
  case (Cons e es)
  let ?h = "cr_channel (snd e)"
  show ?case
  proof (cases "Channel_Cleanup ?h w")
    case (Some bw)
    obtain b w1 where bw: "bw = (b, w1)" by (cases bw)
    define v where "v = (if b then upd_rtm (\<lambda>m. m\<lparr>rm_channels := gm_del (fst e) (rm_channels m)\<rparr>) w1 else w1)"
    have run: "cleanup_all (e # es) w = cleanup_all es v" using Some bw by (cases b) (simp_all add: v_def)
    have "mcu_frame w w1" by (rule closed_channel_mcu_frame [of ?h _ b]) (use Some bw Cons.prems in auto)
    moreover have "mcu_frame w1 v" by (simp add: v_def drop_keys_mcu_frame)
    moreover have "mcu_frame v (snd (cleanup_all es v))"
    proof (rule Cons.IH)
      have "ch_config (w_chans v g) = ch_config (w_chans w g)" for g
        using Channel_Cleanup_cases [of ?h w b w1] Some bw by (auto simp: v_def)
      then show "\<forall>e \<in> set es. ch_config (w_chans v (cr_channel (snd e))) \<noteq> None" using Cons.prems by simp
    qed
    ultimately show ?thesis unfolding run using mcu_frame_trans by blast
  qed simp
qed simp

lemma full_cleanup:
  assumes "full_inv m ph w" and "cleanup_tick now w = (r, w')"
  shows "full_inv m ph w'"
proof -
  have inv: "server_inv ph w" "mcu_inv m ph w" using assms(1) by (simp_all add: full_inv_def)
  let ?v = "upd_rtm (purgeExpiredKeys now) w"
  obtain x y where xy: "purgeEmptyChannels now ?v = (x, y)" by (cases "purgeEmptyChannels now ?v")
  have tab: "channel_table_ok w" using inv(1) by (simp add: server_inv_def)
  have "mcu_frame ?v y"
  proof (cases "collect_empty (now - channelExpiration) ?v (rm_channels (w_rtm ?v))")
    case (Some l)
    have "set l \<subseteq> set (rm_channels (w_rtm w))"
      using collect_empty_sub [OF Some] by (simp add: purgeExpiredKeys_def Let_def)
    moreover have "ch_config (w_chans w (cr_channel rec)) \<noteq> None" if "(k, rec) \<in> set (rm_channels (w_rtm w))" for k rec
      using tab that by (auto simp: channel_table_ok_def chan_named_def)
    ultimately have "\<forall>e \<in> set l. ch_config (w_chans ?v (cr_channel (snd e))) \<noteq> None" by auto
    from cleanup_all_mcu_frame [OF this] Some xy show ?thesis by (simp add: purgeEmptyChannels_def)
  qed (use xy in \<open>simp add: purgeEmptyChannels_def\<close>)
  then have y: "mcu_frame w y" by (rule mcu_frame_trans [OF drop_keys_mcu_frame])
  have "mcu_frame y (purgeInactiveUsers now y)"
    by (simp add: purgeInactiveUsers_def Let_def mcu_frame_def bound_user_def)
  then have "mcu_frame w w'"
    using assms(2) xy y mcu_frame_trans [OF y] by (auto simp: cleanup_tick_def split: handler_result.splits)
  then have "mcu_inv m ph w'" by (rule mcu_inv_frame [OF inv(2)])
  then show ?thesis using server_inv_cleanup [OF inv(1) assms(2)] by (simp add: full_inv_def)
qed

section \<open>Goroutines\<close>

definition channel_task :: "task \<Rightarrow> bool" where
  "channel_task t \<longleftrightarrow>
     (case t of TEmitChats c h op uid \<Rightarrow> True | TAfterAddOrRemove h op uid \<Rightarrow> True | TAfterReset h \<Rightarrow> True | _ \<Rightarrow> False)"

lemma channel_task_run:
  assumes "task_ok w t" and "channel_task t" and "run_task env t w = (r, w')"
  shows "r \<noteq> HPanic" and "core_eq w w'"
  using assms
  by (auto simp: task_ok_def channel_task_def run_task_def emitChannelChatsAddOrRemove_def onAfterGroupChannelReset_def
      onAfterGroupAddOrRemove_def Let_def same_core_eq [OF send_all_same] split: task.splits option.splits prod.splits)

lemma full_task_drop:
  assumes "full_inv m ph w" and "w_tasks w = xs @ t # ys"
  shows "full_inv m ph (w\<lparr>w_tasks := xs @ ys\<rparr>)"
proof -
  let ?v = "w\<lparr>w_tasks := xs @ ys\<rparr>"
  have inv: "users_inv ph w" "room_inv ph w" "channel_table_ok w" "mcu_inv m ph w"
    using assms(1) by (simp_all add: full_inv_def server_inv_def)
  have eq: "users_eq w ?v" by (simp add: users_eq_def)
  have "room_frame ph w ?v" by (rule users_room_frame [OF eq]) (auto simp: assms(2))
  moreover have "mcu_frame w ?v" by (simp add: mcu_frame_def bound_user_def assms(2))
  ultimately show ?thesis
    using users_inv_frame [OF inv(1) eq] room_inv_frame [OF inv(2)] mcu_inv_frame [OF inv(4)] channel_table_frame [OF inv(3), of ?v]
    by (simp add: full_inv_def server_inv_def table_frame_def)
qed

lemma full_task:
  assumes "full_inv m ph w" and "w_tasks w = xs @ t # ys" and "run_task env t (w\<lparr>w_tasks := xs @ ys\<rparr>) = (r, w')"
  shows "r \<noteq> HPanic" and "full_inv m ph w'"
proof -
  let ?v = "w\<lparr>w_tasks := xs @ ys\<rparr>"
  have v: "full_inv m ph ?v" by (rule full_task_drop [OF assms(1,2)])
  have "task_ok w t" "mcu_task_ok w t"
    using assms(1,2) room_invD(1) [of ph w t] mcu_invD(4) [of m ph w t] by (simp_all add: full_inv_def server_inv_def)
  then have ok: "task_ok ?v t" "mcu_task_ok ?v t"
    by (auto simp: task_ok_def mcu_task_ok_def bound_user_def pipe_ok_def pipe_of_def split: task.splits)
  have "r \<noteq> HPanic \<and> full_inv m ph w'"
  proof (cases t)
    case (TPipelineConnect p h)
    then show ?thesis using full_Connect [OF v, of p h env r w'] ok(2) assms(3) by (simp add: run_task_def)
  next
    case (TPipelineClose p)
    then show ?thesis using full_Close [OF v, of env p r w'] assms(3) by (simp add: run_task_def)
  next
    case (TPipelineReconnect p)
    then show ?thesis using full_reconnect [OF v, of p] ok(2) assms(3) by (auto simp: run_task_def)
  next
    case (TPipelineWatch p)
    then show ?thesis using full_watch [OF v, of p] ok(2) assms(3) by (auto simp: run_task_def)
  next
    case (TReconnectTimer p)
    then show ?thesis using full_reconnect_timer [OF v, of p env] ok(2) assms(3) by (auto simp: run_task_def)
  next
    case (TWatchTimer p)
    then show ?thesis using full_watch_timer [OF v, of p] ok(2) assms(3) by (auto simp: run_task_def)
  qed (use channel_task_run [OF ok(1) _ assms(3)] full_core_any [OF v] in \<open>auto simp: channel_task_def\<close>)
  then show "r \<noteq> HPanic" and "full_inv m ph w'" by auto
qed

end
