(* ===== verification/Running.thy ===== *)
theory Running
  imports Mcu_Steps
begin

text \<open>
  Every run of the transition system of \<open>System\<close>: which messages can end the process, that the
  invariant holds in every reachable state, what follows for members, lookups and disconnects, and a
  concrete run.
\<close>

section \<open>Which messages end the process\<close>

text \<open>The errors of the handlers carry error data, so that reporting them never dereferences nil.\<close>

definition error_with_data :: "handler_result \<Rightarrow> bool" where
  "error_with_data r \<longleftrightarrow> (case r of HErr (RTMErr e) \<Rightarrow> er_ErrorData e \<noteq> None | _ \<Rightarrow> True)"

lemma error_with_data_simps [simp]:
  "error_with_data HNil" "error_with_data HPanic" "error_with_data HBlocked" "error_with_data (HErr (GoErr s))"
  "error_with_data (HErr (RTMErr (NewRTMTypeError code text ref)))"
  "error_with_data (bad_message text ref)" "error_with_data (no_session text ref)"
  by (simp_all add: error_with_data_def NewRTMTypeError_def bad_message_def no_session_def)


lemma send_error_with_data [simp]: "error_with_data (fst (result_of_send r))"
  by (simp add: result_of_send_def split: prod.splits option.splits)


















section \<open>The invariant is inductive\<close>

lemma pump_core: "pump_receive wsErr (w_conns w c) = Some pr \<Longrightarrow> core_eq w (upd_conn c (\<lambda>_. pump_conn pr) w)"
  by (auto simp: pump_receive_def conn_Write_def core_eq_def split: list.splits if_splits option.splits)

lemma tick_core: "core_eq w (upd_conn c (\<lambda>_. pump_conn (pump_tick now wsErr (w_conns w c))) w)"
  by (simp add: pump_tick_def Let_def core_eq_def split: option.splits)

lemma pong_core: "pongHandler now payload (w_conns w c) = PongDone conn \<Longrightarrow> core_eq w (upd_conn c (\<lambda>_. conn) w)"
  by (auto simp: pongHandler_def Let_def core_eq_def split: if_splits option.splits)


lemma goodbye_core: "rtm_OnBeforeDisconnect c err w = (r, w') \<Longrightarrow> core_eq w w'"
  using core_send [of w c] by (auto simp: rtm_OnBeforeDisconnect_def split: option.splits dest: result_of_send_eq)

lemma status_core: "core_eq w (OnServerStatus new w)"
proof -
  have "core_eq w (setServerStatus new w)" by (simp add: setServerStatus_def core_eq_def)
  then show ?thesis
    by (simp add: OnServerStatus_def Let_def core_eq_trans [OF _ same_core_eq [OF send_all_same]])
qed

lemma server_inv_connect:
  assumes "server_inv ph w" and "HTTPConnectHandler env req w = (res, w')"
  shows "server_inv ph w'"
proof -
  obtain v where v: "core_eq w v" and out: "core_eq v w' \<or>
      (\<exists>user auth. user \<noteq> [] \<and> core_eq (snd (rtm_Connect (hv_rtm env) user auth v)) w')"
    using connect_outcome [OF assms(2)] by blast
  have inv: "server_inv ph v" by (rule server_inv_core [OF assms(1) v])
  have "server_inv ph (snd (rtm_Connect (hv_rtm env) user auth v))" if "user \<noteq> []" for user auth
  proof -
    have "table_frame v (snd (rtm_Connect (hv_rtm env) user auth v))"
      by (simp add: rtm_Connect_def Let_def table_frame_def)
    with inv that show ?thesis
      by (auto simp: server_inv_def intro: users_inv_Connect room_inv_frame [OF _ Connect_room_frame] channel_table_frame)
  qed
  with out inv server_inv_core show ?thesis by blast
qed

definition sys_inv :: "rtm_sys \<Rightarrow> bool" where
  "sys_inv s \<longleftrightarrow> full_inv (sy_mcu s) (sy_ph s) (sy_w s)"

lemma sys_inv_init: "rtm_init s \<Longrightarrow> sys_inv s"
  by (auto simp: rtm_init_def sys_inv_def full_inv_def server_inv_def users_inv_def room_inv_def mcu_inv_def channel_table_ok_def
      start_world_def rtm_NewManager_def conn_New_def live_def unclosed_def channel_member_def armed_def ring_ok_def gm_wf_def)

lemma sys_inv_core: "sys_inv s \<Longrightarrow> core_eq (sy_w s) w' \<Longrightarrow> sys_inv (s\<lparr>sy_w := w'\<rparr>)"
  using full_core_any by (simp add: sys_inv_def)

text \<open>The steps of the MCU; a connection of the MCU goes through its phases.\<close>

lemma full_mcu_serve:
  assumes "full_inv m ph w" and "m c = PhServing" and "mcu_served c w = (r, w')"
  shows "full_inv (m(c := PhOpen)) ph w'"
proof -
  have w': "w' = (if mcu_control c w then mcu_serve_begin c w else w)" using assms(3) by (simp add: mcu_served_def mcu_OnConnect_def)
  have ring: "ring_ok m w" using assms(1) by (simp add: full_inv_def mcu_inv_def)
  then have "c \<notin> set (mm_connections (w_mcu w))" using assms(2) by (simp add: ring_ok_def live_def)
  then have "ring_ok (m(c := PhOpen)) w'"
    using ring assms(2) by (auto simp: w' ring_ok_def mcu_serve_begin_def mcu_control_def live_def)
  then show ?thesis
    by (intro full_listed [OF assms(1)]) (simp_all add: assms(2) w' aside_def bound_user_def mcu_serve_begin_def)
qed

lemma full_mcu_finished:
  assumes "full_inv m ph w" and "m c = PhClosed"
  shows "full_inv (m(c := PhGone)) ph (mcu_finished c w)"
proof -
  have w': "mcu_finished c w = (if mcu_control c w then mcu_serve_end c w else w)" by (simp add: mcu_finished_def mcu_OnDisconnect_def)
  have ring: "ring_ok m w" using assms(1) by (simp add: full_inv_def mcu_inv_def)
  then have "ring_ok (m(c := PhGone)) (mcu_finished c w)"
    using assms(2) by (auto simp: w' ring_ok_def mcu_serve_end_def mcu_control_def live_def)
  then show ?thesis
    by (intro full_listed [OF assms(1)]) (simp_all add: assms(2) w' aside_def bound_user_def mcu_serve_end_def)
qed

lemma sys_inv_step:
  assumes "rtm_step s t" and "sys_inv s"
  shows "sys_inv t"
  using assms
proof (induction rule: rtm_step.induct)
  case (serve s c env r w')
  then have inv: "server_inv (sy_ph s) (sy_w s)" by (simp add: sys_inv_def full_inv_def)
  from server_inv_serve(1) [OF inv serve(2,3)] serve show ?case
    using full_serve [of "sy_mcu s" "sy_ph s" "sy_w s" c env r w'] by (auto simp: sys_inv_def)
next
  case (close s c now r w')
  then show ?case using full_close [of "sy_mcu s" "sy_ph s" "sy_w s" c now r w'] by (simp add: sys_inv_def)
next
  case (disconnect s c env r w')
  then show ?case using full_disconnect [of "sy_mcu s" "sy_ph s" "sy_w s" c env r w'] by (simp add: sys_inv_def)
next
  case (websocket s henv meth key up out w')
  then show ?case using full_websocket [of "sy_mcu s" "sy_ph s" "sy_w s" henv meth key up out w'] by (simp add: sys_inv_def)
next
  case (read_end s c)
  then show ?case using full_phase_end [of "sy_mcu s" "sy_ph s" "sy_w s" c] by (simp add: sys_inv_def)
next
  case (read_text s c env msg rr w')
  then show ?case using full_read [of "sy_mcu s" "sy_ph s" "sy_w s" c env msg rr w'] by (simp add: sys_inv_def)
next
  case (connect s henv req res w')
  then have "server_inv (sy_ph s) w'" using server_inv_connect by (auto simp: sys_inv_def full_inv_def)
  with connect show ?case using full_connect [of "sy_mcu s" "sy_ph s" "sy_w s" henv req res w'] by (simp add: sys_inv_def)
next
  case (turn s henv req res' w')
  then show ?case by (intro sys_inv_core turn_core)
next
  case (task s xs t ys env r w')
  then show ?case using full_task(2) [of "sy_mcu s" "sy_ph s" "sy_w s" xs t ys env r w'] by (simp add: sys_inv_def)
next
  case (pump s wsErr c pr)
  then show ?case by (intro sys_inv_core pump_core)
next
  case (tick s now wsErr c pr')
  then show ?case using tick_core [of "sy_w s" c now wsErr] by (auto intro: sys_inv_core)
next
  case (pong s c now payload conn)
  then show ?case by (intro sys_inv_core pong_core)
next
  case (pong_panic s c now payload)
  then show ?case by (simp add: sys_inv_def)
next
  case (goodbye s c err r w')
  then show ?case by (intro sys_inv_core goodbye_core)
next
  case (cleanup s now r w')
  then show ?case using full_cleanup [of "sy_mcu s" "sy_ph s" "sy_w s" now r w'] by (simp add: sys_inv_def)
next
  case (status s new)
  then show ?case by (intro sys_inv_core status_core)
next
  case (mcu_websocket s env meth transaction up out w')
  then show ?case using full_mcu_websocket [of "sy_mcu s" "sy_ph s" "sy_w s" env meth transaction up out w'] by (simp add: sys_inv_def)
next
  case (mcu_serve s c r w')
  then show ?case using full_mcu_serve [of "sy_mcu s" "sy_ph s" "sy_w s" c r w'] by (simp add: sys_inv_def)
next
  case (mcu_read_text s c msg rr w')
  then show ?case using full_mcu_text(1) [of "sy_mcu s" "sy_ph s" "sy_w s" c msg rr w'] full_mcu_moves [of "sy_mcu s" "sy_ph s" w' c]
    by (auto simp: sys_inv_def live_def phase_after_read_def split: read_result.splits)
next
  case (mcu_read_end s c)
  then show ?case using full_mcu_moves [of "sy_mcu s" "sy_ph s" "sy_w s" c] by (simp add: sys_inv_def live_def)
next
  case (mcu_close s c now r w')
  then have "sy_ph s c = PhNone" using mcu_invD(6) [of "sy_mcu s" "sy_ph s" "sy_w s" c] by (simp add: sys_inv_def full_inv_def)
  then show ?case
    using mcu_close full_close_conn [of "sy_mcu s" "sy_ph s" "sy_w s" c now r w'] full_mcu_moves [of "sy_mcu s" "sy_ph s" w' c]
    by (simp add: sys_inv_def live_def)
next
  case (mcu_disconnect s c)
  then show ?case using full_mcu_finished [of "sy_mcu s" "sy_ph s" "sy_w s" c] by (simp add: sys_inv_def)
next
  case (mcu_goodbye s c err r w')
  then show ?case by (simp add: mcu_OnBeforeDisconnect_def sys_inv_def)
next
  case (mcu_cleanup s now)
  then show ?case by (simp add: sys_inv_def full_purge)
qed

interpretation rtm_server: invariant_system rtm_init rtm_step sys_inv
  by unfold_locales (fact sys_inv_init, erule (1) sys_inv_step [rotated])

section \<open>Properties of every run\<close>

lemma reach_full_inv: "reach rtm_init rtm_step s \<Longrightarrow> full_inv (sy_mcu s) (sy_ph s) (sy_w s)"
  using rtm_server.reach_inv by (simp add: sys_inv_def)

lemma reach_server_inv: "reach rtm_init rtm_step s \<Longrightarrow> server_inv (sy_ph s) (sy_w s)"
  using reach_full_inv by (simp add: full_inv_def)

text \<open>
  C7. In every state the server can reach, whoever a channel lists is who the list says and is there: the
  connection is bound to the user record of the id it is listed under, it is not finished, and it is
  open, with one exception. A connection whose goroutine is stuck for ever (phase \<open>PhStuck\<close>: it waits
  for the lock of a channel that \<open>Add\<close> leaked) may be closed and stays listed.
\<close>

theorem members_are_live:
  assumes "reach rtm_init rtm_step s" and "channel_member h (sy_w s) uid = Some c"
  shows "active (sy_ph s c) \<and> known_user (sy_w s) c uid \<and>
    (sy_ph s c = PhStuck \<or> \<not> cn_closed (w_conns (sy_w s) c))"
proof -
  have inv: "room_inv (sy_ph s) (sy_w s)" using reach_server_inv [OF assms(1)] by (simp add: server_inv_def)
  have "member_ok (sy_ph s) (sy_w s) h uid c" by (rule room_invD(4) [OF inv assms(2)])
  then show ?thesis
    using room_invD(3) [OF inv, of c] by (auto simp: member_ok_def active_def unclosed_def)
qed

lemma lookup_exact:
  assumes "users_inv ph w"
  shows "(\<exists>ds. LookupConnectionsByID uid w = Some ds \<and> c \<in> set ds) \<longleftrightarrow> live (ph c) \<and> known_user w c uid"
proof
  assume "\<exists>ds. LookupConnectionsByID uid w = Some ds \<and> c \<in> set ds"
  then obtain u where u: "gm_get (rm_users (w_rtm w)) uid = Some u" "c \<in> set (ur_connections (w_users w u))"
    by (auto simp: LookupConnectionsByID_def lookupUserEntryByID_def)
  have "user_entry_ok ph w uid u" by (rule users_invD(3) [OF assms map_of_SomeD [OF u(1)]])
  with u(2) have c: "live (ph c)" "cn_binder (w_conns w c) = Some (BoundUser u)" "u < w_next w" "ur_id (w_users w u) = uid"
    by (auto simp: user_entry_ok_def)
  then have "c < w_next w" by (intro live_below [OF assms]) (auto simp: live_def)
  with c show "live (ph c) \<and> known_user w c uid" by (simp add: known_user_def bound_user_def)
next
  assume a: "live (ph c) \<and> known_user w c uid"
  then obtain u where u: "cn_binder (w_conns w c) = Some (BoundUser u)" "(ur_id (w_users w u), u) \<in> set (rm_users (w_rtm w))"
      "c \<in> set (ur_connections (w_users w u))"
    using users_invD(4) [OF assms, of c] by (auto simp: live_conn_ok_def)
  then have "gm_get (rm_users (w_rtm w)) uid = Some u"
    using a users_invD(1) [OF assms] by (auto simp: known_user_def bound_user_def gm_wf_def)
  then show "\<exists>ds. LookupConnectionsByID uid w = Some ds \<and> c \<in> set ds"
    using u(3) by (simp add: LookupConnectionsByID_def lookupUserEntryByID_def)
qed

text \<open>
  C9. In every state the server can reach, looking up the connections of an id finds exactly the live
  connections that are bound to a user record of that id: none is missing and none of another user or
  of a finished connection is found.
\<close>

theorem lookup_finds_live_connections:
  assumes "reach rtm_init rtm_step s"
  shows "(\<exists>ds. LookupConnectionsByID uid (sy_w s) = Some ds \<and> c \<in> set ds) \<longleftrightarrow>
    live (sy_ph s c) \<and> known_user (sy_w s) c uid"
  by (rule lookup_exact) (use reach_server_inv [OF assms] in \<open>simp add: server_inv_def\<close>)




lemma closed_cbs_unlocked:
  assumes "\<forall>h. \<not> ch_locked (w_chans w h)" and "\<forall>cb \<in> set cbs. \<exists>h uid. cb = CbChannelRemove h uid c"
  shows "fst (run_closed_cbs c cbs w) = HNil"
  using assms
proof (induction cbs arbitrary: w)
  case (Cons cb cbs)
  obtain h uid where cb: "cb = CbChannelRemove h uid c" using Cons.prems(2) by auto
  have "ch_locked (w_chans (snd (channel_remove h uid (Some c) w)) g) = ch_locked (w_chans w g)" for g
    by (simp add: channel_remove_def Let_def split: option.splits)
  with Cons show ?case by (simp add: cb run_closed_cb_def)
qed simp

lemma close_conn_unlocked:
  assumes "room_inv ph w" and "ph c \<noteq> PhNone" and "\<forall>h. \<not> ch_locked (w_chans w h)"
  shows "fst (close_conn now c w) = HNil"
  using closed_cbs_unlocked [of "upd_conn c (\<lambda>_. snd (conn_Close now (w_conns w c))) w" "fst (conn_Close now (w_conns w c))" c]
    assms(3) cb_ok_client [OF room_invD(2) [OF assms(1)] assms(2)]
  by (cases "conn_Close now (w_conns w c)") (auto simp: close_conn_def conn_Close_def split: if_splits)

text \<open>
  C10. A client can always leave: from every reachable state of a running server in which no channel lock is
  leaked, the end of an open connection's read pump leads, by steps of its own goroutine, to one state
  where the connection is done, no channel lists it under any id, and the lookup of no id finds it.
\<close>

theorem connection_can_leave:
  assumes "reach rtm_init rtm_step s" and "\<not> sy_crashed s" and "sy_ph s c = PhOpen"
    and "\<forall>h. \<not> ch_locked (w_chans (sy_w s) h)"
  shows "\<exists>t. rtm_step\<^sup>*\<^sup>* s t \<and> sy_ph t c = PhGone \<and> \<not> sy_crashed t \<and>
    (\<forall>h uid. channel_member h (sy_w t) uid \<noteq> Some c) \<and>
    (\<forall>uid ds. LookupConnectionsByID uid (sy_w t) = Some ds \<longrightarrow> c \<notin> set ds)"
proof -
  define s1 where "s1 = s\<lparr>sy_ph := (sy_ph s)(c := PhEnding)\<rparr>"
  have r1: "rtm_step s s1" unfolding s1_def by (rule rtm_step.read_end) (use assms in simp_all)
  have inv1: "server_inv (sy_ph s1) (sy_w s1)"
    using reach_server_inv [OF next_step [OF assms(1) r1]] .
  obtain w1 where w1: "close_conn 0 c (sy_w s1) = (HNil, w1)"
    using close_conn_unlocked [of "sy_ph s1" "sy_w s1" c 0] inv1 assms(4)
    by (cases "close_conn 0 c (sy_w s1)") (auto simp: server_inv_def s1_def)
  define s2 where "s2 = s1\<lparr>sy_w := w1, sy_ph := (sy_ph s1)(c := (if HNil = HNil then PhClosed else PhStuck))\<rparr>"
  have r2: "rtm_step s1 s2" unfolding s2_def by (rule rtm_step.close [OF _ _ w1]) (use assms in \<open>simp_all add: s1_def\<close>)
  have inv2: "server_inv (sy_ph s2) (sy_w s2)"
    using reach_server_inv [OF next_step [OF next_step [OF assms(1) r1] r2]] .
  obtain r w2 where w2: "rtm_OnDisconnect example_env c (sy_w s2) = (r, w2)" by fastforce
  have r: "r = HNil" by (rule server_inv_disconnect(1) [OF inv2 _ w2]) (simp add: s2_def)
  define t where "t = s2\<lparr>sy_w := rtm_serve_end c w2, sy_ph := (sy_ph s2)(c := PhGone), sy_crashed := (r = HPanic)\<rparr>"
  have r3: "rtm_step s2 t" unfolding t_def
    by (rule rtm_step.disconnect [OF _ _ w2]) (use assms(2) in \<open>simp_all add: s1_def s2_def\<close>)
  have reach_t: "reach rtm_init rtm_step t" by (rule next_step [OF next_step [OF next_step [OF assms(1) r1] r2] r3])
  have t: "sy_ph t c = PhGone" "\<not> sy_crashed t" by (simp_all add: t_def r)
  have inv: "users_inv (sy_ph t) (sy_w t)" "room_inv (sy_ph t) (sy_w t)"
    using reach_server_inv [OF reach_t] by (simp_all add: server_inv_def)
  have "channel_member h (sy_w t) uid \<noteq> Some c" for h uid
    using room_invD(4) [OF inv(2), of h uid c] t(1) by (auto simp: member_ok_def active_def)
  moreover have "\<not> (\<exists>ds. LookupConnectionsByID uid (sy_w t) = Some ds \<and> c \<in> set ds)" for uid
    unfolding lookup_exact [OF inv(1)] by (simp add: t(1) live_def)
  moreover have "rtm_step\<^sup>*\<^sup>* s t" using r1 r2 r3 by (meson rtranclp.rtrancl_into_rtrancl rtranclp.rtrancl_refl)
  ultimately show ?thesis using t by blast
qed

section \<open>A run\<close>

text \<open>Bob connects, upgrades to a websocket, is served and joins the group g; then he sends a chat message with null data.\<close>

definition bob_connected :: world where
  "bob_connected = snd (HTTPConnectHandler example_http_env example_basic_request example_basic_world)"

definition bob_upgraded :: world where
  "bob_upgraded = snd (rtm_HTTPWebsocketHandler example_http_env ''GET'' (Some ''rnd'') (Upgraded []) bob_connected)"

definition bob_served :: world where
  "bob_served = snd (rtm_OnConnect example_env 1 (rtm_serve_begin 1 bob_upgraded))"

definition join_text :: json where
  "join_text = JObj [(''type'', JStr ''webrtc''), (''subtype'', JStr ''webrtc_group''), (''target'', JStr ''g''),
     (''group'', JStr ''g''), (''state'', JStr ''s'')]"


definition bob_joined :: world where
  "bob_joined = snd (readPump_text example_env 1 (Some join_text) bob_served)"

definition run_state :: "world \<Rightarrow> phase \<Rightarrow> rtm_sys" where
  "run_state w p = \<lparr>sy_w = w, sy_ph = (\<lambda>c. if c = 1 then p else PhNone), sy_mcu = (\<lambda>_. PhNone), sy_crashed = False\<rparr>"

lemma run_state_sel [simp]:
  "sy_w (run_state w p) = w" "sy_ph (run_state w p) 1 = p" "sy_ph (run_state w p) (Suc 0) = p" "\<not> sy_crashed (run_state w p)"
  by (simp_all add: run_state_def)

lemma run_state_upd: "(run_state w p)\<lparr>sy_w := v, sy_ph := (sy_ph (run_state w p))(1 := q)\<rparr> = run_state v q"
  by (simp add: run_state_def fun_eq_iff)

lemma rtm_next: "reach rtm_init rtm_step s \<Longrightarrow> rtm_step s t \<Longrightarrow> reach rtm_init rtm_step t"
  by (rule next_step)

lemma bob_init: "reach rtm_init rtm_step (run_state example_basic_world PhNone)"
  by (rule reach.intros(1), unfold rtm_init_def run_state_def example_basic_world_def example_rtm_def, intro exI) simp

lemma bob_connects: "reach rtm_init rtm_step (run_state bob_connected PhNone)"
proof -
  have "rtm_step (run_state example_basic_world PhNone) ((run_state example_basic_world PhNone)\<lparr>sy_w := bob_connected\<rparr>)"
    unfolding bob_connected_def
    by (rule rtm_step.connect [where henv = example_http_env and req = example_basic_request
          and res = "fst (HTTPConnectHandler example_http_env example_basic_request example_basic_world)"]) simp_all
  from rtm_next [OF bob_init this] show ?thesis by (simp add: run_state_def)
qed

lemma bob_upgrades: "reach rtm_init rtm_step (run_state bob_upgraded PhServing)"
proof -
  let ?o = "fst (rtm_HTTPWebsocketHandler example_http_env ''GET'' (Some ''rnd'') (Upgraded []) bob_connected)"
  have c: "wo_conn ?o = Some 1" by code_simp
  have "rtm_step (run_state bob_connected PhNone) ((run_state bob_connected PhNone)\<lparr>sy_w := bob_upgraded,
      sy_ph := (case wo_conn ?o of None \<Rightarrow> sy_ph (run_state bob_connected PhNone)
        | Some c \<Rightarrow> (sy_ph (run_state bob_connected PhNone))(c := PhServing))\<rparr>)"
    unfolding bob_upgraded_def
    by (rule rtm_step.websocket [where henv = example_http_env and meth = "''GET''" and key = "Some ''rnd''" and up = "Upgraded []"])
      simp_all
  from rtm_next [OF bob_connects this] show ?thesis unfolding c option.case run_state_upd .
qed

lemma bob_is_served: "reach rtm_init rtm_step (run_state bob_served PhOpen)"
proof -
  have r: "fst (rtm_OnConnect example_env 1 (rtm_serve_begin 1 bob_upgraded)) = HNil" by code_simp
  then have run: "rtm_OnConnect example_env 1 (rtm_serve_begin 1 bob_upgraded) = (HNil, bob_served)"
    by (simp add: bob_served_def prod_eq_iff)
  have "rtm_step (run_state bob_upgraded PhServing) ((run_state bob_upgraded PhServing)\<lparr>sy_w := bob_served,
      sy_ph := (sy_ph (run_state bob_upgraded PhServing))(1 := (if HNil = HBlocked then PhStuck else PhOpen)),
      sy_crashed := (HNil = HPanic)\<rparr>)"
    by (rule rtm_step.serve [where env = example_env]) (simp_all add: run [simplified])
  moreover have "(run_state bob_upgraded PhServing)\<lparr>sy_w := bob_served,
      sy_ph := (sy_ph (run_state bob_upgraded PhServing))(1 := (if HNil = HBlocked then PhStuck else PhOpen)),
      sy_crashed := (HNil = HPanic)\<rparr> = run_state bob_served PhOpen"
    by (simp add: run_state_def fun_eq_iff)
  ultimately show ?thesis using rtm_next [OF bob_upgrades] by simp
qed

lemma bob_joins: "reach rtm_init rtm_step (run_state bob_joined PhOpen)"
proof -
  have r: "fst (readPump_text example_env 1 (Some join_text) bob_served) = ReadOn" by code_simp
  then have run: "readPump_text example_env 1 (Some join_text) bob_served = (ReadOn, bob_joined)"
    by (simp add: bob_joined_def prod_eq_iff)
  have "rtm_step (run_state bob_served PhOpen) ((run_state bob_served PhOpen)\<lparr>sy_w := bob_joined,
      sy_ph := (sy_ph (run_state bob_served PhOpen))(1 := phase_after_read ReadOn), sy_crashed := (ReadOn = ReadPanic)\<rparr>)"
    by (rule rtm_step.read_text [where env = example_env and msg = "Some join_text"]) (simp_all add: run [simplified])
  moreover have "(run_state bob_served PhOpen)\<lparr>sy_w := bob_joined,
      sy_ph := (sy_ph (run_state bob_served PhOpen))(1 := phase_after_read ReadOn), sy_crashed := (ReadOn = ReadPanic)\<rparr> =
      run_state bob_joined PhOpen"
    by (simp add: run_state_def fun_eq_iff phase_after_read_def)
  ultimately show ?thesis using rtm_next [OF bob_is_served] by simp
qed

lemma bob_member: "channel_member 2 bob_joined ''bob'' = Some 1"
  by code_simp

lemma bob_joined_unlocked: "\<not> ch_locked (w_chans bob_joined h)"
  by code_simp simp

theorem connection_can_leave_witness:
  "channel_member 2 bob_joined ''bob'' = Some 1 \<and>
   (\<exists>t. rtm_step\<^sup>*\<^sup>* (run_state bob_joined PhOpen) t \<and> sy_ph t 1 = PhGone \<and>
     (\<forall>h uid. channel_member h (sy_w t) uid \<noteq> Some 1))"
proof -
  have "\<exists>t. rtm_step\<^sup>*\<^sup>* (run_state bob_joined PhOpen) t \<and> sy_ph t 1 = PhGone \<and> \<not> sy_crashed t \<and>
      (\<forall>h uid. channel_member h (sy_w t) uid \<noteq> Some 1) \<and>
      (\<forall>uid ds. LookupConnectionsByID uid (sy_w t) = Some ds \<longrightarrow> 1 \<notin> set ds)"
    by (rule connection_can_leave [OF bob_joins]) (simp_all only: run_state_sel bob_joined_unlocked not_False_eq_True simp_thms)
  with bob_member show ?thesis by (elim exE conjE) (intro exI conjI)
qed

theorem members_are_live_witness: "known_user bob_joined 1 ''bob''"
  using members_are_live [OF bob_joins, of 2 "''bob''" 1] bob_member by simp

theorem lookup_finds_live_connections_witness:
  "\<exists>ds. LookupConnectionsByID ''bob'' bob_joined = Some ds \<and> 1 \<in> set ds"
proof -
  have "known_user bob_joined 1 ''bob''" by code_simp
  then show ?thesis
    using lookup_finds_live_connections [OF bob_joins, of "''bob''" 1] by (simp add: live_def)
qed



end
