(* ===== verification/User_Locks.thy ===== *)
theory User_Locks
  imports Rtm_Manager
begin

text \<open>
  \<open>OnConnect\<close>, \<open>OnDisconnect\<close> (\<open>src/signaling/rtm/events.go\<close>) and \<open>purgeInactiveUsers\<close>
  (\<open>src/signaling/rtm/manager.go\<close>) as sequences of the lock operations they perform on the user table
  and the user records, interleaved by any number of goroutines. The user table is a concurrent map:
  keys are spread over shards, a shard is locked while an entry is updated, and \<open>Upsert\<close> runs its
  callback while the shard is locked. The spreading is an argument. Lookups and metrics take one lock at
  a time and are left out; that the collector of the metrics waits for a locked shard is in \<open>Metrics\<close>. Times and the ids of users are arbitrary.

  Shown: a connected user stays listed in every interleaving, the goroutines can always move on unless
  the purge waits for a shard, and there they can lock each other out for ever.
\<close>

section \<open>States and steps\<close>

text \<open>
  Program counters: \<open>K_\<close> inside \<open>OnConnect\<close>, \<open>D_\<close> inside \<open>OnDisconnect\<close>, \<open>P_\<close> inside the purge. One number
  stands for a connection and for the record its connect key came with. \<open>K_Own\<close> holds the lock of the
  own record; from \<open>K_Shard\<close> on the shard is locked as well; \<open>K_Found\<close> waits for the record in the
  table, \<open>K_In\<close> holds it, \<open>K_Bound\<close> has released it; \<open>K_Stored\<close> has left the shard.
\<close>

datatype users_pc =
    UIdle
  | K_Own conn_ref | K_Shard conn_ref | K_Found conn_ref user_ref | K_In conn_ref user_ref | K_Bound conn_ref | K_Stored conn_ref
  | D_Shard conn_ref | D_Found conn_ref user_ref | D_In conn_ref user_ref | D_Left conn_ref
  | P_Scan time "user_ref list" "user_ref list" | P_Want time user_ref "user_ref list" "user_ref list"
  | P_Look time user_ref "user_ref list" "user_ref list"
  | P_Purge "user_ref list" | P_In user_ref "user_ref list" | P_Remove user_ref "user_ref list" | P_Removed user_ref "user_ref list"

record users_locks =
  ul_pc :: "nat \<Rightarrow> users_pc"
  ul_shard :: "nat \<Rightarrow> nat option"
  ul_rec :: "user_ref \<Rightarrow> nat option"
  ul_table :: "string \<Rightarrow> user_ref option"
  ul_id :: "user_ref \<Rightarrow> string"
  ul_conns :: "user_ref \<Rightarrow> conn_ref list"
  ul_exit :: "user_ref \<Rightarrow> time"
  ul_next :: nat
  ul_open :: "conn_ref set"

definition users_locks_init :: "users_locks \<Rightarrow> bool" where
  "users_locks_init s \<longleftrightarrow> s = \<lparr>ul_pc = (\<lambda>_. UIdle), ul_shard = (\<lambda>_. None), ul_rec = (\<lambda>_. None), ul_table = (\<lambda>_. None),
     ul_id = (\<lambda>_. []), ul_conns = (\<lambda>_. []), ul_exit = (\<lambda>_. zero_time), ul_next = 0, ul_open = {}\<rparr>"

text \<open>\<open>OnConnect\<close> of goroutine \<open>i\<close>.\<close>

inductive connect_lock_step :: "(string \<Rightarrow> nat) \<Rightarrow> nat \<Rightarrow> users_locks \<Rightarrow> users_locks \<Rightarrow> bool" for sh i where
  connect_start: "ul_pc s i = UIdle \<Longrightarrow> n = ul_next s \<Longrightarrow>
    connect_lock_step sh i s (s\<lparr>ul_pc := (ul_pc s)(i := K_Own n), ul_rec := (ul_rec s)(n := Some i), ul_id := (ul_id s)(n := k),
      ul_next := Suc n\<rparr>)"
| connect_shard: "ul_pc s i = K_Own n \<Longrightarrow> ul_shard s (sh (ul_id s n)) = None \<Longrightarrow>
    connect_lock_step sh i s (s\<lparr>ul_pc := (ul_pc s)(i := K_Shard n), ul_shard := (ul_shard s)(sh (ul_id s n) := Some i)\<rparr>)"
| connect_first: "ul_pc s i = K_Shard n \<Longrightarrow> ul_table s (ul_id s n) = None \<Longrightarrow>
    connect_lock_step sh i s (s\<lparr>ul_pc := (ul_pc s)(i := K_Bound n), ul_conns := (ul_conns s)(n := ul_conns s n @ [n]),
      ul_table := (ul_table s)(ul_id s n := Some n)\<rparr>)"
| connect_found: "ul_pc s i = K_Shard n \<Longrightarrow> ul_table s (ul_id s n) = Some u \<Longrightarrow>
    connect_lock_step sh i s (s\<lparr>ul_pc := (ul_pc s)(i := K_Found n u)\<rparr>)"
| connect_lock: "ul_pc s i = K_Found n u \<Longrightarrow> ul_rec s u = None \<Longrightarrow>
    connect_lock_step sh i s (s\<lparr>ul_pc := (ul_pc s)(i := K_In n u), ul_rec := (ul_rec s)(u := Some i)\<rparr>)"
| connect_again: "ul_pc s i = K_In n u \<Longrightarrow>
    connect_lock_step sh i s (s\<lparr>ul_pc := (ul_pc s)(i := K_Bound n), ul_conns := (ul_conns s)(u := ul_conns s u @ [n]),
      ul_rec := (ul_rec s)(u := None)\<rparr>)"
| connect_unshard: "ul_pc s i = K_Bound n \<Longrightarrow>
    connect_lock_step sh i s (s\<lparr>ul_pc := (ul_pc s)(i := K_Stored n), ul_shard := (ul_shard s)(sh (ul_id s n) := None)\<rparr>)"
| connect_end: "ul_pc s i = K_Stored n \<Longrightarrow>
    connect_lock_step sh i s (s\<lparr>ul_pc := (ul_pc s)(i := UIdle), ul_rec := (ul_rec s)(n := None), ul_open := insert n (ul_open s)\<rparr>)"

text \<open>\<open>OnDisconnect\<close> of goroutine \<open>i\<close>. For a user without an entry it stores an empty record; the
  step that copies the other connections is possible only if they fill the new slice exactly.\<close>

inductive disconnect_lock_step :: "(string \<Rightarrow> nat) \<Rightarrow> nat \<Rightarrow> users_locks \<Rightarrow> users_locks \<Rightarrow> bool" for sh i where
  disconnect_start: "ul_pc s i = UIdle \<Longrightarrow> n \<in> ul_open s \<Longrightarrow> ul_shard s (sh (ul_id s n)) = None \<Longrightarrow>
    disconnect_lock_step sh i s (s\<lparr>ul_pc := (ul_pc s)(i := D_Shard n), ul_shard := (ul_shard s)(sh (ul_id s n) := Some i),
      ul_open := ul_open s - {n}\<rparr>)"
| disconnect_missing: "ul_pc s i = D_Shard n \<Longrightarrow> ul_table s (ul_id s n) = None \<Longrightarrow> m = ul_next s \<Longrightarrow>
    disconnect_lock_step sh i s (s\<lparr>ul_pc := (ul_pc s)(i := D_Left n), ul_table := (ul_table s)(ul_id s n := Some m),
      ul_id := (ul_id s)(m := k), ul_next := Suc m\<rparr>)"
| disconnect_found: "ul_pc s i = D_Shard n \<Longrightarrow> ul_table s (ul_id s n) = Some u \<Longrightarrow>
    disconnect_lock_step sh i s (s\<lparr>ul_pc := (ul_pc s)(i := D_Found n u)\<rparr>)"
| disconnect_lock: "ul_pc s i = D_Found n u \<Longrightarrow> ul_rec s u = None \<Longrightarrow>
    disconnect_lock_step sh i s (s\<lparr>ul_pc := (ul_pc s)(i := D_In n u), ul_rec := (ul_rec s)(u := Some i)\<rparr>)"
| disconnect_leave: "ul_pc s i = D_In n u \<Longrightarrow> left = filter (\<lambda>d. d \<noteq> n) (ul_conns s u) \<Longrightarrow>
      length (ul_conns s u) = Suc (length left) \<Longrightarrow>
    disconnect_lock_step sh i s (s\<lparr>ul_pc := (ul_pc s)(i := D_Left n), ul_conns := (ul_conns s)(u := left),
      ul_exit := (ul_exit s)(u := (if left = [] then now else ul_exit s u)), ul_rec := (ul_rec s)(u := None)\<rparr>)"
| disconnect_end: "ul_pc s i = D_Left n \<Longrightarrow>
    disconnect_lock_step sh i s (s\<lparr>ul_pc := (ul_pc s)(i := UIdle), ul_shard := (ul_shard s)(sh (ul_id s n) := None)\<rparr>)"

text \<open>
  The purge runs in the cleanup goroutine, number 0: it looks at records of the table and then visits
  those it found inactive a second time. \<open>IterBuffered\<close> yields a snapshot of the table, which holds no shard
  while the loop runs; records leave the table only in the purge itself, so a record of the snapshot is in
  the table when the loop comes to it, and a record that is not in the snapshot is one that the scan does
  not visit. \<open>Remove\<close> locks the shard for the one assignment.
\<close>

inductive purge_lock_step :: "(string \<Rightarrow> nat) \<Rightarrow> users_locks \<Rightarrow> users_locks \<Rightarrow> bool" for sh where
  purge_start: "ul_pc s 0 = UIdle \<Longrightarrow> purge_lock_step sh s (s\<lparr>ul_pc := (ul_pc s)(0 := P_Scan deadline [] [])\<rparr>)"
| purge_next: "ul_pc s 0 = P_Scan d seen old \<Longrightarrow> ul_table s k = Some u \<Longrightarrow> u \<notin> set seen \<Longrightarrow>
    purge_lock_step sh s (s\<lparr>ul_pc := (ul_pc s)(0 := P_Want d u seen old)\<rparr>)"
| purge_see: "ul_pc s 0 = P_Want d u seen old \<Longrightarrow> ul_rec s u = None \<Longrightarrow>
    purge_lock_step sh s (s\<lparr>ul_pc := (ul_pc s)(0 := P_Look d u seen old), ul_rec := (ul_rec s)(u := Some 0)\<rparr>)"
| purge_look: "ul_pc s 0 = P_Look d u seen old \<Longrightarrow>
    purge_lock_step sh s (s\<lparr>ul_pc := (ul_pc s)(0 := P_Scan d (u # seen)
        (if ul_conns s u = [] \<and> ul_exit s u < d then old @ [u] else old)), ul_rec := (ul_rec s)(u := None)\<rparr>)"
| purge_scanned: "ul_pc s 0 = P_Scan d seen old \<Longrightarrow> purge_lock_step sh s (s\<lparr>ul_pc := (ul_pc s)(0 := P_Purge old)\<rparr>)"
| purge_lock: "ul_pc s 0 = P_Purge (u # us) \<Longrightarrow> ul_rec s u = None \<Longrightarrow>
    purge_lock_step sh s (s\<lparr>ul_pc := (ul_pc s)(0 := P_In u us), ul_rec := (ul_rec s)(u := Some 0)\<rparr>)"
| purge_keep: "ul_pc s 0 = P_In u us \<Longrightarrow> ul_conns s u \<noteq> [] \<Longrightarrow>
    purge_lock_step sh s (s\<lparr>ul_pc := (ul_pc s)(0 := P_Purge us), ul_rec := (ul_rec s)(u := None)\<rparr>)"
| purge_check: "ul_pc s 0 = P_In u us \<Longrightarrow> ul_conns s u = [] \<Longrightarrow>
    purge_lock_step sh s (s\<lparr>ul_pc := (ul_pc s)(0 := P_Remove u us)\<rparr>)"
| purge_remove: "ul_pc s 0 = P_Remove u us \<Longrightarrow> ul_shard s (sh (ul_id s u)) = None \<Longrightarrow>
    purge_lock_step sh s (s\<lparr>ul_pc := (ul_pc s)(0 := P_Removed u us), ul_table := (ul_table s)(ul_id s u := None)\<rparr>)"
| purge_unlock: "ul_pc s 0 = P_Removed u us \<Longrightarrow>
    purge_lock_step sh s (s\<lparr>ul_pc := (ul_pc s)(0 := P_Purge us), ul_rec := (ul_rec s)(u := None)\<rparr>)"
| purge_end: "ul_pc s 0 = P_Purge [] \<Longrightarrow> purge_lock_step sh s (s\<lparr>ul_pc := (ul_pc s)(0 := UIdle)\<rparr>)"

definition users_lock_step :: "(string \<Rightarrow> nat) \<Rightarrow> users_locks \<Rightarrow> users_locks \<Rightarrow> bool" where
  "users_lock_step sh s t \<longleftrightarrow> (\<exists>i > 0. connect_lock_step sh i s t \<or> disconnect_lock_step sh i s t) \<or> purge_lock_step sh s t"

section \<open>The invariant\<close>

text \<open>The records and the shard a goroutine has locked, by its program counter.\<close>

fun holds :: "users_pc \<Rightarrow> user_ref set" where
  "holds (K_Own n) = {n}"
| "holds (K_Shard n) = {n}"
| "holds (K_Found n u) = {n}"
| "holds (K_In n u) = {n, u}"
| "holds (K_Bound n) = {n}"
| "holds (K_Stored n) = {n}"
| "holds (D_In n u) = {u}"
| "holds (P_Look d u seen old) = {u}"
| "holds (P_In u us) = {u}"
| "holds (P_Remove u us) = {u}"
| "holds (P_Removed u us) = {u}"
| "holds pc = {}"

fun shard_for :: "users_pc \<Rightarrow> conn_ref option" where
  "shard_for (K_Shard n) = Some n"
| "shard_for (K_Found n u) = Some n"
| "shard_for (K_In n u) = Some n"
| "shard_for (K_Bound n) = Some n"
| "shard_for (D_Shard n) = Some n"
| "shard_for (D_Found n u) = Some n"
| "shard_for (D_In n u) = Some n"
| "shard_for (D_Left n) = Some n"
| "shard_for pc = None"

text \<open>The connection a goroutine connects or disconnects.\<close>

fun about :: "users_pc \<Rightarrow> conn_ref option" where
  "about (K_Own n) = Some n"
| "about (K_Stored n) = Some n"
| "about pc = shard_for pc"

text \<open>What the program counter of a goroutine says about the table.\<close>

definition in_table :: "users_locks \<Rightarrow> user_ref \<Rightarrow> bool" where
  "in_table s u \<longleftrightarrow> ul_table s (ul_id s u) = Some u"

definition listed :: "users_locks \<Rightarrow> conn_ref \<Rightarrow> user_ref \<Rightarrow> bool" where
  "listed s n u \<longleftrightarrow> ul_table s (ul_id s n) = Some u \<and> n \<in> set (ul_conns s u)"

definition registered :: "users_locks \<Rightarrow> conn_ref \<Rightarrow> bool" where
  "registered s n \<longleftrightarrow> n < ul_next s \<and> (\<exists>u. listed s n u)"

definition pending :: "users_locks \<Rightarrow> conn_ref \<Rightarrow> bool" where
  "pending s n \<longleftrightarrow> n < ul_next s \<and> ul_conns s n = [] \<and> \<not> in_table s n \<and> (\<forall>u. n \<notin> set (ul_conns s u))"

fun pc_ok :: "users_locks \<Rightarrow> users_pc \<Rightarrow> bool" where
  "pc_ok s UIdle = True"
| "pc_ok s (K_Own n) = pending s n"
| "pc_ok s (K_Shard n) = pending s n"
| "pc_ok s (K_Found n u) = (pending s n \<and> ul_table s (ul_id s n) = Some u)"
| "pc_ok s (K_In n u) = (pending s n \<and> ul_table s (ul_id s n) = Some u)"
| "pc_ok s (K_Bound n) = registered s n"
| "pc_ok s (K_Stored n) = registered s n"
| "pc_ok s (D_Shard n) = registered s n"
| "pc_ok s (D_Found n u) = (n < ul_next s \<and> listed s n u)"
| "pc_ok s (D_In n u) = (n < ul_next s \<and> listed s n u)"
| "pc_ok s (D_Left n) = (n < ul_next s)"
| "pc_ok s (P_Scan d seen old) = (distinct old \<and> set old \<subseteq> set seen \<and> (\<forall>u \<in> set old. in_table s u))"
| "pc_ok s (P_Want d u seen old) = (distinct old \<and> set old \<subseteq> set seen \<and> u \<notin> set seen \<and> in_table s u \<and> (\<forall>u \<in> set old. in_table s u))"
| "pc_ok s (P_Look d u seen old) = (distinct old \<and> set old \<subseteq> set seen \<and> u \<notin> set seen \<and> in_table s u \<and> (\<forall>u \<in> set old. in_table s u))"
| "pc_ok s (P_Purge us) = (distinct us \<and> (\<forall>u \<in> set us. in_table s u))"
| "pc_ok s (P_In u us) = (distinct (u # us) \<and> (\<forall>v \<in> set (u # us). in_table s v))"
| "pc_ok s (P_Remove u us) = (distinct (u # us) \<and> ul_conns s u = [] \<and> (\<forall>v \<in> set (u # us). in_table s v))"
| "pc_ok s (P_Removed u us) = (u < ul_next s \<and> distinct (u # us) \<and> (\<forall>v \<in> set us. in_table s v))"

definition table_ok :: "users_locks \<Rightarrow> bool" where
  "table_ok s \<longleftrightarrow>
     (\<forall>k u. ul_table s k = Some u \<longrightarrow> ul_id s u = k \<and> u < ul_next s) \<and>
     (\<forall>u. ul_conns s u \<noteq> [] \<longrightarrow> in_table s u) \<and>
     (\<forall>u. distinct (ul_conns s u) \<and> (\<forall>m \<in> set (ul_conns s u). m < ul_next s)) \<and>
     (\<forall>n \<in> ul_open s. registered s n)"

definition owns :: "(string \<Rightarrow> nat) \<Rightarrow> (conn_ref \<Rightarrow> string) \<Rightarrow> users_pc \<Rightarrow> nat \<Rightarrow> bool" where
  "owns sh ids pc x \<longleftrightarrow> (case shard_for pc of None \<Rightarrow> False | Some n \<Rightarrow> sh (ids n) = x)"

definition locks_ok :: "(string \<Rightarrow> nat) \<Rightarrow> users_locks \<Rightarrow> bool" where
  "locks_ok sh s \<longleftrightarrow>
     (\<forall>u i. ul_rec s u = Some i \<longleftrightarrow> u \<in> holds (ul_pc s i)) \<and>
     (\<forall>x i. ul_shard s x = Some i \<longleftrightarrow> owns sh (ul_id s) (ul_pc s i) x)"

definition one_owner :: "users_locks \<Rightarrow> bool" where
  "one_owner s \<longleftrightarrow> (\<forall>i j n. about (ul_pc s i) = Some n \<longrightarrow> about (ul_pc s j) = Some n \<longrightarrow> i = j) \<and>
     (\<forall>i n. about (ul_pc s i) = Some n \<longrightarrow> n \<notin> ul_open s)"

definition users_lock_inv :: "(string \<Rightarrow> nat) \<Rightarrow> users_locks \<Rightarrow> bool" where
  "users_lock_inv sh s \<longleftrightarrow> table_ok s \<and> locks_ok sh s \<and> one_owner s \<and> (\<forall>i. pc_ok s (ul_pc s i)) \<and>
     (\<forall>i. ul_pc s i = UIdle \<or> (about (ul_pc s i) = None \<longleftrightarrow> i = 0))"

lemmas pc_defs = pending_def registered_def listed_def in_table_def

lemma about_below: "pc_ok s pc \<Longrightarrow> about pc = Some n \<Longrightarrow> n < ul_next s"
  by (cases pc) (auto simp: pc_defs)

lemma in_table_below: "table_ok s \<Longrightarrow> in_table s u \<Longrightarrow> u < ul_next s"
  by (auto simp: table_ok_def in_table_def)

lemma holds_below: "table_ok s \<Longrightarrow> pc_ok s pc \<Longrightarrow> u \<in> holds pc \<Longrightarrow> u < ul_next s"
  by (cases pc) (auto simp: pc_defs table_ok_def)

text \<open>The counters only mention the table, the ids and the connections.\<close>

lemma data_cong:
  assumes "ul_table s' = ul_table s" and "ul_id s' = ul_id s" and "ul_conns s' = ul_conns s" and "ul_next s' = ul_next s"
  shows "pc_ok s' pc = pc_ok s pc" and "ul_open s' = ul_open s \<Longrightarrow> table_ok s' = table_ok s"
proof -
  have "in_table s' = in_table s" "listed s' = listed s" "pending s' = pending s" "registered s' = registered s"
    by (simp_all add: fun_eq_iff pc_defs assms)
  then show "pc_ok s' pc = pc_ok s pc" and "ul_open s' = ul_open s \<Longrightarrow> table_ok s' = table_ok s"
    by (cases pc, simp_all add: table_ok_def assms)
qed

text \<open>The changes of the data, and what they leave of the other counters.\<close>

lemma data_new:
  assumes "table_ok s" and "pc_ok s pc" and "ul_table s' = ul_table s" and "ul_id s' = (ul_id s)(ul_next s := k)"
    and "ul_conns s' = ul_conns s" and "ul_next s' = Suc (ul_next s)"
  shows "pc_ok s' pc" and "ul_open s' = ul_open s \<Longrightarrow> table_ok s'" and "pending s' (ul_next s)"
proof -
  have T: "ul_table s k = Some u \<Longrightarrow> ul_id s u = k \<and> u < ul_next s" "ul_conns s u \<noteq> [] \<Longrightarrow> in_table s u"
    "distinct (ul_conns s u) \<and> (\<forall>m \<in> set (ul_conns s u). m < ul_next s)" for k u
    using assms(1) by (auto simp: table_ok_def)
  have tab: "in_table s u \<Longrightarrow> in_table s' u" for u
    using in_table_below [OF assms(1), of u] by (auto simp: in_table_def assms)
  have old: "n < ul_next s \<Longrightarrow> ul_id s' n = ul_id s n" for n by (simp add: assms)
  have list: "n < ul_next s \<Longrightarrow> listed s' n u = listed s n u" for n u by (simp add: listed_def old assms(3,5))
  have reg: "registered s n \<Longrightarrow> registered s' n" for n using list by (auto simp: registered_def assms(6))
  have pen: "pending s n \<Longrightarrow> pending s' n" for n by (auto simp: pending_def in_table_def assms)
  show "pc_ok s' pc"
    using assms(2) tab list reg pen
    by (cases pc) (auto simp: assms(3,5,6) pending_def old)
  show "pending s' (ul_next s)"
    using in_table_below [OF assms(1), of "ul_next s"] T(1) [of k "ul_next s"] T(2) [of "ul_next s"] T(3)
    by (fastforce simp: pending_def in_table_def assms)
  show "table_ok s'" if "ul_open s' = ul_open s"
    unfolding table_ok_def
  proof (intro conjI allI impI ballI)
    show "in_table s' u" if "ul_conns s' u \<noteq> []" for u using that T(2) [of u] tab by (simp add: assms(5))
    show "registered s' m" if "m \<in> ul_open s'" for m
      using that \<open>ul_open s' = ul_open s\<close> reg assms(1) by (simp add: table_ok_def)
  qed (use T in \<open>auto simp: assms(3-6) less_Suc_eq\<close>)
qed

lemma data_first:
  assumes "table_ok s" and "pending s n" and "ul_table s (ul_id s n) = None"
    and "ul_table s' = (ul_table s)(ul_id s n := Some n)" and "ul_id s' = ul_id s"
    and "ul_conns s' = (ul_conns s)(n := ul_conns s n @ [n])" and "ul_next s' = ul_next s"
  shows "pc_ok s pc \<Longrightarrow> about pc \<noteq> Some n \<Longrightarrow> pc_ok s' pc" and "registered s' n"
    and "ul_open s' = ul_open s \<Longrightarrow> table_ok s'"
proof -
  have T: "ul_table s k = Some u \<Longrightarrow> ul_id s u = k \<and> u < ul_next s" "ul_conns s u \<noteq> [] \<Longrightarrow> in_table s u" for k u
    using assms(1) by (auto simp: table_ok_def)
  have tab: "in_table s u \<Longrightarrow> in_table s' u" for u using assms(3) by (auto simp: in_table_def assms(4,5))
  have list: "listed s m u \<Longrightarrow> listed s' m u" for m u using assms(3) by (auto simp: listed_def assms(4,5,6))
  have reg: "registered s m \<Longrightarrow> registered s' m" for m using list by (auto simp: registered_def assms(7))
  have pen: "pending s m \<Longrightarrow> m \<noteq> n \<Longrightarrow> pending s' m" for m by (auto simp: pending_def in_table_def assms(4-7))
  show "pc_ok s' pc" if "pc_ok s pc" "about pc \<noteq> Some n"
    using that tab list reg pen assms(3) by (cases pc) (auto simp: assms(4-7) in_table_def)
  show "registered s' n" using assms(2) by (auto simp: registered_def listed_def pending_def assms(4-7))
  have conns: "in_table s' u" if "ul_conns s' u \<noteq> []" for u
  proof (cases "u = n")
    case False
    then show ?thesis using that T(2) [of u] tab by (simp add: assms(6))
  qed (simp add: in_table_def assms(4,5))
  show "table_ok s'" if "ul_open s' = ul_open s"
    unfolding table_ok_def
  proof (intro conjI allI impI ballI)
    show "in_table s' u" if "ul_conns s' u \<noteq> []" for u by (rule conns [OF that])
    show "registered s' m" if "m \<in> ul_open s'" for m
      using that \<open>ul_open s' = ul_open s\<close> reg assms(1) by (simp add: table_ok_def)
  qed (use assms(1,2) in \<open>auto simp: table_ok_def assms(4-7) pending_def split: if_splits\<close>)
qed

lemma data_again:
  assumes "table_ok s" and "pending s n" and "ul_table s (ul_id s n) = Some u"
    and "ul_table s' = ul_table s" and "ul_id s' = ul_id s"
    and "ul_conns s' = (ul_conns s)(u := ul_conns s u @ [n])" and "ul_next s' = ul_next s"
  shows "pc_ok s pc \<Longrightarrow> about pc \<noteq> Some n \<Longrightarrow> (\<And>us. pc \<noteq> P_Remove u us) \<Longrightarrow> pc_ok s' pc" and "registered s' n"
    and "ul_open s' = ul_open s \<Longrightarrow> table_ok s'"
proof -
  have u: "in_table s u" using assms(1,3) by (auto simp: table_ok_def in_table_def)
  have n: "n < ul_next s" "\<And>u. n \<notin> set (ul_conns s u)" using assms(2) by (auto simp: pending_def)
  have tab: "in_table s' = in_table s" by (simp add: in_table_def fun_eq_iff assms(4,5))
  have list: "listed s m v \<Longrightarrow> listed s' m v" for m v by (auto simp: listed_def assms(4-6))
  have reg: "registered s m \<Longrightarrow> registered s' m" for m using list by (auto simp: registered_def assms(7))
  have pen: "pending s m \<Longrightarrow> m \<noteq> n \<Longrightarrow> pending s' m" for m using u by (auto simp: pending_def tab assms(6,7))
  show "pc_ok s' pc" if "pc_ok s pc" "about pc \<noteq> Some n" "\<And>us. pc \<noteq> P_Remove u us"
    using that list reg pen by (cases pc) (auto simp: tab assms(4-7))
  show "registered s' n" using n assms(3) by (auto simp: registered_def listed_def assms(4-7))
  show "table_ok s'" if "ul_open s' = ul_open s"
    using assms(1) n reg that u unfolding table_ok_def tab by (auto simp: assms(4-7) split: if_splits)
qed

lemma data_leave:
  assumes "table_ok s"
    and "ul_table s' = ul_table s" and "ul_id s' = ul_id s"
    and "ul_conns s' = (ul_conns s)(u := filter (\<lambda>d. d \<noteq> n) (ul_conns s u))" and "ul_next s' = ul_next s"
  shows "pc_ok s pc \<Longrightarrow> about pc \<noteq> Some n \<Longrightarrow> pc_ok s' pc" and "ul_open s' = ul_open s \<Longrightarrow> n \<notin> ul_open s \<Longrightarrow> table_ok s'"
proof -
  have tab: "in_table s' = in_table s" by (simp add: in_table_def fun_eq_iff assms(2,3))
  have list: "listed s m v \<Longrightarrow> m \<noteq> n \<Longrightarrow> listed s' m v" for m v by (auto simp: listed_def assms(2-4))
  have reg: "registered s m \<Longrightarrow> m \<noteq> n \<Longrightarrow> registered s' m" for m using list by (auto simp: registered_def assms(5))
  have pen: "pending s m \<Longrightarrow> pending s' m" for m by (auto simp: pending_def tab assms(4,5))
  show "pc_ok s' pc" if "pc_ok s pc" "about pc \<noteq> Some n"
    using that list reg pen by (cases pc) (auto simp: tab assms(2-5))
  show "table_ok s'" if "ul_open s' = ul_open s" "n \<notin> ul_open s"
    unfolding table_ok_def tab
  proof (intro conjI allI impI ballI)
    show "registered s' m" if "m \<in> ul_open s'" for m
      using that \<open>ul_open s' = ul_open s\<close> \<open>n \<notin> ul_open s\<close> reg [of m] assms(1) by (auto simp: table_ok_def)
    show "in_table s v" if "ul_conns s' v \<noteq> []" for v
    proof -
      have "ul_conns s v \<noteq> []" using that by (auto simp: assms(4) split: if_splits)
      then show ?thesis using assms(1) by (simp add: table_ok_def)
    qed
  qed (use assms(1) in \<open>auto simp: table_ok_def assms(2-5) split: if_splits\<close>)
qed

lemma data_remove:
  assumes "table_ok s" and "in_table s u" and "ul_conns s u = []"
    and "ul_table s' = (ul_table s)(ul_id s u := None)" and "ul_id s' = ul_id s"
    and "ul_conns s' = ul_conns s" and "ul_next s' = ul_next s"
  shows "pc_ok s pc \<Longrightarrow> about pc \<noteq> None \<or> pc = UIdle \<Longrightarrow> (\<And>n. shard_for pc = Some n \<Longrightarrow> ul_id s n \<noteq> ul_id s u) \<Longrightarrow> pc_ok s' pc"
    and "v \<noteq> u \<Longrightarrow> in_table s v \<Longrightarrow> in_table s' v" and "ul_open s' = ul_open s \<Longrightarrow> table_ok s'"
proof -
  show tab: "in_table s' v" if "v \<noteq> u" "in_table s v" for v using that assms(2) by (auto simp: in_table_def assms(4,5))
  have list: "listed s m v \<Longrightarrow> listed s' m v" for m v using assms(2,3) by (auto simp: listed_def in_table_def assms(4-6))
  have reg: "registered s m \<Longrightarrow> registered s' m" for m using list by (auto simp: registered_def assms(7))
  have pen: "pending s m \<Longrightarrow> pending s' m" for m by (auto simp: pending_def in_table_def assms(4-7))
  show "pc_ok s' pc" if "pc_ok s pc" "about pc \<noteq> None \<or> pc = UIdle" "\<And>n. shard_for pc = Some n \<Longrightarrow> ul_id s n \<noteq> ul_id s u"
    using that list reg pen by (cases pc) (auto simp: assms(4-7))
  show "table_ok s'" if "ul_open s' = ul_open s"
    unfolding table_ok_def
  proof (intro conjI allI impI ballI)
    show "in_table s' v" if "ul_conns s' v \<noteq> []" for v
      using that assms(1,3) tab [of v] by (cases "v = u") (auto simp: table_ok_def assms(6))
    show "registered s' m" if "m \<in> ul_open s'" for m
      using that \<open>ul_open s' = ul_open s\<close> reg assms(1) by (simp add: table_ok_def)
  qed (use assms(1) in \<open>auto simp: table_ok_def assms(4-7) split: if_splits\<close>)
qed

subsection \<open>Locks and owners\<close>

text \<open>A goroutine takes free locks and gives back its own.\<close>

lemma locks_step:
  assumes "locks_ok sh s" and "ul_pc s' = (ul_pc s)(i := pc1)"
    and "\<And>u. ul_rec s' u = (if u \<in> holds pc1 then Some i else if u \<in> holds (ul_pc s i) then None else ul_rec s u)"
    and "\<And>u. u \<in> holds pc1 \<Longrightarrow> u \<in> holds (ul_pc s i) \<or> ul_rec s u = None"
    and "\<And>x. ul_shard s' x = (if owns sh (ul_id s') pc1 x then Some i
      else if owns sh (ul_id s) (ul_pc s i) x then None else ul_shard s x)"
    and "\<And>x. owns sh (ul_id s') pc1 x \<Longrightarrow> owns sh (ul_id s) (ul_pc s i) x \<or> ul_shard s x = None"
    and "\<And>j n. j \<noteq> i \<Longrightarrow> shard_for (ul_pc s j) = Some n \<Longrightarrow> ul_id s' n = ul_id s n"
  shows "locks_ok sh s'"
proof -
  have R: "ul_rec s u = Some j \<longleftrightarrow> u \<in> holds (ul_pc s j)" and S: "ul_shard s x = Some j \<longleftrightarrow> owns sh (ul_id s) (ul_pc s j) x" for u x j
    using assms(1) by (simp_all add: locks_ok_def)
  have other: "j \<noteq> i \<Longrightarrow> owns sh (ul_id s') (ul_pc s j) x = owns sh (ul_id s) (ul_pc s j) x" for j x
    using assms(7) [of j] by (simp add: owns_def split: option.splits)
  have "ul_rec s' u = Some j \<longleftrightarrow> u \<in> holds (ul_pc s' j)" for u j
    using R [of u j] R [of u i] assms(3) [of u] assms(4) [of u] by (cases "j = i") (auto simp: assms(2))
  moreover have "ul_shard s' x = Some j \<longleftrightarrow> owns sh (ul_id s') (ul_pc s' j) x" for x j
    using S [of x j] S [of x i] assms(5) [of x] assms(6) [of x] other [of j x] by (cases "j = i") (auto simp: assms(2))
  ultimately show ?thesis by (simp add: locks_ok_def)
qed

lemma owner_step:
  assumes "one_owner s" and "ul_pc s' = (ul_pc s)(i := pc1)"
    and "\<And>n. about pc1 = Some n \<Longrightarrow> about (ul_pc s i) = Some n \<or> (\<forall>j. about (ul_pc s j) \<noteq> Some n)"
    and "\<And>n. n \<in> ul_open s' \<Longrightarrow> (n \<in> ul_open s \<or> about (ul_pc s i) = Some n) \<and> about pc1 \<noteq> Some n"
  shows "one_owner s'"
proof -
  have O: "about (ul_pc s a) = Some n \<Longrightarrow> about (ul_pc s b) = Some n \<Longrightarrow> a = b" "about (ul_pc s a) = Some n \<Longrightarrow> n \<notin> ul_open s" for a b n
    using assms(1) by (auto simp: one_owner_def)
  have "a = b" if "about (ul_pc s' a) = Some n" "about (ul_pc s' b) = Some n" for a b n
    using that O(1) [of a n b] O(1) [of a n i] O(1) [of i n b] assms(3) [of n] by (auto simp: assms(2) split: if_splits)
  moreover have "n \<notin> ul_open s'" if "about (ul_pc s' a) = Some n" for a n
    using that O(1) [of a n i] O(2) [of a n] assms(4) [of n] by (auto simp: assms(2) split: if_splits)
  ultimately show ?thesis unfolding one_owner_def by blast
qed

lemma locks_invD:
  assumes "users_lock_inv sh s"
  shows "table_ok s" and "locks_ok sh s" and "one_owner s" and "pc_ok s (ul_pc s i)"
    and "ul_rec s u = Some i \<longleftrightarrow> u \<in> holds (ul_pc s i)" and "ul_shard s x = Some i \<longleftrightarrow> owns sh (ul_id s) (ul_pc s i) x"
    and "ul_pc s i = UIdle \<or> (about (ul_pc s i) = None \<longleftrightarrow> i = 0)"
    and "about (ul_pc s i) = Some n \<Longrightarrow> n \<notin> ul_open s"
  using assms by (auto simp: users_lock_inv_def locks_ok_def one_owner_def)

text \<open>A step of one goroutine, and one that changes only locks and the own counter.\<close>

lemma inv_stepI:
  assumes "users_lock_inv sh s" and "ul_pc s' = (ul_pc s)(i := pc1)"
    and "table_ok s'" and "pc_ok s' pc1" and "\<And>j. j \<noteq> i \<Longrightarrow> pc_ok s' (ul_pc s j)"
    and "\<And>n. about pc1 = Some n \<Longrightarrow> about (ul_pc s i) = Some n \<or> (\<forall>j. about (ul_pc s j) \<noteq> Some n)"
    and "\<And>n. n \<in> ul_open s' \<Longrightarrow> (n \<in> ul_open s \<or> about (ul_pc s i) = Some n) \<and> about pc1 \<noteq> Some n"
    and "\<And>u. ul_rec s' u = (if u \<in> holds pc1 then Some i else if u \<in> holds (ul_pc s i) then None else ul_rec s u)"
    and "\<And>u. u \<in> holds pc1 \<Longrightarrow> u \<in> holds (ul_pc s i) \<or> ul_rec s u = None"
    and "\<And>x. ul_shard s' x = (if owns sh (ul_id s') pc1 x then Some i
      else if owns sh (ul_id s) (ul_pc s i) x then None else ul_shard s x)"
    and "\<And>x. owns sh (ul_id s') pc1 x \<Longrightarrow> owns sh (ul_id s) (ul_pc s i) x \<or> ul_shard s x = None"
    and "\<And>j n. j \<noteq> i \<Longrightarrow> shard_for (ul_pc s j) = Some n \<Longrightarrow> ul_id s' n = ul_id s n"
    and "pc1 = UIdle \<or> (about pc1 = None \<longleftrightarrow> i = 0)"
  shows "users_lock_inv sh s'"
proof -
  have "locks_ok sh s'" by (rule locks_step [OF locks_invD(2) [OF assms(1)] assms(2,8-12)])
  moreover have "one_owner s'" by (rule owner_step [OF locks_invD(3) [OF assms(1)] assms(2,6,7)])
  moreover have "pc_ok s' (ul_pc s' j)" for j using assms(4,5) by (cases "j = i") (simp_all add: assms(2))
  moreover have "ul_pc s' j = UIdle \<or> (about (ul_pc s' j) = None \<longleftrightarrow> j = 0)" for j
    using assms(13) locks_invD(7) [OF assms(1)] by (cases "j = i") (simp_all add: assms(2))
  ultimately show ?thesis using assms(3) by (simp add: users_lock_inv_def)
qed

lemma quiet_step:
  assumes "users_lock_inv sh s" and "ul_pc s' = (ul_pc s)(i := pc1)"
    and "ul_table s' = ul_table s \<and> ul_id s' = ul_id s \<and> ul_conns s' = ul_conns s \<and> ul_next s' = ul_next s \<and> ul_open s' = ul_open s"
    and "pc_ok s pc1" and "about pc1 = None \<or> about pc1 = about (ul_pc s i)"
    and "\<And>u. ul_rec s' u = (if u \<in> holds pc1 then Some i else if u \<in> holds (ul_pc s i) then None else ul_rec s u)"
    and "\<And>u. u \<in> holds pc1 \<Longrightarrow> u \<in> holds (ul_pc s i) \<or> ul_rec s u = None"
    and "\<And>x. ul_shard s' x = (if owns sh (ul_id s) pc1 x then Some i
      else if owns sh (ul_id s) (ul_pc s i) x then None else ul_shard s x)"
    and "\<And>x. owns sh (ul_id s) pc1 x \<Longrightarrow> owns sh (ul_id s) (ul_pc s i) x \<or> ul_shard s x = None"
    and "pc1 = UIdle \<or> (about pc1 = None \<longleftrightarrow> i = 0)"
  shows "users_lock_inv sh s'"
proof -
  note D = locks_invD [OF assms(1)]
  have eq: "ul_table s' = ul_table s" "ul_id s' = ul_id s" "ul_conns s' = ul_conns s" "ul_next s' = ul_next s" "ul_open s' = ul_open s"
    using assms(3) by simp_all
  have data: "table_ok s'" "pc_ok s' pc1" "pc_ok s' (ul_pc s j)" for j
    using data_cong(2) [OF eq] data_cong(1) [OF eq(1-4)] D(1,4) assms(4) by simp_all
  show ?thesis
    by (rule inv_stepI [OF assms(1,2) data]) (use D(3) assms(5-10) eq in \<open>auto simp: one_owner_def\<close>)
qed

lemma purge_inv_step:
  assumes "purge_lock_step sh s t" and "users_lock_inv sh s"
  shows "users_lock_inv sh t"
  using assms
proof (induction rule: purge_lock_step.induct)
  case (purge_remove s u us)
  note D = locks_invD [OF purge_remove(3)]
  let ?t = "s\<lparr>ul_pc := (ul_pc s)(0 := P_Removed u us), ul_table := (ul_table s)(ul_id s u := None)\<rparr>"
  have u: "in_table s u" "ul_conns s u = []" "u \<notin> set us" "distinct us" "\<forall>v \<in> set us. in_table s v"
    using D(4) [of 0] purge_remove(1) by auto
  note R = data_remove [OF D(1) u(1,2), of ?t]
  have free: "ul_id s n \<noteq> ul_id s u" if "shard_for (ul_pc s j) = Some n" for j n
    using D(6) [of "sh (ul_id s n)" j] that purge_remove(2) by (auto simp: owns_def)
  show ?case
  proof (rule inv_stepI [OF purge_remove(3), where i = 0 and ?pc1.0 = "P_Removed u us"])
    show "table_ok ?t" by (rule R(3)) simp_all
    have "in_table ?t v" if "v \<in> set us" for v by (rule R(2)) (use u(3,5) that in auto)
    then show "pc_ok ?t (P_Removed u us)" using u in_table_below [OF D(1) u(1)] by simp
    show "pc_ok ?t (ul_pc s j)" if "j \<noteq> 0" for j by (rule R(1)) (use D(4) D(7) [of j] free that in auto)
  qed (use purge_remove(1,2) D(5) [of u 0] in \<open>auto simp: owns_def\<close>)
next
  case (purge_start s deadline)
  then show ?case using locks_invD [OF purge_start(2)]
    by (intro quiet_step [OF purge_start(2), where i = 0 and ?pc1.0 = "P_Scan deadline [] []"]) (auto simp: owns_def)
next
  case (purge_next s d seen old k u)
  then show ?case using locks_invD(4) [OF purge_next(4), of 0] locks_invD(1) [OF purge_next(4)]
    by (intro quiet_step [OF purge_next(4), where i = 0 and ?pc1.0 = "P_Want d u seen old"]) (auto simp: owns_def table_ok_def in_table_def)
next
  case (purge_see s d u seen old)
  then show ?case using locks_invD(4) [OF purge_see(3), of 0]
    by (intro quiet_step [OF purge_see(3), where i = 0 and ?pc1.0 = "P_Look d u seen old"]) (auto simp: owns_def)
next
  case (purge_look s d u seen old)
  then show ?case using locks_invD(4) [OF purge_look(2), of 0]
    by (intro quiet_step [OF purge_look(2), where i = 0 and
          ?pc1.0 = "P_Scan d (u # seen) (if ul_conns s u = [] \<and> ul_exit s u < d then old @ [u] else old)"]) (auto simp: owns_def)
next
  case (purge_scanned s d seen old)
  then show ?case using locks_invD(4) [OF purge_scanned(2), of 0]
    by (intro quiet_step [OF purge_scanned(2), where i = 0 and ?pc1.0 = "P_Purge old"]) (auto simp: owns_def)
next
  case (purge_lock s u us)
  then show ?case using locks_invD(4) [OF purge_lock(3), of 0]
    by (intro quiet_step [OF purge_lock(3), where i = 0 and ?pc1.0 = "P_In u us"]) (auto simp: owns_def)
next
  case (purge_keep s u us)
  then show ?case using locks_invD(4) [OF purge_keep(3), of 0]
    by (intro quiet_step [OF purge_keep(3), where i = 0 and ?pc1.0 = "P_Purge us"]) (auto simp: owns_def)
next
  case (purge_check s u us)
  then show ?case using locks_invD(4) [OF purge_check(3), of 0] locks_invD(5) [OF purge_check(3), of u 0]
    by (intro quiet_step [OF purge_check(3), where i = 0 and ?pc1.0 = "P_Remove u us"]) (auto simp: owns_def)
next
  case (purge_unlock s u us)
  then show ?case using locks_invD(4) [OF purge_unlock(2), of 0]
    by (intro quiet_step [OF purge_unlock(2), where i = 0 and ?pc1.0 = "P_Purge us"]) (auto simp: owns_def)
next
  case (purge_end s)
  then show ?case
    by (intro quiet_step [OF purge_end(2), where i = 0 and ?pc1.0 = UIdle]) (auto simp: owns_def)
qed

lemma connect_inv_step:
  assumes "connect_lock_step sh i s t" and "users_lock_inv sh s" and "0 < i"
  shows "users_lock_inv sh t"
  using assms
proof (induction rule: connect_lock_step.induct)
  case (connect_start s n k)
  note D = locks_invD [OF connect_start(3)]
  let ?t = "s\<lparr>ul_pc := (ul_pc s)(i := K_Own n), ul_rec := (ul_rec s)(n := Some i), ul_id := (ul_id s)(n := k), ul_next := Suc n\<rparr>"
  have old: "about (ul_pc s j) = Some m \<Longrightarrow> m < n" "m \<in> holds (ul_pc s j) \<Longrightarrow> m < n" "m \<in> ul_open s \<Longrightarrow> m < n" for j m
    using about_below [OF D(4)] holds_below [OF D(1,4)] D(1) connect_start(2) by (auto simp: table_ok_def registered_def)
  have shard: "shard_for (ul_pc s j) = Some m \<Longrightarrow> m < n" for j m using old(1) [of j m] by (cases "ul_pc s j") auto
  have pc: "pc_ok ?t pc" if "pc_ok s pc" for pc
    by (rule data_new(1) [OF D(1) that]) (use connect_start(2) in simp_all)
  have free: "ul_rec s n = None" using D(5) [of n] old(2) by (cases "ul_rec s n") auto
  show ?case
  proof (rule inv_stepI [OF connect_start(3), where i = i and ?pc1.0 = "K_Own n"])
    show "table_ok ?t" by (rule data_new(2) [OF D(1) D(4)]) (use connect_start(2) in simp_all)
    show "pc_ok ?t (K_Own n)" using data_new(3) [OF D(1) D(4) [of i], of ?t k] connect_start(2) by simp
  qed (use connect_start(1,4) free pc D(4) in \<open>auto simp: owns_def dest: old shard\<close>)
next
  case (connect_first s n)
  note D = locks_invD [OF connect_first(3)]
  let ?t = "s\<lparr>ul_pc := (ul_pc s)(i := K_Bound n), ul_conns := (ul_conns s)(n := ul_conns s n @ [n]),
      ul_table := (ul_table s)(ul_id s n := Some n)\<rparr>"
  have n: "pending s n" using D(4) [of i] connect_first(1) by simp
  note F = data_first [OF D(1) n connect_first(2), of ?t]
  have one: "about (ul_pc s j) \<noteq> Some n" if "j \<noteq> i" for j using D(3) that connect_first(1) by (auto simp: one_owner_def)
  show ?case
  proof (rule inv_stepI [OF connect_first(3), where i = i and ?pc1.0 = "K_Bound n"])
    show "table_ok ?t" by (rule F(3)) simp_all
    show "pc_ok ?t (K_Bound n)" using F(2) by simp
    show "pc_ok ?t (ul_pc s j)" if "j \<noteq> i" for j by (rule F(1)) (use D(4) one [OF that] in auto)
  qed (use connect_first(1,4) D(8) [of i n] D(5) [of n i] D(6) [of _ i] in \<open>auto simp: owns_def\<close>)
next
  case (connect_again s n u)
  note D = locks_invD [OF connect_again(2)]
  let ?t = "s\<lparr>ul_pc := (ul_pc s)(i := K_Bound n), ul_conns := (ul_conns s)(u := ul_conns s u @ [n]), ul_rec := (ul_rec s)(u := None)\<rparr>"
  have n: "pending s n" "ul_table s (ul_id s n) = Some u" using D(4) [of i] connect_again(1) by simp_all
  then have un: "u \<noteq> n" by (auto simp: pending_def in_table_def)
  note F = data_again [OF D(1) n, of ?t]
  have one: "about (ul_pc s j) \<noteq> Some n" "ul_pc s j \<noteq> P_Remove u us" if "j \<noteq> i" for j us
    using D(3) D(5) [of u i] D(5) [of u j] that connect_again(1) by (auto simp: one_owner_def)
  show ?case
  proof (rule inv_stepI [OF connect_again(2), where i = i and ?pc1.0 = "K_Bound n"])
    show "table_ok ?t" by (rule F(3)) simp_all
    show "pc_ok ?t (K_Bound n)" using F(2) by simp
    show "pc_ok ?t (ul_pc s j)" if "j \<noteq> i" for j by (rule F(1)) (use D(4) one [OF that] in auto)
  qed (use connect_again(1,3) un D(8) [of i n] D(5) [of n i] D(6) [of _ i] in \<open>auto simp: owns_def\<close>)
next
  case (connect_end s n)
  note D = locks_invD [OF connect_end(2)]
  let ?t = "s\<lparr>ul_pc := (ul_pc s)(i := UIdle), ul_rec := (ul_rec s)(n := None), ul_open := insert n (ul_open s)\<rparr>"
  have reg: "registered s n" using D(4) [of i] connect_end(1) by simp
  have eq: "registered ?t = registered s" "in_table ?t = in_table s" by (auto simp: fun_eq_iff pc_defs)
  show ?case
  proof (rule inv_stepI [OF connect_end(2), where i = i and ?pc1.0 = UIdle])
    show "table_ok ?t" using D(1) reg by (simp add: table_ok_def eq)
    show "pc_ok ?t (ul_pc s j)" for j using D(4) [of j] data_cong(1) [of ?t s] by simp
  qed (use connect_end(1) in \<open>auto simp: owns_def\<close>)
next
  case (connect_shard s n)
  then show ?case using locks_invD(4) [OF connect_shard(3), of i] locks_invD(5) [OF connect_shard(3), of n i]
    by (intro quiet_step [OF connect_shard(3), where i = i and ?pc1.0 = "K_Shard n"]) (auto simp: owns_def)
next
  case (connect_found s n u)
  then show ?case using locks_invD(4) [OF connect_found(3), of i] locks_invD(5) [OF connect_found(3), of n i]
      locks_invD(6) [OF connect_found(3), of _ i]
    by (intro quiet_step [OF connect_found(3), where i = i and ?pc1.0 = "K_Found n u"]) (auto simp: owns_def)
next
  case (connect_lock s n u)
  then show ?case using locks_invD(4) [OF connect_lock(3), of i] locks_invD(5) [OF connect_lock(3), of n i]
      locks_invD(6) [OF connect_lock(3), of _ i]
    by (intro quiet_step [OF connect_lock(3), where i = i and ?pc1.0 = "K_In n u"]) (auto simp: owns_def)
next
  case (connect_unshard s n)
  then show ?case using locks_invD(4) [OF connect_unshard(2), of i] locks_invD(5) [OF connect_unshard(2), of n i]
    by (intro quiet_step [OF connect_unshard(2), where i = i and ?pc1.0 = "K_Stored n"]) (auto simp: owns_def)
qed

lemma disconnect_inv_step:
  assumes "disconnect_lock_step sh i s t" and "users_lock_inv sh s" and "0 < i"
  shows "users_lock_inv sh t"
  using assms
proof (induction rule: disconnect_lock_step.induct)
  case (disconnect_start s n)
  note D = locks_invD [OF disconnect_start(4)]
  let ?t = "s\<lparr>ul_pc := (ul_pc s)(i := D_Shard n), ul_shard := (ul_shard s)(sh (ul_id s n) := Some i), ul_open := ul_open s - {n}\<rparr>"
  have reg: "registered s n" using D(1) disconnect_start(2) by (simp add: table_ok_def)
  have eq: "registered ?t = registered s" "in_table ?t = in_table s" by (auto simp: fun_eq_iff pc_defs)
  show ?case
  proof (rule inv_stepI [OF disconnect_start(4), where i = i and ?pc1.0 = "D_Shard n"])
    show "table_ok ?t" using D(1) by (simp add: table_ok_def eq)
    show "pc_ok ?t (D_Shard n)" using reg eq by simp
    show "pc_ok ?t (ul_pc s j)" for j using D(4) [of j] data_cong(1) [of ?t s] by simp
  qed (use disconnect_start(1-3,5) D(3) in \<open>auto simp: owns_def one_owner_def\<close>)
next
  case (disconnect_missing s n m k)
  then show ?case using locks_invD(4) [OF disconnect_missing(4), of i] by (auto simp: pc_defs)
next
  case (disconnect_leave s n u left now)
  note D = locks_invD [OF disconnect_leave(4)]
  let ?t = "s\<lparr>ul_pc := (ul_pc s)(i := D_Left n), ul_conns := (ul_conns s)(u := left),
      ul_exit := (ul_exit s)(u := (if left = [] then now else ul_exit s u)), ul_rec := (ul_rec s)(u := None)\<rparr>"
  have n: "n < ul_next s" "n \<notin> ul_open s" using D(8) [of i n] D(4) [of i] disconnect_leave(1) by auto
  note L = data_leave [OF D(1), of ?t u n]
  have one: "about (ul_pc s j) \<noteq> Some n" if "j \<noteq> i" for j using D(3) that disconnect_leave(1) by (auto simp: one_owner_def)
  show ?case
  proof (rule inv_stepI [OF disconnect_leave(4), where i = i and ?pc1.0 = "D_Left n"])
    show "table_ok ?t" by (rule L(2)) (use disconnect_leave(2) n in simp_all)
    show "pc_ok ?t (D_Left n)" using n by simp
    show "pc_ok ?t (ul_pc s j)" if "j \<noteq> i" for j by (rule L(1)) (use disconnect_leave(2) D(4) one [OF that] in auto)
  qed (use disconnect_leave(1,5) n D(6) [of _ i] in \<open>auto simp: owns_def\<close>)
next
  case (disconnect_found s n u)
  then show ?case using locks_invD(4) [OF disconnect_found(3), of i] locks_invD(6) [OF disconnect_found(3), of _ i]
    by (intro quiet_step [OF disconnect_found(3), where i = i and ?pc1.0 = "D_Found n u"]) (auto simp: owns_def pc_defs)
next
  case (disconnect_lock s n u)
  then show ?case using locks_invD(4) [OF disconnect_lock(3), of i] locks_invD(6) [OF disconnect_lock(3), of _ i]
    by (intro quiet_step [OF disconnect_lock(3), where i = i and ?pc1.0 = "D_In n u"]) (auto simp: owns_def)
next
  case (disconnect_end s n)
  then show ?case
    by (intro quiet_step [OF disconnect_end(2), where i = i and ?pc1.0 = UIdle]) (auto simp: owns_def)
qed

lemma users_lock_inv_step: "users_lock_inv sh s \<Longrightarrow> users_lock_step sh s t \<Longrightarrow> users_lock_inv sh t"
  by (auto simp: users_lock_step_def intro: connect_inv_step disconnect_inv_step purge_inv_step)

lemma users_lock_inv_init: "users_locks_init s \<Longrightarrow> users_lock_inv sh s"
  by (simp add: users_locks_init_def users_lock_inv_def table_ok_def locks_ok_def one_owner_def owns_def)

interpretation users_locks: invariant_system users_locks_init "users_lock_step sh" "users_lock_inv sh" for sh
  by unfold_locales (blast intro: users_lock_inv_init users_lock_inv_step)+

section \<open>Runs\<close>

lemmas client_stepI =
  converse_rtranclp_into_rtranclp [of "users_lock_step sh" for sh, OF users_lock_step_def [THEN iffD2, OF disjI1, OF exI, OF conjI, OF _ disjI1]]
  converse_rtranclp_into_rtranclp [of "users_lock_step sh" for sh, OF users_lock_step_def [THEN iffD2, OF disjI1, OF exI, OF conjI, OF _ disjI2]]

lemmas cleanup_stepI = converse_rtranclp_into_rtranclp [of "users_lock_step sh" for sh, OF users_lock_step_def [THEN iffD2, OF disjI2]]

lemma steps_eq: "s = t \<Longrightarrow> r\<^sup>*\<^sup>* s t"
  by simp

text \<open>A first connection, and its end.\<close>

lemma first_connect_run:
  assumes "0 < i" and "ul_pc s i = UIdle" and "ul_shard s (sh k) = None" and "ul_table s k = None" and "n = ul_next s"
  shows "(users_lock_step sh)\<^sup>*\<^sup>* s (s\<lparr>ul_pc := (ul_pc s)(i := UIdle), ul_rec := (ul_rec s)(n := None), ul_id := (ul_id s)(n := k),
    ul_next := Suc n, ul_shard := (ul_shard s)(sh k := None), ul_conns := (ul_conns s)(n := ul_conns s n @ [n]),
    ul_table := (ul_table s)(k := Some n), ul_open := insert n (ul_open s)\<rparr>)"
  by (rule client_stepI(1) [OF assms(1) connect_start [where k = k and n = n]], simp add: assms, simp add: assms,
      rule client_stepI(1) [OF assms(1) connect_shard [where n = n]], simp, simp add: assms,
      rule client_stepI(1) [OF assms(1) connect_first [where n = n]], simp, simp add: assms,
      rule client_stepI(1) [OF assms(1) connect_unshard [where n = n]], simp,
      rule client_stepI(1) [OF assms(1) connect_end [where n = n]], simp,
      rule steps_eq, rule users_locks.equality, simp_all)

lemma last_disconnect_run:
  assumes "0 < i" and "ul_pc s i = UIdle" and "n \<in> ul_open s" and "ul_shard s (sh (ul_id s n)) = None"
    and "ul_table s (ul_id s n) = Some u" and "ul_rec s u = None" and "ul_conns s u = [n]"
  shows "(users_lock_step sh)\<^sup>*\<^sup>* s (s\<lparr>ul_pc := (ul_pc s)(i := UIdle), ul_shard := (ul_shard s)(sh (ul_id s n) := None),
    ul_open := ul_open s - {n}, ul_rec := (ul_rec s)(u := None), ul_conns := (ul_conns s)(u := []), ul_exit := (ul_exit s)(u := now)\<rparr>)"
  by (rule client_stepI(2) [OF assms(1) disconnect_start [where n = n]], simp add: assms, simp add: assms, simp add: assms,
      rule client_stepI(2) [OF assms(1) disconnect_found [where n = n and u = u]], simp, simp add: assms,
      rule client_stepI(2) [OF assms(1) disconnect_lock [where n = n and u = u]], simp, simp add: assms,
      rule client_stepI(2) [OF assms(1) disconnect_leave [where n = n and u = u and left = "[]" and now = now]], simp, simp add: assms, simp add: assms,
      rule client_stepI(2) [OF assms(1) disconnect_end [where n = n]], simp,
      rule steps_eq, rule users_locks.equality, simp_all)

text \<open>The purge up to the moment it wants the shard lock, and a second connection up to the moment it wants the record.\<close>

lemma purge_wants_shard_run:
  assumes "ul_pc s 0 = UIdle" and "ul_table s k = Some u" and "ul_rec s u = None" and "ul_conns s u = []" and "ul_exit s u < d"
  shows "(users_lock_step sh)\<^sup>*\<^sup>* s (s\<lparr>ul_pc := (ul_pc s)(0 := P_Remove u []), ul_rec := (ul_rec s)(u := Some 0)\<rparr>)"
  by (rule cleanup_stepI [OF purge_start [where deadline = d]], simp add: assms,
      rule cleanup_stepI [OF purge_next [where k = k and u = u and d = d and seen = "[]" and old = "[]"]], simp, simp add: assms, simp,
      rule cleanup_stepI [OF purge_see [where u = u and d = d and seen = "[]" and old = "[]"]], simp, simp add: assms,
      rule cleanup_stepI [OF purge_look [where u = u and d = d and seen = "[]" and old = "[]"]], simp,
      rule cleanup_stepI [OF purge_scanned [where d = d and seen = "[u]" and old = "[u]"]], simp add: assms,
      rule cleanup_stepI [OF purge_lock [where u = u and us = "[]"]], simp, simp,
      rule cleanup_stepI [OF purge_check [where u = u and us = "[]"]], simp, simp add: assms,
      rule steps_eq, rule users_locks.equality, simp_all)

lemma connect_wants_record_run:
  assumes "0 < i" and "ul_pc s i = UIdle" and "ul_shard s (sh k) = None" and "ul_table s k = Some u" and "n = ul_next s"
  shows "(users_lock_step sh)\<^sup>*\<^sup>* s (s\<lparr>ul_pc := (ul_pc s)(i := K_Found n u), ul_rec := (ul_rec s)(n := Some i), ul_id := (ul_id s)(n := k),
    ul_next := Suc n, ul_shard := (ul_shard s)(sh k := Some i)\<rparr>)"
  by (rule client_stepI(1) [OF assms(1) connect_start [where k = k and n = n]], simp add: assms, simp add: assms,
      rule client_stepI(1) [OF assms(1) connect_shard [where n = n]], simp, simp add: assms,
      rule client_stepI(1) [OF assms(1) connect_found [where n = n and u = u]], simp, simp add: assms,
      rule steps_eq, rule users_locks.equality, simp_all)

text \<open>The user connects; the user has left and the purge is about to remove the record when the user comes back.\<close>

lemma connected_reachable:
  "\<exists>s. reach users_locks_init (users_lock_step sh) s \<and> ul_pc s = (\<lambda>_. UIdle) \<and> ul_shard s = (\<lambda>_. None) \<and> ul_rec s = (\<lambda>_. None) \<and>
     ul_open s = {0} \<and> ul_table s = [k \<mapsto> 0] \<and> ul_id s 0 = k \<and> ul_conns s 0 = [0] \<and> ul_next s = 1"
proof -
  obtain s where s: "users_locks_init s" by (auto simp: users_locks_init_def)
  show ?thesis
    using reach_steps [OF first_connect_run [of 1 s sh k 0] start [of users_locks_init, OF s]] s
    by (fastforce simp: users_locks_init_def fun_eq_iff)
qed

lemma crossing_reachable:
  "\<exists>s. reach users_locks_init (users_lock_step sh) s \<and> ul_pc s 0 = P_Remove 0 [] \<and> ul_pc s 1 = K_Found 1 0 \<and> ul_id s 1 = k"
proof -
  obtain s where s: "reach users_locks_init (users_lock_step sh) s" "ul_pc s = (\<lambda>_. UIdle)" "ul_shard s = (\<lambda>_. None)" "ul_rec s = (\<lambda>_. None)"
    "ul_open s = {0}" "ul_table s = [k \<mapsto> 0]" "ul_id s 0 = k" "ul_conns s 0 = [0]" "ul_next s = 1"
    using connected_reachable by blast
  note t = reach_steps [OF last_disconnect_run [of 1 s 0 sh 0 0] s(1)]
  note u = reach_steps [OF purge_wants_shard_run [of _ k 0 1 sh] t]
  note v = reach_steps [OF connect_wants_record_run [of 1 _ sh k 0 1] u]
  show ?thesis by (rule exI, rule conjI, rule v) (simp_all add: s)
qed

lemma distinct_count: "distinct xs \<Longrightarrow> x \<in> set xs \<Longrightarrow> count_list xs x = 1"
  by (induction xs) (auto simp: count_notin)

lemma distinct_filter_length: "distinct xs \<Longrightarrow> x \<in> set xs \<Longrightarrow> Suc (length (filter (\<lambda>d. d \<noteq> x) xs)) = length xs"
  by (induction xs) (auto intro!: arg_cong [of _ _ length] simp: filter_id_conv)

section \<open>Properties\<close>

text \<open>
  C11. A connection whose \<open>OnConnect\<close> has finished and whose \<open>OnDisconnect\<close> has not begun is listed exactly
  once in the record the user table has for its user, in every interleaving with other connections of
  the user and with the purge; so \<open>OnDisconnect\<close> always finds the record, and the shorter slice it
  makes is filled exactly.
\<close>

theorem connection_stays_listed:
  assumes "reach users_locks_init (users_lock_step sh) s"
  shows "(n \<in> ul_open s \<longrightarrow> (\<exists>u. ul_table s (ul_id s n) = Some u \<and> ul_id s u = ul_id s n \<and> count_list (ul_conns s u) n = 1)) \<and>
    (ul_pc s i = D_Shard m \<longrightarrow> ul_table s (ul_id s m) \<noteq> None) \<and>
    (ul_pc s i = D_In m v \<longrightarrow> length (ul_conns s v) = Suc (length (filter (\<lambda>d. d \<noteq> m) (ul_conns s v))))"
proof (intro conjI impI)
  note D = locks_invD [OF users_locks.reach_inv [OF assms]]
  show "\<exists>u. ul_table s (ul_id s n) = Some u \<and> ul_id s u = ul_id s n \<and> count_list (ul_conns s u) n = 1" if "n \<in> ul_open s"
  proof -
    have "registered s n" using D(1) that by (simp add: table_ok_def)
    then obtain u where u: "ul_table s (ul_id s n) = Some u" "n \<in> set (ul_conns s u)" by (auto simp: registered_def listed_def)
    then show ?thesis using D(1) distinct_count [OF _ u(2)] by (simp add: table_ok_def)
  qed
  show "ul_table s (ul_id s m) \<noteq> None" if "ul_pc s i = D_Shard m"
    using D(4) [of i] that by (auto simp: pc_defs)
  show "length (ul_conns s v) = Suc (length (filter (\<lambda>d. d \<noteq> m) (ul_conns s v)))" if "ul_pc s i = D_In m v"
    using D(1) D(4) [of i] that by (auto simp: table_ok_def listed_def distinct_filter_length)
qed

theorem connection_stays_listed_witness:
  "\<exists>s :: users_locks. 0 \<in> ul_open s \<and> (\<exists>u. ul_table s (ul_id s 0) = Some u \<and> ul_id s u = ul_id s 0 \<and> count_list (ul_conns s u) 0 = 1)"
proof -
  obtain s where s: "reach users_locks_init (users_lock_step (\<lambda>_. 0)) s" "ul_open s = {0}"
    using connected_reachable by blast
  show ?thesis using connection_stays_listed [OF s(1), of 0 0 0 0] s(2) by (intro exI [of _ s]) simp
qed

subsection \<open>Progress\<close>

text \<open>A goroutine can move. The owner of a record that is in the table always can, outside the removal.\<close>

definition can_move :: "(string \<Rightarrow> nat) \<Rightarrow> users_locks \<Rightarrow> nat \<Rightarrow> bool" where
  "can_move sh s i \<longleftrightarrow> (\<exists>t. users_lock_step sh s t \<and> ul_pc t i \<noteq> ul_pc s i)"

lemma can_moveI:
  "connect_lock_step sh i s t \<Longrightarrow> 0 < i \<Longrightarrow> ul_pc t i \<noteq> ul_pc s i \<Longrightarrow> can_move sh s i"
  "disconnect_lock_step sh i s t \<Longrightarrow> 0 < i \<Longrightarrow> ul_pc t i \<noteq> ul_pc s i \<Longrightarrow> can_move sh s i"
  "purge_lock_step sh s t \<Longrightarrow> ul_pc t 0 \<noteq> ul_pc s 0 \<Longrightarrow> can_move sh s 0"
  by (auto simp: can_move_def users_lock_step_def)

text \<open>The record a goroutine waits for.\<close>

fun wants :: "users_pc \<Rightarrow> user_ref option" where
  "wants (K_Found n u) = Some u"
| "wants (D_Found n u) = Some u"
| "wants (P_Want d u seen old) = Some u"
| "wants (P_Purge (u # us)) = Some u"
| "wants pc = None"

lemma client_moves:
  assumes "users_lock_inv sh s" and "about (ul_pc s i) \<noteq> None"
    and "wants (ul_pc s i) = None \<or> (\<exists>u. wants (ul_pc s i) = Some u \<and> ul_rec s u = None)"
    and "\<And>n. ul_pc s i = K_Own n \<Longrightarrow> ul_shard s (sh (ul_id s n)) = None"
  shows "can_move sh s i"
proof -
  note D = locks_invD [OF assms(1)]
  have i: "0 < i" using D(7) [of i] assms(2) by auto
  show ?thesis
  proof (cases "ul_pc s i")
    case (K_Shard n)
    then show ?thesis
      using can_moveI(1) [OF connect_first i] can_moveI(1) [OF connect_found i] by (cases "ul_table s (ul_id s n)") auto
  next
    case (D_Shard n)
    then obtain u where "ul_table s (ul_id s n) = Some u" using D(4) [of i] by (auto simp: pc_defs)
    then show ?thesis using D_Shard can_moveI(2) [OF disconnect_found i] by auto
  next
    case (D_In n u)
    then have "length (ul_conns s u) = Suc (length (filter (\<lambda>d. d \<noteq> n) (ul_conns s u)))"
      using D(1) D(4) [of i] by (auto simp: table_ok_def listed_def distinct_filter_length)
    then show ?thesis using D_In can_moveI(2) [OF disconnect_leave [OF D_In refl] i] by auto
  qed (use assms can_moveI(1) [OF connect_shard i] can_moveI(1) [OF connect_lock i] can_moveI(1) [OF connect_again i]
      can_moveI(1) [OF connect_unshard i] can_moveI(1) [OF connect_end i] can_moveI(2) [OF disconnect_lock i]
      can_moveI(2) [OF disconnect_end i] in auto)
qed

lemma cleanup_moves:
  assumes "ul_pc s 0 \<noteq> UIdle" and "about (ul_pc s 0) = None" and "\<And>u us. ul_pc s 0 \<noteq> P_Remove u us"
    and "wants (ul_pc s 0) = None \<or> (\<exists>u. wants (ul_pc s 0) = Some u \<and> ul_rec s u = None)"
  shows "can_move sh s 0"
proof (cases "ul_pc s 0")
  case (P_In u us)
  then show ?thesis using can_moveI(3) [OF purge_keep] can_moveI(3) [OF purge_check] by (cases "ul_conns s u") auto
next
  case (P_Purge us)
  then show ?thesis using assms(4) can_moveI(3) [OF purge_lock] can_moveI(3) [OF purge_end] by (cases us) auto
qed (use assms can_moveI(3) [OF purge_see] can_moveI(3) [OF purge_look] can_moveI(3) [OF purge_scanned] can_moveI(3) [OF purge_unlock] in auto)

lemma busy_moves:
  assumes "users_lock_inv sh s" and "ul_pc s i \<noteq> UIdle" and "\<And>u us. ul_pc s i \<noteq> P_Remove u us"
    and "wants (ul_pc s i) = None \<or> (\<exists>u. wants (ul_pc s i) = Some u \<and> ul_rec s u = None)"
    and "\<And>n. ul_pc s i = K_Own n \<Longrightarrow> ul_shard s (sh (ul_id s n)) = None"
  shows "can_move sh s i"
  using client_moves [OF assms(1) _ assms(4,5)] cleanup_moves [of s sh] locks_invD(7) [OF assms(1), of i] assms(2-4)
  by (cases "i = 0") auto

lemma owner_moves:
  assumes "users_lock_inv sh s" and "\<And>u us. ul_pc s 0 \<noteq> P_Remove u us" and "in_table s u" and "ul_rec s u = Some k"
  shows "can_move sh s k \<and> ul_pc s k \<noteq> UIdle"
proof -
  note D = locks_invD [OF assms(1)]
  have k: "u \<in> holds (ul_pc s k)" using D(5) [of u k] assms(4) by simp
  have r: "ul_pc s k \<noteq> P_Remove v us" for v us using D(7) [of k] assms(2) by (cases "k = 0") auto
  have "can_move sh s k" by (rule busy_moves [OF assms(1) _ r]) (use k D(4) [of k] assms(3) in \<open>cases "ul_pc s k"; auto simp: pending_def\<close>)+
  then show ?thesis using k by auto
qed

lemma waiter_moves:
  assumes "users_lock_inv sh s" and "\<And>u us. ul_pc s 0 \<noteq> P_Remove u us" and "ul_pc s i \<noteq> UIdle" and "\<And>n. ul_pc s i \<noteq> K_Own n"
  shows "\<exists>j. can_move sh s j \<and> ul_pc s j \<noteq> UIdle"
proof -
  note D = locks_invD [OF assms(1)]
  have r: "ul_pc s i \<noteq> P_Remove v us" for v us using D(7) [of i] assms(2) by (cases "i = 0") auto
  have tab: "in_table s u" if "wants (ul_pc s i) = Some u" for u
    using that D(1) D(4) [of i] by (cases "ul_pc s i" rule: wants.cases) (auto simp: table_ok_def pc_defs)
  show ?thesis
  proof (cases "wants (ul_pc s i) = None \<or> (\<exists>u. wants (ul_pc s i) = Some u \<and> ul_rec s u = None)")
    case True
    then show ?thesis using busy_moves [OF assms(1,3) r True] assms(3,4) by blast
  next
    case False
    then obtain u k where "wants (ul_pc s i) = Some u" "ul_rec s u = Some k" by auto
    then show ?thesis using owner_moves [OF assms(1,2) tab] by blast
  qed
qed

text \<open>
  C13. Outside the removal of a record the goroutines never block each other: in every reachable state in which some goroutine is
  inside \<open>OnConnect\<close>, \<open>OnDisconnect\<close> or the purge, and the cleanup goroutine is not waiting in
  \<open>Remove\<close>, some goroutine that is inside one of them can move on.
\<close>

theorem users_locks_progress:
  assumes "reach users_locks_init (users_lock_step sh) s" and "ul_pc s i \<noteq> UIdle" and "\<And>u us. ul_pc s 0 \<noteq> P_Remove u us"
  shows "\<exists>j t. ul_pc s j \<noteq> UIdle \<and> users_lock_step sh s t \<and> ul_pc t j \<noteq> ul_pc s j"
proof -
  note I = users_locks.reach_inv [OF assms(1)]
  have "\<exists>j. can_move sh s j \<and> ul_pc s j \<noteq> UIdle"
  proof (cases "\<exists>n. ul_pc s i = K_Own n")
    case False
    then show ?thesis using waiter_moves [OF I assms(3,2)] by blast
  next
    case True
    then obtain n where n: "ul_pc s i = K_Own n" by blast
    show ?thesis
    proof (cases "ul_shard s (sh (ul_id s n))")
      case None
      then show ?thesis using busy_moves [OF I assms(2)] n assms(2) by auto
    next
      case (Some j)
      then have "shard_for (ul_pc s j) \<noteq> None" using locks_invD(6) [OF I, of _ j] by (auto simp: owns_def split: option.splits)
      then show ?thesis using waiter_moves [OF I assms(3), of j] by (cases "ul_pc s j") auto
    qed
  qed
  then show ?thesis by (auto simp: can_move_def)
qed

theorem users_locks_progress_witness:
  "\<exists>s j t. ul_pc s 1 = K_Own 0 \<and> ul_pc s j \<noteq> UIdle \<and> users_lock_step (\<lambda>_. 0) s t \<and> ul_pc t j \<noteq> ul_pc s j"
proof -
  obtain s where s: "users_locks_init s" by (auto simp: users_locks_init_def)
  have idle: "ul_pc s = (\<lambda>_. UIdle)" "ul_next s = 0" using s by (simp_all add: users_locks_init_def)
  let ?t = "s\<lparr>ul_pc := (ul_pc s)(1 := K_Own 0), ul_rec := (ul_rec s)(0 := Some 1), ul_id := (ul_id s)(0 := ''u''), ul_next := Suc 0\<rparr>"
  have t: "reach users_locks_init (users_lock_step (\<lambda>_. 0)) ?t"
    by (rule next_step [OF start [of users_locks_init, OF s]])
      (use connect_start [of s 1 0 "\<lambda>_. 0" "''u''"] idle in \<open>auto simp: users_lock_step_def\<close>)
  show ?thesis
    using users_locks_progress [OF t, of 1] by (intro exI [of _ ?t]) (simp add: idle)
qed

subsection \<open>Deadlock\<close>

lemma stuck_step:
  assumes "users_lock_step sh s t" and "users_lock_inv sh s"
    and "ul_pc s 0 = P_Remove u us" and "ul_pc s i = K_Found n u" and "ul_id s n = k"
  shows "ul_pc t 0 = P_Remove u us \<and> ul_pc t i = K_Found n u \<and> ul_id t n = k"
proof -
  note D = locks_invD [OF assms(2)]
  have n: "n < ul_next s" "ul_table s (ul_id s n) = Some u" using D(4) [of i] assms(4) by (auto simp: pending_def)
  then have u: "ul_id s u = k" using D(1) assms(5) by (auto simp: table_ok_def)
  have "ul_rec s u = Some 0" using D(5) [of u 0] assms(3) by simp
  moreover have "ul_shard s (sh k) = Some i" using D(6) [of "sh k" i] assms(4,5) by (simp add: owns_def)
  ultimately show ?thesis
    using assms(1,3-5) n u unfolding users_lock_step_def
    by (auto elim!: connect_lock_step.cases disconnect_lock_step.cases purge_lock_step.cases)
qed

lemma stuck_steps:
  assumes "(users_lock_step sh)\<^sup>*\<^sup>* s t" and "users_lock_inv sh s"
    and "ul_pc s 0 = P_Remove u us" and "ul_pc s i = K_Found n u" and "ul_id s n = k"
  shows "ul_pc t 0 = P_Remove u us \<and> ul_pc t i = K_Found n u \<and> ul_id t n = k \<and> ul_shard t (sh k) = Some i"
proof -
  have t: "users_lock_inv sh t \<and> ul_pc t 0 = P_Remove u us \<and> ul_pc t i = K_Found n u \<and> ul_id t n = k"
    using assms
  proof (induction rule: rtranclp_induct)
    case (step t v)
    then show ?case using stuck_step [of sh t v u us i n k] users_lock_inv_step [of sh t v] by simp
  qed simp
  then show ?thesis using locks_invD(6) [of sh t "sh k" i] by (simp add: owns_def)
qed

text \<open>
  C30. The purge and \<open>OnConnect\<close> take the lock of a record and the lock of its shard in opposite order and
  can lock each other out: for every user id and every spreading of ids over shards there is a reachable state
  after which, whatever the other goroutines do, the cleanup goroutine never gets past \<open>Remove\<close>, the
  connecting goroutine never gets past the lock of the record, and the shard stays locked.
\<close>

theorem purge_connect_deadlock:
  "\<exists>s. reach users_locks_init (users_lock_step sh) s \<and>
     {t. (users_lock_step sh)\<^sup>*\<^sup>* s t} \<subseteq>
     {t. ul_pc t 0 = P_Remove 0 [] \<and> ul_pc t 1 = K_Found 1 0 \<and> ul_id t 1 = k \<and> ul_shard t (sh k) = Some 1}"
proof -
  obtain s where s: "reach users_locks_init (users_lock_step sh) s" "ul_pc s 0 = P_Remove 0 []" "ul_pc s 1 = K_Found 1 0" "ul_id s 1 = k"
    using crossing_reachable by blast
  show ?thesis using s(1) stuck_steps [OF _ users_locks.reach_inv [OF s(1)] s(2-4)] by blast
qed

end
