(* ===== verification/Metrics.thy ===== *)
theory Metrics
  imports Running User_Locks
begin

text \<open>
  The metrics of the RTM manager and of the guest manager (\<open>src/signaling/rtm/metrics.go\<close>,
  \<open>src/signaling/guest/metrics.go\<close>). The collector locks the shards of the concurrent maps and the channels of
  groups while it counts. That the channels never hold it up rests on an invariant of the running server:
  only channels without a replace handler can lose their lock. A shard that stays locked does, and the
  deadlock of the user table leaves one locked.
\<close>

section \<open>Group channels are never wedged\<close>

text \<open>The channels whose lock can leak are those without a replace handler.\<close>

definition lock_inv :: "world \<Rightarrow> bool" where
  "lock_inv w \<longleftrightarrow> (\<forall>h. ch_locked (w_chans w h) \<longrightarrow> \<not> cc_Replace (channel_config (w_chans w h)))"

definition locks_kept :: "world \<Rightarrow> world \<Rightarrow> bool" where
  "locks_kept w w' \<longleftrightarrow> (\<forall>h. ch_locked (w_chans w' h) = ch_locked (w_chans w h) \<and>
     ch_config (w_chans w' h) = ch_config (w_chans w h))"

lemma lock_inv_kept: "lock_inv w \<Longrightarrow> locks_kept w w' \<Longrightarrow> lock_inv w'"
  by (auto simp: lock_inv_def locks_kept_def channel_config_def)

lemma locks_kept_trans: "locks_kept w1 w2 \<Longrightarrow> locks_kept w2 w3 \<Longrightarrow> locks_kept w1 w3"
  by (simp add: locks_kept_def)

lemma locks_same_chans: "w_chans w' = w_chans w \<Longrightarrow> locks_kept w w'"
  by (simp add: locks_kept_def)

lemma core_locks: "core_eq w w' \<Longrightarrow> locks_kept w w'"
  by (rule locks_same_chans) (simp add: core_eq_def)

lemma room_frame_locks: "room_frame ph w w' \<Longrightarrow> locks_kept w w'"
  by (rule locks_same_chans) (simp add: room_frame_def)

lemma remove_locks: "locks_kept w (snd (channel_remove h uid d w))"
  by (simp add: locks_kept_def channel_remove_def Let_def split: option.splits)

lemma lock_inv_effect:
  assumes "lock_inv w" and "webrtc_allowed n msg uid c prof own w e"
  shows "lock_inv (apply_effect e w)"
proof (cases e)
  case (ENew cid cfg)
  obtain h w' where new: "NewChannel cid cfg w = (h, w')" by (cases "NewChannel cid cfg w")
  have "lock_inv w'"
    using assms(1) NewChannel_result(8,9) [OF new] unfolding lock_inv_def by metis
  then show ?thesis using ENew new by simp
next
  case (EJoin h u d b)
  show ?thesis unfolding EJoin
    by (rule lock_inv_kept [OF assms(1)]) (simp add: locks_kept_def channel_store_chans)
next
  case (EWedge h)
  then show ?thesis using assms by (auto simp: lock_inv_def channel_config_def)
next
  case (ELeave h u)
  then show ?thesis using lock_inv_kept [OF assms(1) remove_locks] by simp
qed (use assms(1) in \<open>auto intro: lock_inv_kept simp: locks_kept_def\<close>)

lemma lock_inv_message:
  assumes "lock_inv w" and "server_inv ph w" and "ph c = PhOpen"
  shows "lock_inv (snd (processWebRTCMessage env c msg w))"
proof -
  have inv: "users_inv ph w" "channel_table_ok w" using assms(2) by (simp_all add: server_inv_def)
  obtain u where u: "bound_user c w = Some u"
    by (rule live_bound [OF inv(1), of c]) (simp_all add: assms(3) live_def)
  show ?thesis
    by (rule effects_invariant [where I = lock_inv, OF processWebRTCMessage_effects [OF inv(2) u refl] assms(1)])
      (rule lock_inv_effect)
qed

lemma lock_inv_read:
  assumes "lock_inv w" and "server_inv ph w" and "ph c = PhOpen" and "readPump_text env c msg w = (rr, w')"
  shows "lock_inv w'"
  using readPump_outcome [OF assms(4)]
proof (elim disjE exE conjE)
  assume "core_eq w w'"
  then show ?thesis by (rule lock_inv_kept [OF assms(1) core_locks])
next
  fix m v assume v: "core_eq w v" and w': "core_eq (snd (processWebRTCMessage env c m v)) w'"
  have "lock_inv (snd (processWebRTCMessage env c m v))"
    by (rule lock_inv_message [of _ ph]) (use assms lock_inv_kept [OF _ core_locks [OF v]] server_inv_core [OF _ v] in auto)
  then show ?thesis by (rule lock_inv_kept [OF _ core_locks [OF w']])
qed

lemma closed_cbs_locks: "locks_kept w (snd (run_closed_cbs c cbs w))"
proof (induction cbs arbitrary: w)
  case (Cons cb cbs)
  have "locks_kept w (snd (run_closed_cb c cb w))"
    by (cases cb) (simp_all add: run_closed_cb_def remove_locks locks_same_chans)
  then show ?case
    using Cons locks_kept_trans by (auto split: prod.splits handler_result.splits)
qed (simp add: locks_kept_def)

lemma close_conn_locks: "close_conn now c w = (r, w') \<Longrightarrow> locks_kept w w'"
  using closed_cbs_locks [of "upd_conn c (\<lambda>_. snd (conn_Close now (w_conns w c))) w" c "fst (conn_Close now (w_conns w c))"]
  by (auto simp: close_conn_def locks_kept_def split: prod.splits)

text \<open>The MCU side does not touch channels.\<close>

lemma Attach_chans: "Attach env plugin handle p w = (r, w') \<Longrightarrow> w_chans w' = w_chans w"
  by (auto simp: Attach_def Let_def split: prod.splits option.splits dest!: arg_cong [where f = snd])

lemma pipeline_task_locks:
  assumes "run_task env t w = (r, w')" and "\<not> channel_task t"
  shows "locks_kept w w'"
proof -
  have det: "w_chans (snd (Detach plugin handle v)) = w_chans v" for plugin handle v
    by (simp add: Detach_def split: prod.splits option.splits)
  show ?thesis
  proof (cases t)
    case (TPipelineClose p)
    have close: "locks_kept w v'" if "close_conn now c (snd (Detach plugin handle v)) = (x, v')" "w_chans v = w_chans w"
      for now c plugin handle v x v'
      using close_conn_locks [OF that(1)] that(2) det by (simp add: locks_kept_def)
    show ?thesis
      using assms(1) TPipelineClose close
      by (auto simp: run_task_def pipeline_Close_def Let_def locks_same_chans split: option.splits)
  qed (use assms in \<open>auto simp: channel_task_def run_task_def pipeline_Connect_def pipeline_reconnect_def pipeline_watch_def
      reconnect_timer_def watch_timer_def pipeline_onReset_def Let_def intro!: locks_same_chans
      split: if_splits option.splits sum.splits prod.splits dest!: Attach_chans\<close>)
qed

lemma mcu_websocket_locks:
  "mcu_HTTPWebsocketHandler env meth transaction up w = (out, w') \<Longrightarrow> locks_kept w w'"
  by (intro locks_same_chans)
    (auto simp: mcu_HTTPWebsocketHandler_def mcu_HandleWebsocketConnect_def mcu_upgraded_def mcu_new_conn_def mcu_attach_conn_def
      pipeline_onConnect_def channel_pipeline_announce_def pipeline_Send_def Let_def
      split: if_splits option.splits upgrade.splits handler_result.splits prod.splits dest!: arg_cong [where f = snd])

lemma purge_locks: "locks_kept w (purgeExpiredAttached now w)"
proof (rule locks_same_chans)
  have "w_chans (fold (\<lambda>e. upd_att (snd e) (\<lambda>r. r\<lparr>ar_onConnect := None, ar_onText := None\<rparr>)) old w) = w_chans w"
    for old :: "(string \<times> att_ref) list"
    by (induction old arbitrary: w) simp_all
  then show "w_chans (purgeExpiredAttached now w) = w_chans w" by (simp add: purgeExpiredAttached_def Let_def)
qed

lemma Channel_Cleanup_locks: "Channel_Cleanup h w = Some (b, w') \<Longrightarrow> locks_kept w w'"
  by (auto simp: Channel_Cleanup_def Let_def locks_kept_def split: if_splits option.splits)

lemma cleanup_all_locks: "locks_kept w (snd (cleanup_all es w))"
proof (induction es arbitrary: w)
  case (Cons e es)
  show ?case
  proof (cases "Channel_Cleanup (cr_channel (snd e)) w")
    case (Some bw)
    obtain b v where bw: "bw = (b, v)" by (cases bw)
    have v: "locks_kept w v" using Some bw by (simp add: Channel_Cleanup_locks)
    show ?thesis
    proof (cases b)
      case True
      then show ?thesis
        using Some bw v Cons [of "upd_rtm (\<lambda>m. m\<lparr>rm_channels := gm_del (fst e) (rm_channels m)\<rparr>) v"]
        by (simp add: locks_kept_def)
    next
      case False
      then show ?thesis using Some bw locks_kept_trans [OF v Cons] by simp
    qed
  qed (simp add: locks_kept_def)
qed (simp add: locks_kept_def)

lemma cleanup_tick_locks: "cleanup_tick now w = (r, w') \<Longrightarrow> locks_kept w w'"
proof -
  assume a: "cleanup_tick now w = (r, w')"
  let ?v = "upd_rtm (purgeExpiredKeys now) w"
  obtain x y where xy: "purgeEmptyChannels now ?v = (x, y)" by (cases "purgeEmptyChannels now ?v")
  have "locks_kept w (snd (purgeEmptyChannels now ?v))"
    using cleanup_all_locks [of ?v] by (simp add: purgeEmptyChannels_def locks_kept_def split: option.splits)
  then have "locks_kept w y" using xy by simp
  moreover have "w_chans w' = w_chans y"
    using a xy by (auto simp: cleanup_tick_def purgeInactiveUsers_def Let_def split: handler_result.splits)
  ultimately show ?thesis by (simp add: locks_kept_def)
qed

definition sys_lock_inv :: "rtm_sys \<Rightarrow> bool" where
  "sys_lock_inv s \<longleftrightarrow> sys_inv s \<and> lock_inv (sy_w s)"

lemma lock_inv_step:
  assumes "rtm_step s t" and "sys_inv s" and "lock_inv (sy_w s)"
  shows "lock_inv (sy_w t)"
  using assms
proof (induction rule: rtm_step.induct)
  case (connect s henv req res w')
  obtain v where "core_eq (sy_w s) v" and "core_eq v w' \<or>
      (\<exists>user auth. user \<noteq> [] \<and> core_eq (snd (rtm_Connect (hv_rtm henv) user auth v)) w')"
    using connect_outcome [OF connect(2)] by blast
  moreover have "locks_kept v (snd (rtm_Connect (hv_rtm henv) user auth v))" for user auth
    by (rule room_frame_locks [OF Connect_room_frame])
  ultimately have "locks_kept (sy_w s) w'" using core_locks locks_kept_trans by metis
  then show ?case using connect lock_inv_kept by auto
next
  case (turn s henv req res' w')
  then show ?case using lock_inv_kept [OF _ core_locks [OF turn_core [OF turn(2)]]] by simp
next
  case (websocket s henv meth key up out w')
  have "w_chans w' = w_chans (sy_w s)"
    using websocket_outcome [OF websocket(2)]
    by (auto simp: drops_keys_def trades_key_def core_eq_def rtm_new_conn_def Let_def)
  then show ?case using websocket lock_inv_kept [OF _ locks_same_chans] by simp
next
  case (serve s c env r w')
  have "room_frame (sy_ph s) (rtm_serve_begin c (sy_w s)) w'"
    using OnConnect_frame [of "sy_ph s" c env _ r w', OF serve(2,3)] by simp
  then have "w_chans w' = w_chans (sy_w s)" by (simp add: room_frame_def rtm_serve_begin_def)
  then show ?case using serve lock_inv_kept [OF _ locks_same_chans] by simp
next
  case (read_text s c env msg rr w')
  then show ?case using lock_inv_read [of "sy_w s" "sy_ph s" c env msg rr w'] by (simp add: sys_inv_def full_inv_def)
next
  case (close s c now r w')
  then show ?case using lock_inv_kept [OF _ close_conn_locks [OF close(3)]] by simp
next
  case (disconnect s c env r w')
  have "w_chans w' = w_chans (sy_w s)"
    using disconnect(3) by (auto simp: rtm_OnDisconnect_def Let_def split: option.splits bound_value.splits if_splits)
  then show ?case
    using disconnect lock_inv_kept [OF _ locks_same_chans, of "sy_w s" "rtm_serve_end c w'"] by (simp add: rtm_serve_end_def)
next
  case (task s xs t ys env r w')
  let ?v = "(sy_w s)\<lparr>w_tasks := xs @ ys\<rparr>"
  have "room_inv (sy_ph s) (sy_w s)" using task by (simp add: sys_inv_def full_inv_def server_inv_def)
  then have "task_ok (sy_w s) t" using room_invD(1) task(2) by simp
  then have "task_ok ?v t" by (rule task_ok_bound) (simp_all add: bound_user_def)
  then have "locks_kept ?v w'"
    using channel_task_run(2) [of ?v t env r w'] pipeline_task_locks [OF task(3)] task(3) core_locks by blast
  then have "locks_kept (sy_w s) w'" by (simp add: locks_kept_def)
  then show ?case using task lock_inv_kept by simp
next
  case (goodbye s c err r w')
  then show ?case using lock_inv_kept [OF _ core_locks [OF goodbye_core [OF goodbye(3)]]] by simp
next
  case (cleanup s now r w')
  then show ?case using lock_inv_kept [OF _ cleanup_tick_locks [OF cleanup(2)]] by simp
next
  case (status s new)
  then show ?case using lock_inv_kept [OF _ core_locks [OF status_core]] by simp
next
  case (mcu_websocket s env meth transaction up out w')
  then show ?case using lock_inv_kept [OF _ mcu_websocket_locks [OF mcu_websocket(3)]] by simp
next
  case (mcu_serve s c r w')
  have "w_chans w' = w_chans (sy_w s)" using mcu_serve(3) by (auto simp: mcu_served_def mcu_OnConnect_def mcu_serve_begin_def split: if_splits)
  then show ?case using mcu_serve lock_inv_kept [OF _ locks_same_chans] by simp
next
  case (mcu_read_text s c msg rr w')
  have "core_eq (sy_w s) w'"
    using full_mcu_text(2) [of "sy_mcu s" "sy_ph s" "sy_w s" c msg rr w'] mcu_read_text by (simp add: sys_inv_def)
  then show ?case using mcu_read_text lock_inv_kept [OF _ core_locks] by simp
next
  case (mcu_close s c now r w')
  then show ?case using lock_inv_kept [OF _ close_conn_locks [OF mcu_close(3)]] by simp
next
  case (mcu_disconnect s c)
  have "w_chans (mcu_finished c (sy_w s)) = w_chans (sy_w s)" by (simp add: mcu_finished_def mcu_OnDisconnect_def mcu_serve_end_def)
  then show ?case using mcu_disconnect lock_inv_kept [OF _ locks_same_chans] by simp
next
  case (mcu_goodbye s c err r w')
  then show ?case by (simp add: mcu_OnBeforeDisconnect_def)
next
  case (mcu_cleanup s now)
  then show ?case using lock_inv_kept [OF _ purge_locks] by simp
qed (simp_all add: lock_inv_def)

interpretation rtm_locks: invariant_system rtm_init rtm_step sys_lock_inv
proof unfold_locales
  show "sys_lock_inv s" if "rtm_init s" for s
    using that sys_inv_init [OF that] by (auto simp: sys_lock_inv_def rtm_init_def lock_inv_def start_world_def)
  show "sys_lock_inv t" if "sys_lock_inv s" "rtm_step s t" for s t
    using that sys_inv_step [OF that(2)] lock_inv_step [OF that(2)] by (auto simp: sys_lock_inv_def)
qed

section \<open>Metrics\<close>

text \<open>
  \<open>prometheus.BuildFQName\<close> joins the parts that are not empty with underscores. The names of the
  counters are those of the variables, which the handlers increment as fields of the state.
\<close>

definition BuildFQName :: "string \<Rightarrow> string \<Rightarrow> string \<Rightarrow> string" where
  "BuildFQName namespace subsystem name =
     (if name = [] then []
      else (if namespace = [] then [] else namespace @ ''_'') @ (if subsystem = [] then [] else subsystem @ ''_'') @ name)"

definition metricsSubsystem :: string where "metricsSubsystem = ''rtm''"

definition rtm_counters :: "rtm_metrics \<Rightarrow> (string \<times> nat) list" where
  "rtm_counters mt = map (\<lambda>(n, v). (BuildFQName [] metricsSubsystem n, v))
     [(''channels_created_total'', mt_channelNew mt),
      (''channels_cleanedup_total'', mt_channelCleanup mt),
      (''channels_connections_added_total'', mt_channelAdd mt),
      (''channels_connections_removed_total'', mt_channelRemove mt),
      (''connections_connected_total'', mt_connectionAdd mt),
      (''connections_disconnected_total'', mt_connectionRemove mt),
      (''distinct_users_connected_total'', mt_userNew mt),
      (''distinct_users_cleanedup_total'', mt_userCleanup mt),
      (''http_connect_success_total'', mt_httpConnect mt),
      (''http_turn_success_total'', mt_httpTURN mt),
      (''http_websocket_success_total'', mt_httpWebsocket mt)]"

definition guest_counter_names :: "string list" where
  "guest_counter_names = [BuildFQName [] ''guest'' ''http_logon_success_total'']"

subsection \<open>The collector\<close>

text \<open>
  The maximum counters are of a library type \<open>'u\<close>; its operations \<open>Set\<close> and \<open>Value\<close> are arguments. The
  values are the integers before their conversion to floating point, which is exact below \<open>2 ^ 53\<close>.
\<close>

record 'u managerCollector =
  mc_channelsMax :: 'u
  mc_groupChannelsMax :: 'u
  mc_groupChannelsConnectionsMax :: 'u
  mc_connectionsMax :: 'u
  mc_usersMax :: 'u

definition NewManagerCollector :: "'u \<Rightarrow> 'u managerCollector" where
  "NewManagerCollector getUintMax = \<lparr>mc_channelsMax = getUintMax, mc_groupChannelsMax = getUintMax,
     mc_groupChannelsConnectionsMax = getUintMax, mc_connectionsMax = getUintMax, mc_usersMax = getUintMax\<rparr>"

datatype metric = GaugeMetric string u64 | CounterMetric string u64

text \<open>The loop over the channels: all, those of groups, and the connections in those; it locks the latter.\<close>

fun count_channels :: "world \<Rightarrow> channelRecord list \<Rightarrow> (u64 \<times> u64 \<times> u64) option" where
  "count_channels w [] = Some (0, 0, 0)"
| "count_channels w (cr # crs) =
     (let ch = w_chans w (cr_channel cr)
      in if cc_Group (channel_config ch) \<noteq> [] then
           if ch_locked ch then None
           else map_option (\<lambda>(a, g, n). (a + 1, g + 1, n + of_nat (length (ch_connections ch)))) (count_channels w crs)
         else map_option (\<lambda>(a, g, n). (a + 1, g, n)) (count_channels w crs))"

text \<open>
  Which of the concurrent maps of the manager has a shard that somebody keeps locked: \<open>Count\<close> and
  \<open>IterBuffered\<close> lock every shard for reading, and wait.
\<close>

record shards_held =
  sh_connections :: bool
  sh_users :: bool
  sh_channels :: bool

definition no_shard_held :: shards_held where
  "no_shard_held = \<lparr>sh_connections = False, sh_users = False, sh_channels = False\<rparr>"

text \<open>\<open>None\<close>: the collector never returns.\<close>

definition collector_Collect ::
  "shards_held \<Rightarrow> (u64 \<Rightarrow> 'u \<Rightarrow> 'u) \<Rightarrow> ('u \<Rightarrow> u64) \<Rightarrow> 'u managerCollector \<Rightarrow> world \<Rightarrow> (metric list \<times> 'u managerCollector) option" where
  "collector_Collect held set_max value mc w =
     (let fq = BuildFQName [] metricsSubsystem;
          numConnections = of_nat (length (rm_connections (w_rtm w)));
          numUsers = of_nat (length (rm_users (w_rtm w)));
          mc1 = mc\<lparr>mc_connectionsMax := set_max numConnections (mc_connectionsMax mc), mc_usersMax := set_max numUsers (mc_usersMax mc)\<rparr>
      in case (if sh_connections held \<or> sh_users held \<or> sh_channels held then None
               else count_channels w (map snd (rm_channels (w_rtm w)))) of
           None \<Rightarrow> None
         | Some (numAll, numGroup, numGroupConnections) \<Rightarrow>
             (let mc2 = mc1\<lparr>mc_channelsMax := set_max numAll (mc_channelsMax mc1),
                    mc_groupChannelsMax := set_max numGroup (mc_groupChannelsMax mc1),
                    mc_groupChannelsConnectionsMax := set_max numGroupConnections (mc_groupChannelsConnectionsMax mc1)\<rparr>
              in Some ([GaugeMetric (fq ''connections_connected_current'') numConnections,
                        CounterMetric (fq ''connections_connected_max'') (value (mc_connectionsMax mc2)),
                        GaugeMetric (fq ''distinct_users_connected_current'') numUsers,
                        CounterMetric (fq ''distinct_users_connected_max'') (value (mc_usersMax mc2)),
                        GaugeMetric (fq ''channels_created_current'') numAll,
                        CounterMetric (fq ''channels_created_max'') (value (mc_channelsMax mc2)),
                        GaugeMetric (fq ''group_channels_created_current'') numGroup,
                        CounterMetric (fq ''group_channels_created_max'') (value (mc_groupChannelsMax mc2)),
                        GaugeMetric (fq ''group_channels_connections_connected_current'') numGroupConnections,
                        CounterMetric (fq ''group_channels_connections_connected_max'') (value (mc_groupChannelsConnectionsMax mc2))],
                       mc2)))"

fun metric_name :: "metric \<Rightarrow> string" where
  "metric_name (GaugeMetric n v) = n"
| "metric_name (CounterMetric n v) = n"

lemma count_channels_Some:
  assumes "\<forall>cr \<in> set crs. cc_Group (channel_config (w_chans w (cr_channel cr))) \<noteq> [] \<longrightarrow> \<not> ch_locked (w_chans w (cr_channel cr))"
  shows "count_channels w crs =
    (let gs = filter (\<lambda>cr. cc_Group (channel_config (w_chans w (cr_channel cr))) \<noteq> []) crs
     in Some (of_nat (length crs), of_nat (length gs),
          of_nat (sum_list (map (\<lambda>cr. length (ch_connections (w_chans w (cr_channel cr)))) gs))))"
  using assms by (induction crs) (simp_all add: Let_def add.commute)

lemma group_unlocked:
  assumes "channel_table_ok w" and "lock_inv w" and "(k, cr) \<in> set (rm_channels (w_rtm w))"
  shows "cc_Group (channel_config (w_chans w (cr_channel cr))) \<noteq> [] \<longrightarrow> \<not> ch_locked (w_chans w (cr_channel cr))"
proof -
  have "chan_named k (w_chans w (cr_channel cr))" using assms(1,3) by (auto simp: channel_table_ok_def)
  then have "cc_Group (channel_config (w_chans w (cr_channel cr))) \<noteq> [] \<longrightarrow> cc_Replace (channel_config (w_chans w (cr_channel cr)))"
    by (auto simp: chan_named_def channel_config_def ChannelDefaultConfig_def group_channel_config_def)
  then show ?thesis using assms(2) by (auto simp: lock_inv_def)
qed

lemma count_reachable:
  assumes "reach rtm_init rtm_step s" and "chans = map (\<lambda>e. w_chans (sy_w s) (cr_channel (snd e))) (rm_channels (w_rtm (sy_w s)))"
    and "groups = filter (\<lambda>ch. cc_Group (channel_config ch) \<noteq> []) chans"
  shows "count_channels (sy_w s) (map snd (rm_channels (w_rtm (sy_w s)))) =
    Some (of_nat (length chans), of_nat (length groups), of_nat (sum_list (map (\<lambda>ch. length (ch_connections ch)) groups)))"
proof -
  let ?w = "sy_w s"
  let ?crs = "map snd (rm_channels (w_rtm ?w))"
  have inv: "channel_table_ok ?w" "lock_inv ?w"
    using rtm_locks.reach_inv [OF assms(1)] by (simp_all add: sys_lock_inv_def sys_inv_def full_inv_def server_inv_def)
  have "\<forall>cr \<in> set ?crs. cc_Group (channel_config (w_chans ?w (cr_channel cr))) \<noteq> [] \<longrightarrow> \<not> ch_locked (w_chans ?w (cr_channel cr))"
    using group_unlocked [OF inv] by auto
  note count = count_channels_Some [OF this, unfolded Let_def]
  have groups: "length (filter (\<lambda>cr. cc_Group (channel_config (w_chans ?w (cr_channel cr))) \<noteq> []) ?crs) = length groups"
    "map (\<lambda>cr. length (ch_connections (w_chans ?w (cr_channel cr))))
       (filter (\<lambda>cr. cc_Group (channel_config (w_chans ?w (cr_channel cr))) \<noteq> []) ?crs) =
     map (\<lambda>ch. length (ch_connections ch)) groups"
    by (simp_all add: assms(2,3) filter_map comp_def)
  show ?thesis unfolding count groups by (simp add: assms(2))
qed

lemma Collect_held:
  "sh_connections held \<or> sh_users held \<or> sh_channels held \<Longrightarrow> collector_Collect held set_max value mc w = None"
  by (simp add: collector_Collect_def Let_def)

text \<open>
  The deadlock of the user table holds a shard for ever: there is a reachable state of the lock
  operations from which on the collector never returns.
\<close>

lemma Collect_blocked:
  "\<exists>s. reach users_locks_init (users_lock_step sh) s \<and>
     (\<forall>t. (users_lock_step sh)\<^sup>*\<^sup>* s t \<longrightarrow>
        collector_Collect (no_shard_held\<lparr>sh_users := (\<exists>x. ul_shard t x \<noteq> None)\<rparr>) set_max value mc w = None)"
proof -
  obtain s where s: "reach users_locks_init (users_lock_step sh) s" "ul_pc s 0 = P_Remove 0 []" "ul_pc s 1 = K_Found 1 0"
    using crossing_reachable by blast
  have "ul_shard t (sh (ul_id s 1)) = Some 1" if "(users_lock_step sh)\<^sup>*\<^sup>* s t" for t
    using stuck_steps [OF that users_locks.reach_inv [OF s(1)] s(2,3) refl] by blast
  then have "sh_users (no_shard_held\<lparr>sh_users := (\<exists>x. ul_shard t x \<noteq> None)\<rparr>)" if "(users_lock_step sh)\<^sup>*\<^sup>* s t" for t
    using that by auto
  then show ?thesis using s(1) Collect_held by (intro exI [of _ s] conjI allI impI) blast+
qed

text \<open>
  C17. Collecting the metrics waits for nobody but the holder of a shard: in every reachable state it returns
  if and only if no shard of the tables of connections, users and channels stays locked, although it
  locks channels too. When it returns it reports what is there: the gauges are the numbers of
  connections, of users, of channels, of channels of groups and of the connections in the latter; no
  two of the reported metrics share a name, and none has the name of a counter.
\<close>

theorem Collect_returns_exact:
  assumes "reach rtm_init rtm_step s" and "chans = map (\<lambda>e. w_chans (sy_w s) (cr_channel (snd e))) (rm_channels (w_rtm (sy_w s)))"
    and "groups = filter (\<lambda>ch. cc_Group (channel_config ch) \<noteq> []) chans"
  shows "(collector_Collect held set_max value mc (sy_w s) = None \<longleftrightarrow> sh_connections held \<or> sh_users held \<or> sh_channels held) \<and>
   (\<forall>ms mc'. collector_Collect held set_max value mc (sy_w s) = Some (ms, mc') \<longrightarrow>
    GaugeMetric ''rtm_connections_connected_current'' (rtm_NumActive (sy_w s)) \<in> set ms \<and>
    GaugeMetric ''rtm_distinct_users_connected_current'' (of_nat (length (rm_users (w_rtm (sy_w s))))) \<in> set ms \<and>
    GaugeMetric ''rtm_channels_created_current'' (of_nat (length chans)) \<in> set ms \<and>
    GaugeMetric ''rtm_group_channels_created_current'' (of_nat (length groups)) \<in> set ms \<and>
    GaugeMetric ''rtm_group_channels_connections_connected_current''
      (of_nat (sum_list (map (\<lambda>ch. length (ch_connections ch)) groups))) \<in> set ms \<and>
    distinct (map metric_name ms @ map fst (rtm_counters (w_metrics (sy_w s)))))"
  unfolding collector_Collect_def Let_def count_reachable [OF assms]
  by (simp add: BuildFQName_def metricsSubsystem_def rtm_NumActive_def rtm_counters_def)

lemma bob_groups: "length (filter (\<lambda>ch. cc_Group (channel_config ch) \<noteq> [])
    (map (\<lambda>e. w_chans bob_joined (cr_channel (snd e))) (rm_channels (w_rtm bob_joined)))) = 1"
  by code_simp

theorem Collect_returns_exact_witness:
  "\<exists>ms mc'. collector_Collect no_shard_held max id (NewManagerCollector 0) bob_joined = Some (ms, mc') \<and>
     GaugeMetric ''rtm_group_channels_created_current'' 1 \<in> set ms"
proof -
  note exact = Collect_returns_exact [OF bob_joins refl refl, of no_shard_held max id "NewManagerCollector 0", unfolded run_state_sel(1)]
  obtain ms mc' where ms: "collector_Collect no_shard_held max id (NewManagerCollector 0) bob_joined = Some (ms, mc')"
    using exact by (auto simp: no_shard_held_def)
  moreover have "GaugeMetric ''rtm_group_channels_created_current'' (of_nat (length (filter (\<lambda>ch. cc_Group (channel_config ch) \<noteq> [])
      (map (\<lambda>e. w_chans bob_joined (cr_channel (snd e))) (rm_channels (w_rtm bob_joined)))))) \<in> set ms"
    using exact ms by blast
  ultimately show ?thesis unfolding bob_groups by auto
qed

lemma bob_collected: "\<exists>ms mc'. collector_Collect no_shard_held max id (NewManagerCollector 0) bob_joined = Some (ms, mc')"
  using count_reachable [OF bob_joins refl refl] by (simp add: collector_Collect_def no_shard_held_def Let_def run_state_sel(1))

end
