(* ===== verification/License.thy ===== *)
theory License
  imports Metrics Server
begin

text \<open>
  The licence checks of the supported build (\<open>src/signaling/server/build-supported.go\<close>,
  \<open>src/cmd/kwmserverd/build-supported.go\<close>): which features of the configuration and which metrics are
  compared with the claims of the product, and the goroutines that check in turn and publish the result
  as the status of the server. The claims library is an argument.
\<close>

section \<open>Errors and claims\<close>

text \<open>
  An error of the claims library has a number or not; \<open>fmt.Errorf\<close> with the verb \<open>%w\<close> wraps it, and
  \<open>errors.As\<close> finds the first numeric error of the chain.
\<close>

datatype check_error = ErrNumeric u64 | ErrText string | ErrWrapped string check_error

fun errors_As :: "check_error \<Rightarrow> u64 option" where
  "errors_As (ErrNumeric n) = Some n"
| "errors_As (ErrText s) = None"
| "errors_As (ErrWrapped s e) = errors_As e"

text \<open>
  The operations on claims of a library type \<open>'c\<close>; a value of a metric is a floating point number of
  type \<open>'f\<close>. \<open>CurrentKopanoProductClaims\<close> returns claims and possibly an error.
\<close>

record ('c, 'f) kustomer =
  ku_EnsureOK :: "'c \<Rightarrow> string \<Rightarrow> check_error option"
  ku_EnsureBool :: "'c \<Rightarrow> string \<Rightarrow> string \<Rightarrow> bool \<Rightarrow> check_error option"
  ku_EnsureFloat64GreaterThanOrEqual :: "'c \<Rightarrow> string \<Rightarrow> string \<Rightarrow> 'f \<Rightarrow> check_error option"

text \<open>A metric family of the gatherer: a name, if there is one, and the metrics, of which gauges have a value.\<close>

record 'f MetricFamily =
  mf_Name :: "string option"
  mf_Metric :: "'f option list"

definition KustomerProductName :: string where "KustomerProductName = ''meet''"

section \<open>The checks\<close>

text \<open>The loop over the metric families, which ends at the first error.\<close>

fun check_families :: "('c, 'f) kustomer \<Rightarrow> 'c \<Rightarrow> 'f MetricFamily list \<Rightarrow> check_error option" where
  "check_families ku kpc [] = None"
| "check_families ku kpc (mf # mfs) =
     (if mf_Name mf = Some ''kwmserver_rtm_group_channels_created_current'' then
        case mf_Metric mf of
          Some v # _ \<Rightarrow>
            (case ku_EnsureFloat64GreaterThanOrEqual ku kpc KustomerProductName ''max-groups'' v of
               Some e \<Rightarrow> Some e
             | None \<Rightarrow> check_families ku kpc mfs)
        | _ \<Rightarrow> check_families ku kpc mfs
      else check_families ku kpc mfs)"

text \<open>\<open>gather\<close> is the result of the gatherer when the check runs.\<close>

definition metricsLicenseChecker ::
  "('c, 'f) kustomer \<Rightarrow> Config \<Rightarrow> check_error + 'f MetricFamily list \<Rightarrow> 'c \<Rightarrow> check_error option" where
  "metricsLicenseChecker ku cfg gather kpc =
     (if \<not> cf_Gatherer cfg then None
      else case gather of
        Inl e \<Rightarrow> Some (ErrWrapped ''KUSTOMER metrics license check error'' e)
      | Inr gathered \<Rightarrow> check_families ku kpc gathered)"

text \<open>The last error wins.\<close>

definition later_error :: "check_error option \<Rightarrow> check_error option \<Rightarrow> check_error option" where
  "later_error res err = (case err of None \<Rightarrow> res | Some e \<Rightarrow> Some e)"

definition localLicenseChecker ::
  "('c, 'f) kustomer \<Rightarrow> Config \<Rightarrow> check_error + 'f MetricFamily list \<Rightarrow> 'c \<Rightarrow> check_error option" where
  "localLicenseChecker ku cfg gather kpc =
     (let ensure = (\<lambda>enabled feature res.
            if enabled then later_error res (ku_EnsureBool ku kpc KustomerProductName feature True) else res);
          res0 = ku_EnsureOK ku kpc KustomerProductName;
          res1 = ensure (cf_EnableGuestAPI cfg) ''guests'' res0;
          res2 = ensure (cf_EnableMcuAPI cfg) ''sfu'' res1;
          res3 = ensure (cf_TURNServerServiceUsername cfg \<noteq> []) ''turnaccess'' res2;
          res = later_error res3 (metricsLicenseChecker ku cfg gather kpc)
      in map_option (ErrWrapped ''KUSTOMER local license check issue'') res)"

section \<open>The reporter\<close>

definition unknownError :: u64 where "unknownError = 1"

text \<open>
  The variables the goroutines share, with the address the next copied status gets, and where the
  goroutine that makes the initial check and then starts the background checker is: before the initial
  check, about to report it, waiting for the next minute, about to report a metrics problem, about to
  report a full check after such a problem, or done. Checks of the notification goroutines that wait for the mutex of the
  reporter are a list in any order. \<open>lc_last\<close> is a ghost variable: the result reported last.
\<close>

datatype background = BgStart | BgInitial "check_error option" | BgWaiting | BgProblem "check_error option"
  | BgRecheck "check_error option" | BgDone

record licence =
  lc_kustomerStatus :: u64
  lc_metricsStatus :: bool
  lc_background :: background
  lc_pending :: "check_error option list"
  lc_nextAddr :: nat
  lc_last :: "check_error option"

definition reporter :: "check_error option \<Rightarrow> licence \<times> world \<Rightarrow> licence \<times> world" where
  "reporter checkErr = (\<lambda>(lc, w).
     let old = lc_kustomerStatus lc;
         (kustomerStatus, changed) =
           (case checkErr of
              Some e \<Rightarrow>
                (case errors_As e of
                   Some numericErr \<Rightarrow> if numericErr \<noteq> old then (numericErr, True) else (old, False)
                 | None \<Rightarrow> if old \<noteq> unknownError then (unknownError, True) else (old, False))
            | None \<Rightarrow> if old \<noteq> 0 then (0, True) else (old, False));
         lc1 = lc\<lparr>lc_kustomerStatus := kustomerStatus, lc_last := checkErr\<rparr>
     in if changed then
          (lc1\<lparr>lc_nextAddr := lc_nextAddr lc1 + 1\<rparr>,
           OnServerStatus \<lparr>ss_Kustomer = Some \<lparr>ptr_addr = lc_nextAddr lc1, ptr_val = kustomerStatus\<rparr>\<rparr> w)
        else (lc1, w))"

section \<open>The goroutines\<close>

text \<open>
  The steps after the services are ready: a notification starts a goroutine that checks and later
  reports; every minute the background goroutine checks the metrics of current claims, and reports a
  problem, or after a problem the result of a full check. \<open>server\<close> is any step of the rest of the server,
  which does not set the status; a gathered result may differ from step to step.
\<close>

inductive licence_step :: "('c, 'f) kustomer \<Rightarrow> Config \<Rightarrow> licence \<times> world \<Rightarrow> licence \<times> world \<Rightarrow> bool"
  for ku :: "('c, 'f) kustomer" and cfg :: Config where
  notify: "licence_step ku cfg (lc, w)
     (lc\<lparr>lc_pending := localLicenseChecker ku cfg gather kpc # lc_pending lc\<rparr>, w)"
| report: "lc_pending lc = xs @ r # ys \<Longrightarrow>
     licence_step ku cfg (lc, w) (reporter r (lc\<lparr>lc_pending := xs @ ys\<rparr>, w))"
| initial: "lc_background lc = BgStart \<Longrightarrow>
     licence_step ku cfg (lc, w) (lc\<lparr>lc_background := BgInitial (localLicenseChecker ku cfg gather kpc)\<rparr>, w)"
| report_initial: "lc_background lc = BgInitial r \<Longrightarrow>
     licence_step ku cfg (lc, w) (reporter r (lc\<lparr>lc_background := BgWaiting\<rparr>, w))"
| minute_problem: "lc_background lc = BgWaiting \<Longrightarrow> metricsLicenseChecker ku cfg gather kpc = Some e \<Longrightarrow>
     licence_step ku cfg (lc, w) (lc\<lparr>lc_metricsStatus := True, lc_background := BgProblem (Some e)\<rparr>, w)"
| minute_recheck: "lc_background lc = BgWaiting \<Longrightarrow> metricsLicenseChecker ku cfg gather kpc = None \<Longrightarrow> lc_metricsStatus lc \<Longrightarrow>
     licence_step ku cfg (lc, w) (lc\<lparr>lc_background := BgRecheck (localLicenseChecker ku cfg gather' kpc)\<rparr>, w)"
| minute_quiet: "lc_background lc = BgWaiting \<Longrightarrow> metricsLicenseChecker ku cfg gather kpc = None \<Longrightarrow> \<not> lc_metricsStatus lc \<Longrightarrow>
     licence_step ku cfg (lc, w) (lc, w)"
| report_problem: "lc_background lc = BgProblem r \<Longrightarrow>
     licence_step ku cfg (lc, w) (reporter r (lc\<lparr>lc_background := BgWaiting\<rparr>, w))"
| report_recheck: "lc_background lc = BgRecheck r \<Longrightarrow>
     licence_step ku cfg (lc, w) (reporter r (lc\<lparr>lc_background := BgWaiting, lc_metricsStatus := False\<rparr>, w))"
| stopped: "lc_background lc = BgWaiting \<Longrightarrow> licence_step ku cfg (lc, w) (lc\<lparr>lc_background := BgDone\<rparr>, w)"
| server: "getServerStatus w' = getServerStatus w \<Longrightarrow> licence_step ku cfg (lc, w) (lc, w')"

text \<open>
  The goroutine that \<open>kustomerBootstrap\<close> starts, once the services are ready: without an RTM manager its
  type assertion panics, and so it does when the updates cannot be watched.
\<close>

definition licence_start :: licence where
  "licence_start = \<lparr>lc_kustomerStatus = 0, lc_metricsStatus = False, lc_background = BgStart, lc_pending = [],
     lc_nextAddr = 0, lc_last = None\<rparr>"

definition kustomerBootstrap :: "Services \<Rightarrow> string option \<Rightarrow> handler_result \<times> licence option" where
  "kustomerBootstrap services setNotifyErr =
     (if \<not> sv_RTMManager services then (HPanic, None)
      else case setNotifyErr of
        Some e \<Rightarrow> (HPanic, None)
      | None \<Rightarrow> (HNil, Some licence_start))"

definition licence_init :: "licence \<times> world \<Rightarrow> bool" where
  "licence_init = (\<lambda>(lc, w). kustomerBootstrap (NewServices\<lparr>sv_RTMManager := True\<rparr>) None = (HNil, Some lc) \<and>
     getServerStatus w = Some \<lparr>ss_Kustomer = None\<rparr>)"

text \<open>
  The hook before the start (\<open>kustomerServeHook\<close>): the library is initialized and waited for. A signal
  while it waits cancels the context of the library and the wait goes on, so only the answer of
  \<open>WaitUntilReady\<close> ends it; the loop has not returned if there is no answer among the events.
\<close>

datatype hook_event = HookResult "string option" | HookSignal

fun hook_wait :: "hook_event list \<Rightarrow> string option option" where
  "hook_wait [] = None"
| "hook_wait (HookResult r # evs) = Some r"
| "hook_wait (HookSignal # evs) = hook_wait evs"

definition kustomerServeHook :: "string option \<Rightarrow> hook_event list \<Rightarrow> string option option" where
  "kustomerServeHook initializeErr evs =
     (case initializeErr of
        Some e \<Rightarrow> Some (Some (''KUSTOMER initialization failed: '' @ e))
      | None \<Rightarrow> map_option (map_option ((@) ''KUSTOMER failed to initialize: '')) (hook_wait evs))"

section \<open>The published status\<close>

text \<open>The number that stands for the result of a check.\<close>

definition status_of :: "check_error option \<Rightarrow> u64" where
  "status_of checkErr =
     (case checkErr of None \<Rightarrow> 0 | Some e \<Rightarrow> (case errors_As e of Some n \<Rightarrow> n | None \<Rightarrow> unknownError))"

definition licence_inv :: "licence \<times> world \<Rightarrow> bool" where
  "licence_inv = (\<lambda>(lc, w). lc_kustomerStatus lc = status_of (lc_last lc) \<and>
     (\<exists>s. getServerStatus w = Some s \<and>
        (case ss_Kustomer s of
           None \<Rightarrow> lc_kustomerStatus lc = 0
         | Some p \<Rightarrow> ptr_addr p < lc_nextAddr lc \<and> ptr_val p = lc_kustomerStatus lc)))"

lemma getServerStatus_On:
  assumes "\<And>s. getServerStatus w = Some s \<Longrightarrow> \<not> ServerStatus_Equal s new"
  shows "getServerStatus (OnServerStatus new w) = Some new"
  using assms by (auto simp: OnServerStatus_def Let_def getServerStatus_def setServerStatus_def split: option.splits)

lemma reporter_eq:
  "reporter r (lc, w) =
     (if status_of r = lc_kustomerStatus lc then (lc\<lparr>lc_last := r\<rparr>, w)
      else (lc\<lparr>lc_kustomerStatus := status_of r, lc_last := r, lc_nextAddr := lc_nextAddr lc + 1\<rparr>,
            OnServerStatus \<lparr>ss_Kustomer = Some \<lparr>ptr_addr = lc_nextAddr lc, ptr_val = status_of r\<rparr>\<rparr> w))"
  by (auto simp: reporter_def status_of_def Let_def split: option.splits)

lemma reporter_inv:
  assumes "licence_inv (lc, w)"
  shows "licence_inv (reporter r (lc, w))"
proof (cases "status_of r = lc_kustomerStatus lc")
  case True
  then show ?thesis using assms by (auto simp: reporter_eq licence_inv_def split: option.splits)
next
  case False
  let ?new = "\<lparr>ss_Kustomer = Some \<lparr>ptr_addr = lc_nextAddr lc, ptr_val = status_of r\<rparr>\<rparr>"
  have "getServerStatus (OnServerStatus ?new w) = Some ?new"
    by (rule getServerStatus_On) (use assms in \<open>auto simp: licence_inv_def ServerStatus_Equal_def\<close>)
  with False show ?thesis by (simp add: reporter_eq licence_inv_def)
qed

lemma licence_inv_vars:
  "licence_inv (lc, w) \<Longrightarrow> lc_kustomerStatus lc' = lc_kustomerStatus lc \<Longrightarrow> lc_last lc' = lc_last lc \<Longrightarrow>
   lc_nextAddr lc' = lc_nextAddr lc \<Longrightarrow> getServerStatus w' = getServerStatus w \<Longrightarrow> licence_inv (lc', w')"
  by (auto simp: licence_inv_def split: option.splits)

interpretation licences: invariant_system licence_init "licence_step ku cfg" licence_inv
  for ku :: "('c, 'f) kustomer" and cfg
proof unfold_locales
  show "licence_inv s" if "licence_init s" for s
    using that by (auto simp: licence_init_def kustomerBootstrap_def NewServices_def licence_start_def licence_inv_def status_of_def)
  show "licence_inv t" if "licence_inv s" "licence_step ku cfg s t" for s t
    using that(2,1) by induction (auto intro!: reporter_inv elim: licence_inv_vars)
qed

text \<open>
  C19. Clients are told the licence status of the last check: in every interleaving of the
  notifications, the background checks and the rest of the server, the status number is the one of the
  result reported last (0 for none, its own number for a numeric error, 1 otherwise), and it is what
  the server publishes, where a status without a number stands for 0.
\<close>

theorem licence_status_published:
  assumes "reach licence_init (licence_step ku cfg) (lc, w)"
  shows "lc_kustomerStatus lc = status_of (lc_last lc) \<and>
    (\<exists>s. getServerStatus w = Some s \<and> (case ss_Kustomer s of None \<Rightarrow> 0 | Some p \<Rightarrow> ptr_val p) = status_of (lc_last lc))"
  using licences.reach_inv [OF assms] by (auto simp: licence_inv_def split: option.splits)

text \<open>A first check that fails with number 7.\<close>

definition no_licence :: "(unit, unit) kustomer" where
  "no_licence = \<lparr>ku_EnsureOK = (\<lambda>_ _. Some (ErrNumeric 7)), ku_EnsureBool = (\<lambda>_ _ _ _. None),
     ku_EnsureFloat64GreaterThanOrEqual = (\<lambda>_ _ _ _. None)\<rparr>"

definition after_first_check :: "licence \<times> world" where
  "after_first_check = reporter (localLicenseChecker no_licence empty_Config (Inr []) ())
     (licence_start\<lparr>lc_background := BgWaiting\<rparr>, example_world)"

lemma after_first_check_reached: "reach licence_init (licence_step no_licence empty_Config) after_first_check"
proof -
  let ?r = "localLicenseChecker no_licence empty_Config (Inr []) ()"
  have "licence_init (licence_start, example_world)"
    by (simp add: licence_init_def kustomerBootstrap_def NewServices_def getServerStatus_def example_world_defs)
  then have "reach licence_init (licence_step no_licence empty_Config) (licence_start, example_world)" by (rule reach.start)
  then have "reach licence_init (licence_step no_licence empty_Config) (licence_start\<lparr>lc_background := BgInitial ?r\<rparr>, example_world)"
    by (rule reach.next_step) (rule licence_step.initial, simp add: licence_start_def)
  then show ?thesis
    by (rule reach.next_step)
      (use licence_step.report_initial [of "licence_start\<lparr>lc_background := BgInitial ?r\<rparr>" ?r no_licence empty_Config example_world]
        in \<open>simp add: after_first_check_def\<close>)
qed

theorem licence_status_published_witness: "lc_kustomerStatus (fst after_first_check) = 7"
proof -
  have "lc_kustomerStatus (fst after_first_check) = status_of (lc_last (fst after_first_check))"
    using licence_status_published [of no_licence empty_Config "fst after_first_check" "snd after_first_check"]
      after_first_check_reached by simp
  moreover have "lc_last (fst after_first_check) = localLicenseChecker no_licence empty_Config (Inr []) ()"
    by (simp add: after_first_check_def reporter_eq)
  moreover have "status_of (localLicenseChecker no_licence empty_Config (Inr []) ()) = 7"
    by (simp add: localLicenseChecker_def no_licence_def later_error_def metricsLicenseChecker_def empty_Config_def status_of_def)
  ultimately show ?thesis by simp
qed

section \<open>What a check accepts\<close>

text \<open>
  What a registry gathers of a collected metric that was registered through \<open>serve\<close>, with its prefix: a
  family with one metric, which has a gauge or not. \<open>float64\<close> converts the value.
\<close>

fun family_of :: "(u64 \<Rightarrow> 'f) \<Rightarrow> metric \<Rightarrow> 'f MetricFamily" where
  "family_of float64 (GaugeMetric n v) = \<lparr>mf_Name = Some (''kwmserver_'' @ n), mf_Metric = [Some (float64 v)]\<rparr>"
| "family_of float64 (CounterMetric n v) = \<lparr>mf_Name = Some (''kwmserver_'' @ n), mf_Metric = [None]\<rparr>"

lemma check_families_None:
  "check_families ku kpc mfs = None \<longleftrightarrow>
     (\<forall>mf \<in> set mfs. mf_Name mf = Some ''kwmserver_rtm_group_channels_created_current'' \<longrightarrow>
        (\<forall>v vs. mf_Metric mf = Some v # vs \<longrightarrow>
           ku_EnsureFloat64GreaterThanOrEqual ku kpc KustomerProductName ''max-groups'' v = None))"
  by (induction mfs) (auto split: option.splits list.splits)

lemma localLicenseChecker_None:
  "localLicenseChecker ku cfg gather kpc = None \<longleftrightarrow>
     ku_EnsureOK ku kpc KustomerProductName = None \<and>
     (cf_EnableGuestAPI cfg \<longrightarrow> ku_EnsureBool ku kpc KustomerProductName ''guests'' True = None) \<and>
     (cf_EnableMcuAPI cfg \<longrightarrow> ku_EnsureBool ku kpc KustomerProductName ''sfu'' True = None) \<and>
     (cf_TURNServerServiceUsername cfg \<noteq> [] \<longrightarrow> ku_EnsureBool ku kpc KustomerProductName ''turnaccess'' True = None) \<and>
     metricsLicenseChecker ku cfg gather kpc = None"
  by (auto simp: localLicenseChecker_def later_error_def Let_def split: option.splits)

lemma Collect_group_gauge:
  assumes "reach rtm_init rtm_step s" and "chans = map (\<lambda>e. w_chans (sy_w s) (cr_channel (snd e))) (rm_channels (w_rtm (sy_w s)))"
    and "groups = filter (\<lambda>ch. cc_Group (channel_config ch) \<noteq> []) chans"
    and "collector_Collect held set_max value mc (sy_w s) = Some (ms, mc')"
  shows "m \<in> set ms \<and> metric_name m = ''rtm_group_channels_created_current'' \<longleftrightarrow>
    m = GaugeMetric ''rtm_group_channels_created_current'' (of_nat (length groups))"
proof -
  let ?P = "\<lambda>m. metric_name m = ''rtm_group_channels_created_current''"
  have free: "\<not> (sh_connections held \<or> sh_users held \<or> sh_channels held)"
    using assms(4) by (auto simp: collector_Collect_def Let_def)
  have "\<exists>ms. map_option fst (collector_Collect held set_max value mc (sy_w s)) = Some ms \<and>
      filter ?P ms = [GaugeMetric ''rtm_group_channels_created_current'' (of_nat (length groups))]"
    unfolding collector_Collect_def Let_def count_reachable [OF assms(1-3)]
    by (simp add: free BuildFQName_def metricsSubsystem_def)
  then have "filter ?P ms = [GaugeMetric ''rtm_group_channels_created_current'' (of_nat (length groups))]"
    unfolding assms(4) by simp
  then have "set (filter ?P ms) = {GaugeMetric ''rtm_group_channels_created_current'' (of_nat (length groups))}" by (simp only: list.set)
  then show ?thesis unfolding set_filter by blast
qed

text \<open>
  C18. The licence check is exactly the comparison of the running server with the claims: for a reachable
  state whose metrics are gathered under the prefix that \<open>serve\<close> registers them with, beside metrics of
  other names, the check succeeds if and only if the product is licensed, every enabled feature is
  (guests, the SFU and the TURN service), and the number of channels of groups is within the limit.
\<close>

theorem licence_check_exact:
  assumes "reach rtm_init rtm_step s" and "chans = map (\<lambda>e. w_chans (sy_w s) (cr_channel (snd e))) (rm_channels (w_rtm (sy_w s)))"
    and "groups = filter (\<lambda>ch. cc_Group (channel_config ch) \<noteq> []) chans"
    and "serve_config env fl = Inr cfg" and "collector_Collect held set_max value mc (sy_w s) = Some (ms, mc')"
    and "set gathered = family_of float64 ` set ms \<union> others"
    and "\<And>mf m. mf \<in> others \<Longrightarrow> m \<in> set ms \<Longrightarrow> mf_Name mf \<noteq> mf_Name (family_of float64 m)"
  shows "localLicenseChecker ku cfg (Inr gathered) kpc = None \<longleftrightarrow>
     ku_EnsureOK ku kpc ''meet'' = None \<and>
     (fl_enable_guest_api fl \<longrightarrow> ku_EnsureBool ku kpc ''meet'' ''guests'' True = None) \<and>
     (fl_enable_mcu_api fl \<longrightarrow> ku_EnsureBool ku kpc ''meet'' ''sfu'' True = None) \<and>
     (cf_TURNServerServiceUsername cfg \<noteq> [] \<longrightarrow> ku_EnsureBool ku kpc ''meet'' ''turnaccess'' True = None) \<and>
     ku_EnsureFloat64GreaterThanOrEqual ku kpc ''meet'' ''max-groups'' (float64 (of_nat (length groups))) = None"
proof -
  let ?name = "''rtm_group_channels_created_current''"
  have fam: "mf_Name (family_of float64 m) = Some (''kwmserver_'' @ metric_name m)" for m by (cases m) simp_all
  note gauge = Collect_group_gauge [OF assms(1-3,5)]
  define g where "g = GaugeMetric ?name (of_nat (length groups))"
  have named: "m = g" if "m \<in> set ms" "metric_name m = ?name" for m
    using gauge [of m] that by (simp add: g_def)
  have fams: "mf \<in> set gathered \<and> mf_Name mf = Some (''kwmserver_'' @ ?name) \<longleftrightarrow> mf = family_of float64 g" for mf
  proof
    assume mf: "mf \<in> set gathered \<and> mf_Name mf = Some (''kwmserver_'' @ ?name)"
    have "mf \<notin> others" using assms(7) [of mf g] mf gauge [of g] by (auto simp: g_def)
    with mf obtain m where "m \<in> set ms" "mf = family_of float64 m" using assms(6) by auto
    with mf named fam [of m] show "mf = family_of float64 g" by simp
  next
    assume mf: "mf = family_of float64 g"
    have "g \<in> set ms" "metric_name g = ?name" using gauge [of g] by (simp_all add: g_def)
    then show "mf \<in> set gathered \<and> mf_Name mf = Some (''kwmserver_'' @ ?name)" by (simp add: mf fam assms(6))
  qed
  have "check_families ku kpc gathered = None \<longleftrightarrow>
      (\<forall>mf. mf \<in> set gathered \<and> mf_Name mf = Some (''kwmserver_'' @ ?name) \<longrightarrow>
        (\<forall>v vs. mf_Metric mf = Some v # vs \<longrightarrow>
           ku_EnsureFloat64GreaterThanOrEqual ku kpc KustomerProductName ''max-groups'' v = None))"
    unfolding check_families_None Ball_def append.simps by (simp only: imp_conjL)
  also have "\<dots> \<longleftrightarrow>
      ku_EnsureFloat64GreaterThanOrEqual ku kpc KustomerProductName ''max-groups'' (float64 (of_nat (length groups))) = None"
    unfolding fams by (simp add: g_def)
  finally have "metricsLicenseChecker ku cfg (Inr gathered) kpc = None \<longleftrightarrow>
      ku_EnsureFloat64GreaterThanOrEqual ku kpc KustomerProductName ''max-groups'' (float64 (of_nat (length groups))) = None"
    by (simp add: metricsLicenseChecker_def serve_config_flags [OF assms(4)])
  then show ?thesis
    by (simp add: localLicenseChecker_None serve_config_flags [OF assms(4)] KustomerProductName_def)
qed

text \<open>The run in which one user has joined a group, with a licence for no group.\<close>

definition tiny_licence :: "(unit, u64) kustomer" where
  "tiny_licence = \<lparr>ku_EnsureOK = (\<lambda>_ _. None), ku_EnsureBool = (\<lambda>_ _ _ _. None),
     ku_EnsureFloat64GreaterThanOrEqual = (\<lambda>_ _ _ v. if v = 0 then None else Some (ErrNumeric 5))\<rparr>"

theorem licence_check_exact_witness:
  "\<exists>cfg ms mc'. serve_config example_os example_flags = Inr cfg \<and>
     collector_Collect no_shard_held max id (NewManagerCollector 0) bob_joined = Some (ms, mc') \<and>
     localLicenseChecker tiny_licence cfg (Inr (map (family_of id) ms)) () \<noteq> None"
proof -
  obtain cfg where cfg: "serve_config example_os example_flags = Inr cfg" using example_flags_ok by blast
  obtain ms mc' where ms: "collector_Collect no_shard_held max id (NewManagerCollector 0) bob_joined = Some (ms, mc')"
    using bob_collected by blast
  have "localLicenseChecker tiny_licence cfg (Inr (map (family_of id) ms)) () \<noteq> None"
    using licence_check_exact [OF bob_joins refl refl cfg, of no_shard_held max id "NewManagerCollector 0" ms mc' "map (family_of id) ms" id "{}"
        tiny_licence "()"] ms unfolding run_state_sel(1) bob_groups
    by (simp add: tiny_licence_def)
  with cfg ms show ?thesis by blast
qed

end
