(* ===== verification/Process.thy ===== *)
theory Process
  imports Serve_Run Healthcheck License
begin

text \<open>
  The process (\<open>src/cmd/root.go\<close>, \<open>src/cmd/kwmserverd/main.go\<close>, \<open>version.go\<close>, \<open>build-standard.go\<close>,
  \<open>build-supported.go\<close> and the rest of \<open>serve.go\<close>): from the chosen command to the end of the process. It composes
  the configuration, the hook of the build variant, the start and the run of the server, the health
  check and the version. The command line library is the choice of the command with its flags.
\<close>

section \<open>Build variants\<close>

text \<open>
  The supported build waits for the licence library; the hook has not returned without an answer of it. The
  last argument is the result of \<open>SetNotifyWhenUpdated\<close>.
\<close>

datatype build = StandardBuild | SupportedBuild "string option" "hook_event list" "string option"

fun initializeBuild :: "build \<Rightarrow> string option option" where
  "initializeBuild StandardBuild = Some None"
| "initializeBuild (SupportedBuild initializeErr evs notifyErr) = kustomerServeHook initializeErr evs"

fun supportedBuildTag :: "string \<Rightarrow> build \<Rightarrow> string" where
  "supportedBuildTag kustomerBuildVersion StandardBuild = []"
| "supportedBuildTag kustomerBuildVersion (SupportedBuild initializeErr evs notifyErr) = ''libkustomer'' @ kustomerBuildVersion"

section \<open>The HTTP client\<close>

text \<open>Times in seconds; the configuration of TLS is nil unless certificates are not verified.\<close>

record http_client =
  hc_Timeout :: nat
  hc_DialTimeout :: nat
  hc_KeepAlive :: nat
  hc_DualStack :: bool
  hc_MaxIdleConns :: nat
  hc_IdleConnTimeout :: nat
  hc_TLSHandshakeTimeout :: nat
  hc_ExpectContinueTimeout :: nat
  hc_TLSClientConfig :: "bool option"

definition serve_client :: "Flags \<Rightarrow> http_client" where
  "serve_client fl = \<lparr>hc_Timeout = 60, hc_DialTimeout = 30, hc_KeepAlive = 30, hc_DualStack = True, hc_MaxIdleConns = 100,
     hc_IdleConnTimeout = 90, hc_TLSHandshakeTimeout = 10, hc_ExpectContinueTimeout = 1,
     hc_TLSClientConfig = (if fl_insecure fl then Some (fl_insecure fl) else None)\<rparr>"

section \<open>The command \<open>serve\<close>\<close>

text \<open>
  What \<open>serve\<close> does once it has a configuration, in its order: the hook, the listeners for metrics and
  profiling, which run on their own and only log their errors, the survey client and \<open>Serve\<close>.
\<close>

datatype serve_action =
    InitializeBuild
  | MetricsListener string
  | PprofListener string
  | SurveyStart "string option"
  | RunServer Config

text \<open>\<open>url.URL.Hostname\<close>: the host without a port and without the brackets of an IPv6 address.\<close>

definition strip_port :: "string \<Rightarrow> string" where
  "strip_port host =
     (let r = rev host; port = takeWhile (\<lambda>c. c \<noteq> CHR '':'') r
      in if CHR '':'' \<in> set host \<and> list_all is_digit port then rev (drop (Suc (length port)) r) else host)"

definition Hostname :: "url \<Rightarrow> string" where
  "Hostname u =
     (let h = strip_port (url_Host u)
      in if h \<noteq> [] \<and> hd h = CHR ''['' \<and> last h = CHR '']'' then butlast (tl h) else h)"

definition survey_guid :: "os_env \<Rightarrow> Flags \<Rightarrow> Config \<Rightarrow> string option" where
  "survey_guid env fl cfg =
     (case cf_Iss cfg of
        None \<Rightarrow> None
      | Some iss \<Rightarrow>
          if Hostname iss = ''localhost'' then None
          else case os_parseURL env (fl_iss fl) of Inl _ \<Rightarrow> None | Inr (_, text) \<Rightarrow> Some text)"

definition metrics_listener :: "Flags \<Rightarrow> serve_action list" where
  "metrics_listener fl = (if fl_with_metrics fl \<and> fl_metrics_listen fl \<noteq> [] then [MetricsListener (fl_metrics_listen fl)] else [])"

definition pprof_listener :: "Flags \<Rightarrow> serve_action list" where
  "pprof_listener fl = (if fl_with_pprof fl \<and> fl_pprof_listen fl \<noteq> [] then [PprofListener (fl_pprof_listen fl)] else [])"

text \<open>
  The actions and the error. \<open>buildErr\<close> is the result of the hook, \<open>surveyErr\<close> the one of the survey client
  and \<open>serveErr\<close> the one of \<open>Serve\<close>.
\<close>

definition serve :: "os_env \<Rightarrow> Flags \<Rightarrow> string option \<Rightarrow> string option \<Rightarrow> string option \<Rightarrow> serve_action list \<times> string option" where
  "serve env fl buildErr surveyErr serveErr =
     (case serve_config env fl of
        Inl e \<Rightarrow> ([], Some e)
      | Inr cfg \<Rightarrow>
          (case buildErr of
             Some e \<Rightarrow> ([InitializeBuild], Some (''failed to initialize: '' @ e))
           | None \<Rightarrow>
               let acts = InitializeBuild # metrics_listener fl @ pprof_listener fl @ [SurveyStart (survey_guid env fl cfg)]
               in case surveyErr of
                    Some e \<Rightarrow> (acts, Some (''failed to start auto survey: '' @ e))
                  | None \<Rightarrow> (acts @ [RunServer cfg], serveErr)))"

section \<open>The process\<close>

text \<open>
  \<open>Serve\<close> returns the error of the start, or what it has received when it is done.
\<close>

inductive Serve_returns :: "'k serve_env \<Rightarrow> Config \<Rightarrow> string option \<Rightarrow> bool" for senv cfg where
  start_fails: "Serve_start senv cfg = Inl (StartErr e) \<Longrightarrow> Serve_returns senv cfg (Some e)"
| run_ends: "Serve_start senv cfg = Inr st \<Longrightarrow> reach serve_init (serve_run_step st) s \<Longrightarrow> ss_pc s = SV_Done \<Longrightarrow>
    Serve_returns senv cfg (ss_err s)"

text \<open>The command that the command line library runs, or its error; it also answers requests for help itself.\<close>

datatype command = UsageError string | RootCommand | HelpCommand | ServeCommand Flags | HealthcheckCommand healthcheck_flags | VersionCommand

record 'k process_env =
  pe_os :: os_env
  pe_serve :: "'k serve_env"
  pe_build :: build
  pe_surveyStart :: "string option \<Rightarrow> string option"
  pe_newRequest :: "string \<Rightarrow> string option"
  pe_clientDo :: "bool \<Rightarrow> client_request \<Rightarrow> string + nat"
  pe_usage :: string
  pe_Version :: string
  pe_BuildDate :: string
  pe_KustomerBuildVersion :: string
  pe_builtWith :: string

definition newline :: string where "newline = [CHR 0x0A]"

definition CommandVersion :: "'k process_env \<Rightarrow> string" where
  "CommandVersion pe =
     (let tag = supportedBuildTag (pe_KustomerBuildVersion pe) (pe_build pe)
      in ''Version    : '' @ pe_Version pe @ newline @
         (if tag \<noteq> [] then ''Supported  : '' @ tag @ newline else []) @
         ''Build date : '' @ pe_BuildDate pe @ newline @
         ''Built with : '' @ pe_builtWith pe @ newline)"

text \<open>
  \<open>Serve\<close> panics while it starts, in the goroutine of the licence check, which waits until the services are
  ready (just before the listener is opened), or in a goroutine of a connection: a run of the RTM side from
  its start that ends in a panic.
\<close>

definition rtm_start :: "rtm_Manager \<Rightarrow> admin_Manager \<Rightarrow> rtm_sys" where
  "rtm_start m adm = \<lparr>sy_w = start_world m adm, sy_ph = (\<lambda>_. PhNone), sy_mcu = (\<lambda>_. PhNone), sy_crashed = False\<rparr>"

inductive Serve_panics :: "build \<Rightarrow> 'k serve_env \<Rightarrow> Config \<Rightarrow> bool" for bld senv cfg where
  start_panics: "Serve_start senv cfg = Inl StartPanic \<Longrightarrow> Serve_panics bld senv cfg"
| licence_panics: "bld = SupportedBuild initializeErr evs notifyErr \<Longrightarrow>
    Serve_start (senv\<lparr>se_listen := (\<lambda>_. None)\<rparr>) cfg = Inr st \<Longrightarrow>
    kustomerBootstrap (st_services st) notifyErr = (HPanic, lc) \<Longrightarrow> Serve_panics bld senv cfg"
| run_panics: "Serve_start senv cfg = Inr st \<Longrightarrow> st_rtm st = Some m \<Longrightarrow> rtm_step\<^sup>*\<^sup>* (rtm_start m (st_admin st)) s \<Longrightarrow> sy_crashed s \<Longrightarrow>
    Serve_panics bld senv cfg"

text \<open>
  How the process ends: it exits with what it has printed and a code, it panics (Go exits with code 2 and
  prints a stack trace), or a signal that it does not catch kills it. That can happen at any time:
  \<open>serve\<close> catches two signals, and these only while the hook of the supported build or \<open>Serve\<close> waits for them.
\<close>

datatype process_end = Exited string nat | Panicked | Killed

definition serve_exit :: "string option \<Rightarrow> process_end" where
  "serve_exit err = (case err of None \<Rightarrow> Exited [] 0 | Some e \<Rightarrow> Exited (''Error: '' @ e @ newline) 1)"

inductive main_exits :: "'k process_env \<Rightarrow> command \<Rightarrow> process_end \<Rightarrow> bool" for pe where
  exit_usage: "main_exits pe (UsageError e) (Exited (e @ newline) 1)"
| exit_root: "main_exits pe RootCommand (Exited (pe_usage pe) 2)"
| exit_help: "main_exits pe HelpCommand (Exited (pe_usage pe) 0)"
| exit_version: "main_exits pe VersionCommand (Exited (CommandVersion pe) 0)"
| exit_healthcheck: "commandHealthcheck (pe_Version pe) (pe_newRequest pe) (pe_clientDo pe) hf = (out, code) \<Longrightarrow>
    main_exits pe (HealthcheckCommand hf) (Exited out code)"
| exit_killed: "main_exits pe c Killed"
| exit_panic: "serve_config (pe_os pe) fl = Inr cfg \<Longrightarrow> initializeBuild (pe_build pe) = Some None \<Longrightarrow>
    pe_surveyStart pe (survey_guid (pe_os pe) fl cfg) = None \<Longrightarrow> Serve_panics (pe_build pe) (pe_serve pe) cfg \<Longrightarrow>
    main_exits pe (ServeCommand fl) Panicked"
| exit_no_config: "serve_config (pe_os pe) fl = Inl e \<Longrightarrow> main_exits pe (ServeCommand fl) (serve_exit (Some e))"
| exit_serve: "serve_config (pe_os pe) fl = Inr cfg \<Longrightarrow> initializeBuild (pe_build pe) = Some buildErr \<Longrightarrow>
    serve (pe_os pe) fl buildErr (pe_surveyStart pe (survey_guid (pe_os pe) fl cfg)) serveErr = (acts, err) \<Longrightarrow>
    (RunServer cfg \<in> set acts \<Longrightarrow> Serve_returns (pe_serve pe) cfg serveErr) \<Longrightarrow>
    main_exits pe (ServeCommand fl) (serve_exit err)"


section \<open>Why the process ends\<close>











text \<open>The supported build panics whenever it is started without the RTM API.\<close>

lemma supported_without_rtm_panics:
  assumes "serve_config (pe_os pe) fl = Inr cfg" and "initializeBuild (pe_build pe) = Some None"
    and "pe_surveyStart pe (survey_guid (pe_os pe) fl cfg) = None"
    and "pe_build pe = SupportedBuild initializeErr evs notifyErr"
    and "Serve_start ((pe_serve pe)\<lparr>se_listen := (\<lambda>_. None)\<rparr>) cfg = Inr st" and "\<not> cf_EnableRTMAPI cfg"
  shows "main_exits pe (ServeCommand fl) Panicked"
proof (rule exit_panic [OF assms(1-3)], rule licence_panics [OF assms(4,5)])
  have "\<not> sv_RTMManager (st_services st)" by (rule Serve_start_Inr [OF assms(5)]) (simp add: assms(6))
  then show "kustomerBootstrap (st_services st) notifyErr = (HPanic, None)" by (simp add: kustomerBootstrap_def)
qed




section \<open>Around the server\<close>

text \<open>
  The listeners for metrics and profiling: only with their switch and an address, after the hook and
  before the server; without the switches nothing else listens.
\<close>

lemma serve_listeners_exact:
  assumes "serve env fl buildErr surveyErr serveErr = (acts, err)"
  shows "MetricsListener a \<in> set acts \<longleftrightarrow>
      (\<exists>cfg. serve_config env fl = Inr cfg) \<and> buildErr = None \<and> fl_with_metrics fl \<and> fl_metrics_listen fl = a \<and> a \<noteq> []"
    and "PprofListener a \<in> set acts \<longleftrightarrow>
      (\<exists>cfg. serve_config env fl = Inr cfg) \<and> buildErr = None \<and> fl_with_pprof fl \<and> fl_pprof_listen fl = a \<and> a \<noteq> []"
  using assms by (auto simp: serve_def Let_def metrics_listener_def pprof_listener_def split: option.splits if_splits sum.splits)

text \<open>The client of the server skips the verification of certificates exactly as configured.\<close>

lemma serve_client_insecure:
  assumes "serve_config env fl = Inr cfg"
  shows "hc_TLSClientConfig (serve_client fl) = (if cf_ClientInsecure cfg then Some True else None)"
proof -
  obtain c7 c8 where c: "serve_auth env fl c7 = Inr c8" "cfg = serve_rtm fl c8"
    by (rule serve_config_auth [OF assms])
  have "cf_ClientInsecure c8 = fl_insecure fl"
    using c(1) by (auto simp: serve_auth_def Let_def split: if_splits sum.splits prod.splits option.splits)
  then show ?thesis by (simp add: c(2) serve_rtm_def serve_client_def)
qed

text \<open>The survey gets the issuer as identity unless it is on this host, with or without a port.\<close>

lemma strip_port_port: "list_all is_digit port \<Longrightarrow> strip_port (host @ CHR '':'' # port) = host"
proof -
  assume digits: "list_all is_digit port"
  then have "CHR '':'' \<notin> set port" by (auto simp: list_all_iff is_digit_def)
  then have tw: "takeWhile (\<lambda>c. c \<noteq> CHR '':'') (rev (host @ CHR '':'' # port)) = rev port"
    by (auto simp: takeWhile_tail takeWhile_append2)
  show ?thesis using digits unfolding strip_port_def Let_def tw by (simp add: list_all_iff)
qed

lemma survey_guid_localhost:
  assumes "cf_Iss cfg = Some \<lparr>url_Scheme = scheme, url_Host = ''localhost'' @ CHR '':'' # port\<rparr>" and "list_all is_digit port"
  shows "survey_guid env fl cfg = None"
proof -
  have "strip_port (''localhost'' @ CHR '':'' # port) = ''localhost''" by (rule strip_port_port [OF assms(2)])
  then show ?thesis using assms(1) by (simp add: survey_guid_def Hostname_def)
qed

text \<open>Among the exits, code 2 is the one of a call without a command.\<close>

lemma root_command_exit: "main_exits pe RootCommand (Exited out code) \<longleftrightarrow> out = pe_usage pe \<and> code = 2"
  by (auto intro: exit_root elim: main_exits.cases)

lemma exit_code_range: "main_exits pe c (Exited out code) \<Longrightarrow> code \<le> 2 \<and> (code = 2 \<longleftrightarrow> c = RootCommand)"
  by (erule main_exits.cases) (auto simp: serve_exit_def commandHealthcheck_def split: option.splits)

end
