(* ===== verification/Requests.thy ===== *)
theory Requests
  imports Server
begin

text \<open>
  The wrappers around the handlers of requests (\<open>WithMetrics\<close> and \<open>AddContext\<close> of
  \<open>src/signaling/server/server.go\<close>) and \<open>NewServer\<close>. Shown: the context that a handler gets is cancelled with the
  context of the server and not with the one of the request, and always once the handler has returned.
\<close>

section \<open>Contexts\<close>

text \<open>
  A context is the list of the cancel functions that end it, the innermost first. The state knows which
  have been called.
\<close>

type_synonym go_context = "nat list"

record context_state =
  cs_next :: nat
  cs_cancelled :: "nat list"

definition ctx_done :: "context_state \<Rightarrow> go_context \<Rightarrow> bool" where
  "ctx_done cs ctx \<longleftrightarrow> list_ex (\<lambda>c. c \<in> set (cs_cancelled cs)) ctx"

definition context_WithCancel :: "go_context \<Rightarrow> context_state \<Rightarrow> (go_context \<times> nat) \<times> context_state" where
  "context_WithCancel parent cs = ((cs_next cs # parent, cs_next cs), cs\<lparr>cs_next := Suc (cs_next cs)\<rparr>)"

definition ctx_cancel :: "nat \<Rightarrow> context_state \<Rightarrow> context_state" where
  "ctx_cancel c cs = cs\<lparr>cs_cancelled := c # cs_cancelled cs\<rparr>"

definition contexts_wf :: "context_state \<Rightarrow> bool" where
  "contexts_wf cs \<longleftrightarrow> list_all (\<lambda>c. c < cs_next cs) (cs_cancelled cs)"

section \<open>The server and its wrappers\<close>

record server_Server =
  srv_config :: Config
  srv_services :: Services
  srv_listenAddr :: string
  srv_requestLog :: bool

definition NewServer :: "(string \<Rightarrow> string) \<Rightarrow> Config \<Rightarrow> string + server_Server" where
  "NewServer getenv c = Inr \<lparr>srv_config = c, srv_services = NewServices, srv_listenAddr = cf_ListenAddr c,
     srv_requestLog = (getenv ''KOPANO_DEBUG_SERVER_REQUEST_LOG'' = ''1'')\<rparr>"

text \<open>
  A handler gets a response writer and a request with its context, and changes the contexts and the state
  of the program. With the request log, the writer and the context are wrapped by the metrics library,
  \<open>NewLoggedResponseWriter\<close> and \<open>timing_NewContext\<close>.
\<close>

type_synonym ('rw, 's) ctx_handler = "'rw \<Rightarrow> go_context \<times> http_request \<Rightarrow> context_state \<times> 's \<Rightarrow> context_state \<times> 's"

definition WithMetrics ::
  "('rw \<Rightarrow> 'rw) \<Rightarrow> (go_context \<Rightarrow> go_context) \<Rightarrow> server_Server \<Rightarrow> ('rw, 's) ctx_handler \<Rightarrow> ('rw, 's) ctx_handler" where
  "WithMetrics NewLoggedResponseWriter timing_NewContext srv h rw = (\<lambda>(reqCtx, req) (cs, x).
     let ((ctx, cancel), cs1) = context_WithCancel reqCtx cs;
         ctx1 = (if srv_requestLog srv then timing_NewContext ctx else ctx);
         rw1 = (if srv_requestLog srv then NewLoggedResponseWriter rw else rw);
         (cs2, y) = h rw1 (ctx1, req) (cs1, x)
     in (ctx_cancel cancel cs2, y))"

definition AddContext :: "go_context \<Rightarrow> ('rw, 's) ctx_handler \<Rightarrow> ('rw, 's) ctx_handler" where
  "AddContext parent h rw = (\<lambda>(reqCtx, req). h rw (parent, req))"

section \<open>What a handler sees\<close>

text \<open>
  A request to the server runs the handler once, with a context that is done exactly if the one of the server
  is, whatever the state of the request's own context: a client that goes away does not end the calls the
  handler makes with it. When the handler has returned its context is done. The metrics library may wrap
  the context but keeps the cancel functions that end it.
\<close>

lemma handler_context:
  assumes "contexts_wf cs" and "\<And>c. set (timing c) = set c"
  obtains ctx cs1 rw1 where
    "AddContext serveCtx (WithMetrics logged timing srv h) rw (reqCtx, req) (cs, x) =
       (let (cs2, y) = h rw1 (ctx, req) (cs1, x) in (ctx_cancel (cs_next cs) cs2, y))"
    and "ctx_done cs1 ctx \<longleftrightarrow> ctx_done cs serveCtx" and "\<And>cs2. ctx_done (ctx_cancel (cs_next cs) cs2) ctx"
    and "\<And>cs2. ctx_done cs2 serveCtx \<Longrightarrow> ctx_done cs2 ctx"
proof
  let ?ctx = "if srv_requestLog srv then timing (cs_next cs # serveCtx) else cs_next cs # serveCtx"
  let ?cs1 = "cs\<lparr>cs_next := Suc (cs_next cs)\<rparr>"
  have set: "set ?ctx = insert (cs_next cs) (set serveCtx)" by (simp add: assms(2))
  then have ends: "ctx_done cs' ?ctx \<longleftrightarrow> cs_next cs \<in> set (cs_cancelled cs') \<or> ctx_done cs' serveCtx" for cs'
    by (auto simp: ctx_done_def list_ex_iff)
  show "AddContext serveCtx (WithMetrics logged timing srv h) rw (reqCtx, req) (cs, x) =
      (let (cs2, y) = h (if srv_requestLog srv then logged rw else rw) (?ctx, req) (?cs1, x) in (ctx_cancel (cs_next cs) cs2, y))"
    by (simp add: AddContext_def WithMetrics_def context_WithCancel_def Let_def split: prod.splits)
  have "cs_next cs \<notin> set (cs_cancelled cs)" using assms(1) by (auto simp: contexts_wf_def list_all_iff)
  then show "ctx_done ?cs1 ?ctx \<longleftrightarrow> ctx_done cs serveCtx" unfolding ends by (simp add: ctx_done_def)
  show "ctx_done (ctx_cancel (cs_next cs) cs2) ?ctx" for cs2 unfolding ends by (simp add: ctx_cancel_def)
  show "ctx_done cs2 ?ctx" if "ctx_done cs2 serveCtx" for cs2 unfolding ends using that by simp
qed

text \<open>The wrappers keep the state of the contexts well formed if the handler does.\<close>

lemma WithMetrics_wf:
  assumes "\<And>rw r cs x. contexts_wf cs \<Longrightarrow> contexts_wf (fst (h rw r (cs, x))) \<and> cs_next cs \<le> cs_next (fst (h rw r (cs, x)))"
    and "contexts_wf cs"
  shows "contexts_wf (fst (AddContext serveCtx (WithMetrics logged timing srv h) rw r (cs, x)))"
proof -
  have "contexts_wf (cs\<lparr>cs_next := Suc (cs_next cs)\<rparr>)" using assms(2) by (auto simp: contexts_wf_def list_all_iff)
  note kept = assms(1) [OF this]
  show ?thesis
    using kept [of "if srv_requestLog srv then logged rw else rw"
        "(if srv_requestLog srv then timing (cs_next cs # serveCtx) else cs_next cs # serveCtx, snd r)" x]
    by (cases r) (auto simp: AddContext_def WithMetrics_def context_WithCancel_def ctx_cancel_def contexts_wf_def Let_def split: prod.splits)
qed

end
