(* ===== verification/Mcu_Runs.thy ===== *)
theory Mcu_Runs
  imports Running
begin

text \<open>
  Runs with an MCU: what a message of the MCU and a message forwarded to it can reach, and which
  control connections the MCU manager hands out, in every reachable state; and a concrete run, computed
  by an executable scheduler, in which a client of a forwarded group is attached to the MCU.
\<close>

section \<open>Properties of every run\<close>

lemma pipe_channel:
  assumes "mcu_inv m ph w" and "pl_handlers (w_pipes w p) = Some h" and "channel_member h w uid = Some d"
  shows "ch_pipeline (w_chans w h) = Some p"
proof -
  have "pipe_of w p h" by (rule mcu_invD(1) [OF assms(1,2)])
  moreover have "\<not> ch_closed (w_chans w h)"
    using mcu_invD(7) [OF assms(1), of h] assms(3) by (auto simp: channel_member_def)
  ultimately show ?thesis by (simp add: pipe_of_def)
qed

text \<open>
  C14. The MCU cannot reach beyond the channels it was attached for: in every reachable state, when a
  text of a connection of the MCU changes the queue of a connection, that connection is the member the
  message names as its target in a channel whose pipeline is attached to exactly this connection of
  the MCU, and what is queued is the message as it came.
\<close>

theorem mcu_text_confined:
  assumes "reach rtm_init rtm_step s" and "sy_mcu s c = PhOpen" and "mcu_readPump_text c msg (sy_w s) = (rr, w')"
    and "cn_send (w_conns w' d) \<noteq> cn_send (w_conns (sy_w s) d)"
  shows "\<exists>x h p. Option.bind msg decode_webrtc = Some x \<and> channel_member h (sy_w s) (wm_Target x) = Some d \<and>
    ch_pipeline (w_chans (sy_w s) h) = Some p \<and> pl_connection (w_pipes (sy_w s) p) = Some c \<and>
    cn_send (w_conns w' d) = cn_send (w_conns (sy_w s) d) @ [PWebRTC x]"
proof -
  let ?w = "sy_w s"
  have inv: "mcu_inv (sy_mcu s) (sy_ph s) ?w" using reach_full_inv [OF assms(1)] by (simp add: full_inv_def)
  obtain v where v: "core_eq ?w v" "\<forall>d. cn_send (w_conns v d) = cn_send (w_conns ?w d)" and out: "w' = v \<or> mcu_delivers c msg v w'"
    using mcu_readPump_cases [OF inv _ assms(3)] assms(2) by auto
  have "w' \<noteq> v" using v(2) assms(4) by auto
  with out obtain p h x e where x: "pl_connection (w_pipes v p) = Some c" "pl_handlers (w_pipes v p) = Some h"
      "Option.bind msg decode_webrtc = Some x" "channel_member h v (wm_Target x) = Some e" "w' = send_to (PWebRTC x) e v"
    unfolding mcu_delivers_def by blast
  have eq: "w_pipes v = w_pipes ?w" "w_chans v = w_chans ?w" using v(1) by (simp_all add: core_eq_def)
  have d: "e = d" "cn_send (w_conns w' d) = cn_send (w_conns ?w d) @ [PWebRTC x]"
    using assms(4) v(2) by (auto simp: x(5) send_to_queue split: if_splits)
  have mem: "channel_member h ?w (wm_Target x) = Some d" using x(4) d(1) eq(2) by (simp add: channel_member_def)
  have "ch_pipeline (w_chans ?w h) = Some p" by (rule pipe_channel [OF inv _ mem]) (use x(2) eq(1) in simp)
  with x(1,3) mem d(2) eq(1) show ?thesis by auto
qed

text \<open>
  C15. A channel with a pipeline forwards to the MCU only: in every reachable state, what a member
  forwards in it changes at most the queue of the MCU's connection that is attached to the pipeline,
  never one of a client, and what is queued names the given source.
\<close>

theorem pipeline_forward_confined:
  assumes "reach rtm_init rtm_step s" and "ch_pipeline (w_chans (sy_w s) h) = Some p"
    and "Forward h source target conn msg (sy_w s) = (r, w')"
    and "cn_send (w_conns w' d) \<noteq> cn_send (w_conns (sy_w s) d)"
  shows "pl_connection (w_pipes (sy_w s) p) = Some d \<and> sy_ph s d = PhNone \<and> \<not> pl_closed (w_pipes (sy_w s) p) \<and>
    cn_send (w_conns w' d) = cn_send (w_conns (sy_w s) d) @ [PWebRTC (msg\<lparr>wm_Source := source\<rparr>)]"
proof -
  let ?w = "sy_w s"
  have inv: "mcu_inv (sy_mcu s) (sy_ph s) ?w" using reach_full_inv [OF assms(1)] by (simp add: full_inv_def)
  have w': "w' = snd (pipeline_Send p (PWebRTC (msg\<lparr>wm_Source := source\<rparr>)) ?w)"
    using assms(2,3) by (auto simp: Forward_def Let_def dest: result_of_send_eq)
  then obtain e where e: "pl_connection (w_pipes ?w p) = Some e" "\<not> pl_closed (w_pipes ?w p)"
      "w' = send_to (PWebRTC (msg\<lparr>wm_Source := source\<rparr>)) e ?w"
    using assms(4) by (auto simp: pipeline_Send_def send_to_def split: if_splits option.splits)
  have "e = d" "cn_send (w_conns w' d) = cn_send (w_conns ?w d) @ [PWebRTC (msg\<lparr>wm_Source := source\<rparr>)]"
    using assms(4) by (auto simp: e(3) send_to_queue split: if_splits)
  with e(1,2) mcu_invD(2) [OF inv e(1)] show ?thesis by simp
qed

text \<open>
  C16. The control connections: in every reachable state the MCU manager lists exactly the
  connections of the MCU that are being served and asked for no attach record, each once; and a full
  turn of \<open>GetConnection\<close> calls hands out each of them exactly once, whatever happened before.
\<close>

theorem control_connections_in_turn:
  assumes "reach rtm_init rtm_step s"
  shows "set (mm_connections (w_mcu (sy_w s))) = {c. live (sy_mcu s c) \<and> cn_binder (w_conns (sy_w s) c) = None} \<and>
    distinct (mm_connections (w_mcu (sy_w s))) \<and>
    mset (get_connections (length (mm_connections (w_mcu (sy_w s)))) (w_mcu (sy_w s))) =
      mset (map Some (mm_connections (w_mcu (sy_w s))))"
proof -
  have "ring_ok (sy_mcu s) (sy_w s)" using reach_full_inv [OF assms] by (simp add: full_inv_def mcu_inv_def)
  then show ?thesis
    using full_turn_uses_every_connection [of "w_mcu (sy_w s)"] by (auto simp: ring_ok_def mcu_control_def)
qed

section \<open>An executable scheduler\<close>

text \<open>
  Some of the steps, with concrete environments, as a function on states; an event that is not enabled
  changes nothing. Everything it computes is reachable.
\<close>

datatype event =
    EvConnect http_request
  | EvWebsocket string
  | EvServe conn_ref
  | EvText conn_ref json
  | EvTask
  | EvMcuWebsocket string
  | EvMcuServe conn_ref
  | EvMcuText conn_ref json

definition mark :: "(conn_ref \<Rightarrow> phase) \<Rightarrow> ws_outcome \<Rightarrow> conn_ref \<Rightarrow> phase" where
  "mark m out = (case wo_conn out of None \<Rightarrow> m | Some c \<Rightarrow> m(c := PhServing))"

fun exec :: "event \<Rightarrow> rtm_sys \<Rightarrow> rtm_sys" where
  "exec (EvConnect req) s =
     (if sy_crashed s then s else s\<lparr>sy_w := snd (HTTPConnectHandler example_http_env req (sy_w s))\<rparr>)"
| "exec (EvWebsocket key) s =
     (if sy_crashed s then s
      else case rtm_HTTPWebsocketHandler example_http_env ''GET'' (Some key) (Upgraded []) (sy_w s) of
        (out, w) \<Rightarrow> s\<lparr>sy_w := w, sy_ph := mark (sy_ph s) out\<rparr>)"
| "exec (EvServe c) s =
     (if sy_crashed s \<or> sy_ph s c \<noteq> PhServing then s
      else case rtm_OnConnect example_env c (rtm_serve_begin c (sy_w s)) of
        (r, w) \<Rightarrow> s\<lparr>sy_w := w, sy_ph := (sy_ph s)(c := (if r = HBlocked then PhStuck else PhOpen)), sy_crashed := (r = HPanic)\<rparr>)"
| "exec (EvText c j) s =
     (if sy_crashed s \<or> sy_ph s c \<noteq> PhOpen then s
      else case readPump_text example_env c (Some j) (sy_w s) of
        (rr, w) \<Rightarrow> s\<lparr>sy_w := w, sy_ph := (sy_ph s)(c := phase_after_read rr), sy_crashed := (rr = ReadPanic)\<rparr>)"
| "exec EvTask s =
     (if sy_crashed s then s
      else case w_tasks (sy_w s) of
        [] \<Rightarrow> s
      | t # ts \<Rightarrow> (case run_task example_env t ((sy_w s)\<lparr>w_tasks := ts\<rparr>) of (r, w) \<Rightarrow> s\<lparr>sy_w := w, sy_crashed := (r = HPanic)\<rparr>))"
| "exec (EvMcuWebsocket transaction) s =
     (if sy_crashed s \<or> \<not> rm_mcum (w_rtm (sy_w s)) then s
      else case mcu_HTTPWebsocketHandler example_env ''GET'' transaction (Upgraded websocketSubProtocolName) (sy_w s) of
        (out, w) \<Rightarrow> s\<lparr>sy_w := w, sy_mcu := mark (sy_mcu s) out\<rparr>)"
| "exec (EvMcuServe c) s =
     (if sy_crashed s \<or> sy_mcu s c \<noteq> PhServing then s
      else s\<lparr>sy_w := snd (mcu_served c (sy_w s)), sy_mcu := (sy_mcu s)(c := PhOpen)\<rparr>)"
| "exec (EvMcuText c j) s =
     (if sy_crashed s \<or> sy_mcu s c \<noteq> PhOpen then s
      else case mcu_readPump_text c (Some j) (sy_w s) of
        (rr, w) \<Rightarrow> s\<lparr>sy_w := w, sy_mcu := (sy_mcu s)(c := phase_after_read rr), sy_crashed := (rr = ReadPanic)\<rparr>)"

lemma exec_step: "exec e s = s \<or> rtm_step s (exec e s)"
proof (cases e)
  case (EvConnect req)
  then show ?thesis by (auto intro: rtm_step.connect [OF _ prod.collapse [symmetric]])
next
  case (EvWebsocket key)
  then show ?thesis unfolding mark_def by (auto split: prod.splits intro: rtm_step.websocket simp: mark_def)
next
  case (EvServe c)
  obtain r w where "rtm_OnConnect example_env c (rtm_serve_begin c (sy_w s)) = (r, w)"
    by (cases "rtm_OnConnect example_env c (rtm_serve_begin c (sy_w s))")
  then show ?thesis using EvServe rtm_step.serve [of s c example_env r w] by simp
next
  case (EvText c j)
  then show ?thesis by (auto split: prod.splits intro: rtm_step.read_text)
next
  case EvTask
  then show ?thesis using rtm_step.task [where xs = "[]"] by (auto split: list.splits prod.splits)
next
  case (EvMcuWebsocket tr)
  then show ?thesis by (auto split: prod.splits intro: rtm_step.mcu_websocket simp: mark_def)
next
  case (EvMcuServe c)
  then show ?thesis by (auto intro: rtm_step.mcu_serve [OF _ _ prod.collapse [symmetric]])
next
  case (EvMcuText c j)
  then show ?thesis by (auto split: prod.splits intro: rtm_step.mcu_read_text)
qed

lemma exec_reach: "reach rtm_init rtm_step s \<Longrightarrow> reach rtm_init rtm_step (fold exec es s)"
proof (induction es arbitrary: s)
  case (Cons e es)
  have "reach rtm_init rtm_step (exec e s)"
    using exec_step [of e s] Cons.prems rtm_next by auto
  then show ?case using Cons.IH by simp
qed simp

section \<open>A run with an MCU\<close>

text \<open>
  The MCU opens a control connection; Bob connects and joins the group g, whose channel gets a
  pipeline; the pipeline asks for an attach, and the MCU opens the connection for it.
\<close>

definition mcu_world :: world where
  "mcu_world = start_world (rtm_NewManager (\<lambda>_. Some (\<lambda>_. True)) False [] ''p'' True False None)
     (SetBasicAuth (Some [''a'']) admin_NewManager)"

definition mcu_state :: rtm_sys where
  "mcu_state = fold exec
     [EvMcuWebsocket [], EvMcuServe 0, EvConnect example_basic_request, EvWebsocket ''rnd'', EvServe 2, EvText 2 join_text,
      EvTask, EvMcuWebsocket ''rnd'', EvMcuServe 6]
     \<lparr>sy_w = mcu_world, sy_ph = (\<lambda>_. PhNone), sy_mcu = (\<lambda>_. PhNone), sy_crashed = False\<rparr>"

definition mcu_text :: json where
  "mcu_text = JObj [(''type'', JStr ''webrtc''), (''source'', JStr ''al''), (''target'', JStr ''bob'')]"

lemma mcu_reach: "reach rtm_init rtm_step mcu_state"
  unfolding mcu_state_def
  by (rule exec_reach, rule reach.intros(1), unfold rtm_init_def mcu_world_def, intro exI) simp

lemma mcu_open: "sy_mcu mcu_state 6 = PhOpen"
  by code_simp

lemma mcu_reaches_bob:
  "length (cn_send (w_conns (snd (mcu_readPump_text 6 (Some mcu_text) (sy_w mcu_state))) 2)) \<noteq>
   length (cn_send (w_conns (sy_w mcu_state) 2))"
  by code_simp

lemma bob_reaches_mcu:
  "ch_pipeline (w_chans (sy_w mcu_state) 3) = Some 4 \<and>
   length (cn_send (w_conns (snd (Forward 3 ''bob'' ''al'' None zero_webrtc (sy_w mcu_state))) 6)) \<noteq>
   length (cn_send (w_conns (sy_w mcu_state) 6))"
  by code_simp

text \<open>An empty object from the MCU ends the process: the message it decodes to has no envelope.\<close>

lemma mcu_bare_text_panics: "fst (mcu_readPump_text 6 (Some (JObj [])) (sy_w mcu_state)) = ReadPanic \<and> bare_text (Some (JObj []))"
  by code_simp

lemma mcu_ring: "mm_connections (w_mcu (sy_w mcu_state)) = [0]"
  by code_simp

theorem mcu_text_confined_witness:
  "\<exists>x h p. Option.bind (Some mcu_text) decode_webrtc = Some x \<and> channel_member h (sy_w mcu_state) (wm_Target x) = Some 2 \<and>
     ch_pipeline (w_chans (sy_w mcu_state) h) = Some p \<and> pl_connection (w_pipes (sy_w mcu_state) p) = Some 6"
proof -
  let ?w' = "snd (mcu_readPump_text 6 (Some mcu_text) (sy_w mcu_state))"
  have "cn_send (w_conns ?w' 2) \<noteq> cn_send (w_conns (sy_w mcu_state) 2)" using mcu_reaches_bob by metis
  from mcu_text_confined [OF mcu_reach mcu_open prod.collapse [symmetric] this] show ?thesis by blast
qed

theorem pipeline_forward_confined_witness:
  "pl_connection (w_pipes (sy_w mcu_state) 4) = Some 6 \<and> sy_ph mcu_state 6 = PhNone"
proof -
  let ?w' = "snd (Forward 3 ''bob'' ''al'' None zero_webrtc (sy_w mcu_state))"
  have pipe: "ch_pipeline (w_chans (sy_w mcu_state) 3) = Some 4" using bob_reaches_mcu by blast
  have "cn_send (w_conns ?w' 6) \<noteq> cn_send (w_conns (sy_w mcu_state) 6)" using bob_reaches_mcu by metis
  from pipeline_forward_confined [OF mcu_reach pipe prod.collapse [symmetric] this] show ?thesis by blast
qed

theorem control_connections_in_turn_witness:
  "{c. live (sy_mcu mcu_state c) \<and> cn_binder (w_conns (sy_w mcu_state) c) = None} = {0} \<and>
   get_connections 1 (w_mcu (sy_w mcu_state)) = [Some 0]"
proof -
  have "set (mm_connections (w_mcu (sy_w mcu_state))) = {c. live (sy_mcu mcu_state c) \<and> cn_binder (w_conns (sy_w mcu_state) c) = None}"
    "mset (get_connections (length (mm_connections (w_mcu (sy_w mcu_state)))) (w_mcu (sy_w mcu_state))) =
      mset (map Some (mm_connections (w_mcu (sy_w mcu_state))))"
    using control_connections_in_turn [OF mcu_reach] by blast+
  then show ?thesis unfolding mcu_ring by simp
qed

end
