(* ===== verification/Write_Pump.thy ===== *)
theory Write_Pump
  imports Events
begin

text \<open>
  \<open>writePump\<close> of a client's connection (\<open>src/signaling/connection/connection.go\<close>) from its start to its return:
  the loop over its three cases, the calls of other goroutines between them, \<open>OnBeforeDisconnect\<close> of the
  RTM manager and the end of the websocket. Shown: what is written is what was queued, in order; and
  what \<open>OnBeforeDisconnect\<close> queues is never written.
\<close>

section \<open>The pump\<close>

text \<open>
  What happens next: the context is done, the send queue is read, the ticker fires (the latter two with the result
  of the websocket library's write), or another goroutine calls \<open>RawSend\<close> or \<open>Close\<close>.
\<close>

datatype pump_event = PumpDone | PumpReceive "string option" | PumpTick time "string option" | PumpSend payload | PumpClose time

text \<open>\<open>errClose\<close> below is the result of writing the close frame. The loop: the error kept for \<open>OnBeforeDisconnect\<close>, or \<open>None\<close> if it has not ended within the events.\<close>

fun writePump_loop :: "pump_event list \<Rightarrow> conn \<Rightarrow> (string option \<times> conn) option" where
  "writePump_loop [] c = None"
| "writePump_loop (PumpDone # evs) c = Some (None, c)"
| "writePump_loop (PumpReceive wsErr # evs) c =
     (case pump_receive wsErr c of
        None \<Rightarrow> writePump_loop evs c
      | Some (PumpContinue c') \<Rightarrow> writePump_loop evs c'
      | Some (PumpExit err c') \<Rightarrow> Some (err, c'))"
| "writePump_loop (PumpTick now wsErr # evs) c =
     (case pump_tick now wsErr c of
        PumpContinue c' \<Rightarrow> writePump_loop evs c'
      | PumpExit err c' \<Rightarrow> Some (err, c'))"
| "writePump_loop (PumpSend p # evs) c =
     (case RawSend p c of Inl _ \<Rightarrow> writePump_loop evs c | Inr c' \<Rightarrow> writePump_loop evs c')"
| "writePump_loop (PumpClose now # evs) c = writePump_loop evs (snd (conn_Close now c))"

definition rtm_writePump :: "conn_ref \<Rightarrow> string option \<Rightarrow> pump_event list \<Rightarrow> world \<Rightarrow> (string option \<times> world) option" where
  "rtm_writePump c errClose evs w =
     (case writePump_loop evs (w_conns w c) of
        None \<Rightarrow> None
      | Some (err, conn) \<Rightarrow>
          (case rtm_OnBeforeDisconnect c err (upd_conn c (\<lambda>_. conn) w) of
             (_, w1) \<Rightarrow> Some (err, upd_conn c (pump_shutdown errClose) w1)))"

section \<open>Lemmas\<close>

definition texts :: "'p frame list \<Rightarrow> 'p list" where
  "texts fs = concat (map (\<lambda>f. case f of TextFrame p \<Rightarrow> [p] | _ \<Rightarrow> []) fs)"

lemma texts_simps [simp]:
  "texts [] = []" "texts (fs @ gs) = texts fs @ texts gs"
  "texts [TextFrame p] = [p]" "texts [PingFrame s] = []" "texts [CloseGoingAway] = []"
  by (simp_all add: texts_def)

lemma in_texts: "p \<in> set (texts fs) \<longleftrightarrow> TextFrame p \<in> set fs"
  by (force simp: texts_def split: frame.splits)

text \<open>The payloads that the calls of \<open>RawSend\<close> bring into the queue.\<close>

fun accepted :: "pump_event list \<Rightarrow> conn \<Rightarrow> payload list" where
  "accepted [] c = []"
| "accepted (PumpDone # evs) c = []"
| "accepted (PumpReceive wsErr # evs) c =
     (case pump_receive wsErr c of
        None \<Rightarrow> accepted evs c
      | Some (PumpContinue c') \<Rightarrow> accepted evs c'
      | Some (PumpExit err c') \<Rightarrow> [])"
| "accepted (PumpTick now wsErr # evs) c =
     (case pump_tick now wsErr c of PumpContinue c' \<Rightarrow> accepted evs c' | PumpExit err c' \<Rightarrow> [])"
| "accepted (PumpSend p # evs) c = (case RawSend p c of Inl _ \<Rightarrow> accepted evs c | Inr c' \<Rightarrow> p # accepted evs c')"
| "accepted (PumpClose now # evs) c = accepted evs (snd (conn_Close now c))"

lemma accepted_sub: "set (accepted evs c) \<subseteq> {p. PumpSend p \<in> set evs}"
proof (induction evs c rule: accepted.induct)
  case (4 now wsErr evs c)
  then show ?case by (cases "pump_tick now wsErr c") auto
qed (auto split: option.splits pump_result.splits sum.splits)

lemma pump_receive_cases:
  assumes "pump_receive wsErr c = Some r"
  shows "(\<exists>p rest. cn_send c = p # rest \<and> r = PumpContinue (c\<lparr>cn_send := rest, ws_out := ws_out c @ [TextFrame p]\<rparr>)) \<or>
    (\<exists>p rest e. cn_send c = p # rest \<and> r = PumpExit (Some e) (c\<lparr>cn_send := rest\<rparr>)) \<or>
    cn_send c = [] \<and> r = PumpExit (Some ''send channel closed'') c"
  using assms by (auto simp: pump_receive_def conn_Write_def split: list.splits if_splits option.splits)

lemma pump_tick_keeps:
  "pump_tick now wsErr c = PumpContinue c' \<Longrightarrow> cn_send c' = cn_send c \<and> texts (ws_out c') = texts (ws_out c)"
  "pump_tick now wsErr c = PumpExit err c' \<Longrightarrow> cn_send c' = cn_send c \<and> texts (ws_out c') = texts (ws_out c)"
  by (auto simp: pump_tick_def Let_def split: if_splits option.splits)

lemma conn_Close_keeps [simp]: "cn_send (snd (conn_Close now c)) = cn_send c" "ws_out (snd (conn_Close now c)) = ws_out c"
  by (simp_all add: conn_Close_def)

text \<open>What was written and what is queued make up what was queued, up to the one payload whose write failed.\<close>

lemma writePump_loop_fifo:
  assumes "writePump_loop evs c = Some (err, c')"
  shows "\<exists>lost. texts (ws_out c') @ lost @ cn_send c' = texts (ws_out c) @ cn_send c @ accepted evs c \<and>
    length lost \<le> 1 \<and> (err = None \<longrightarrow> lost = [])"
  using assms
proof (induction evs c rule: writePump_loop.induct)
  case (3 wsErr evs c)
  show ?case
  proof (cases "pump_receive wsErr c")
    case (Some r)
    from pump_receive_cases [OF this] show ?thesis
    proof (elim disjE exE conjE)
      fix p rest assume q: "cn_send c = p # rest" "r = PumpContinue (c\<lparr>cn_send := rest, ws_out := ws_out c @ [TextFrame p]\<rparr>)"
      then show ?thesis using 3(2) [OF Some] 3(3) Some by simp
    qed (use 3(3) Some in auto)
  qed (use 3 in simp)
next
  case (4 now wsErr evs c)
  show ?case
  proof (cases "pump_tick now wsErr c")
    case (PumpContinue c1)
    then show ?thesis using 4 pump_tick_keeps(1) [OF PumpContinue] by simp
  next
    case (PumpExit e c1)
    then show ?thesis using 4(2) pump_tick_keeps(2) [OF PumpExit] by (intro exI [of _ "[]"]) simp
  qed
next
  case (5 p evs c)
  show ?case
  proof (cases "RawSend p c")
    case (Inr c1)
    then have "c1 = c\<lparr>cn_send := cn_send c @ [p]\<rparr>" by (simp add: RawSend_Inr)
    then show ?thesis using 5 Inr by simp
  qed (use 5 in simp)
qed simp_all

section \<open>Properties\<close>

definition goodbye :: payload where
  "goodbye = PHello (hello_message RTMTypeNameGoodbye None None)"

lemma OnBeforeDisconnect_conn:
  "w_conns (snd (rtm_OnBeforeDisconnect c err w)) c =
     (let conn = w_conns w c
      in if err = None \<and> \<not> cn_closed conn \<and> length (cn_send conn) < sendCap then conn\<lparr>cn_send := cn_send conn @ [goodbye]\<rparr> else conn)"
  by (auto simp: rtm_OnBeforeDisconnect_def result_of_send_def w_send_def RawSend_def upd_conn_def goodbye_def Let_def
      split: option.splits)

lemma rtm_writePump_conn:
  assumes "rtm_writePump c errClose evs w = Some (err, w')"
  obtains conn where "writePump_loop evs (w_conns w c) = Some (err, conn)"
    and "w_conns w' c = pump_shutdown errClose (if err = None \<and> \<not> cn_closed conn \<and> length (cn_send conn) < sendCap
      then conn\<lparr>cn_send := cn_send conn @ [goodbye]\<rparr> else conn)"
proof -
  obtain conn where l: "writePump_loop evs (w_conns w c) = Some (err, conn)"
      and w': "w' = upd_conn c (pump_shutdown errClose) (snd (rtm_OnBeforeDisconnect c err (upd_conn c (\<lambda>_. conn) w)))"
    using assms by (auto simp: rtm_writePump_def split: option.splits prod.splits)
  show thesis by (rule that [OF l]) (simp add: w' upd_conn_def OnBeforeDisconnect_conn [unfolded upd_conn_def] Let_def)
qed

text \<open>
  C25. What the write pump writes until it returns: the queued messages in the order in which they were queued, each
  once, and at the end, if that write succeeds, the close frame; a message is lost only if its own write fails, which ends the
  pump. The goodbye message that \<open>OnBeforeDisconnect\<close> queues when the server ends the connection is not
  among them: it is put into the queue after the loop that would write it, and the websocket is closed.
\<close>

theorem writePump_fifo_without_goodbye:
  assumes "rtm_writePump c errClose evs w = Some (err, w')"
  defines "before \<equiv> w_conns w c" and "after \<equiv> w_conns w' c"
  shows "\<exists>left lost. texts (ws_out after) @ lost @ left = texts (ws_out before) @ cn_send before @ accepted evs before \<and>
      length lost \<le> 1 \<and> (err = None \<longrightarrow> lost = []) \<and> (errClose = None \<longrightarrow> last (ws_out after) = CloseGoingAway) \<and> ws_closed after \<and>
      cn_send after = left @ (if err = None \<and> \<not> cn_closed after \<and> length left < sendCap then [goodbye] else [])"
proof -
  obtain conn where conn: "writePump_loop evs before = Some (err, conn)"
      "after = pump_shutdown errClose (if err = None \<and> \<not> cn_closed conn \<and> length (cn_send conn) < sendCap
        then conn\<lparr>cn_send := cn_send conn @ [goodbye]\<rparr> else conn)"
    using rtm_writePump_conn [OF assms(1)] unfolding before_def after_def by metis
  obtain lost where "texts (ws_out conn) @ lost @ cn_send conn = texts (ws_out before) @ cn_send before @ accepted evs before"
      "length lost \<le> 1" "err = None \<longrightarrow> lost = []"
    using writePump_loop_fifo [OF conn(1)] by blast
  then show ?thesis
    by - (rule exI [of _ "cn_send conn"], rule exI [of _ lost], auto simp: conn(2) pump_shutdown_def)
qed

theorem writePump_fifo_without_goodbye_witness:
  "\<exists>w'. rtm_writePump 0 None [PumpDone] example_world = Some (None, w') \<and>
     cn_send (w_conns w' 0) = [goodbye] \<and> texts (ws_out (w_conns w' 0)) = [] \<and> ws_closed (w_conns w' 0)"
proof -
  have start: "cn_send (w_conns example_world 0) = []" "ws_out (w_conns example_world 0) = []" "\<not> cn_closed (w_conns example_world 0)"
    by (simp_all add: example_world_defs conn_New_def)
  obtain w' where w': "rtm_writePump 0 None [PumpDone] example_world = Some (None, w')" "\<not> cn_closed (w_conns w' 0)"
    using start by (auto simp: rtm_writePump_def rtm_OnBeforeDisconnect_def result_of_send_def w_send_def RawSend_def upd_conn_def
        pump_shutdown_def sendCap_def)
  from writePump_fifo_without_goodbye [OF w'(1)] w' start show ?thesis by (auto simp: sendCap_def)
qed

end
