(* ===== verification/Chat_Order.thy ===== *)
theory Chat_Order
  imports Chats
begin

text \<open>
  Deliveries of chat messages and of join and leave notices to one channel, interleaved
  (\<open>src/signaling/rtm/chats.go\<close>): each runs in a goroutine of its own, takes the chat mutex of the
  channel (\<open>namedMutexLock\<close> in \<open>channel.go\<close>) and queues its message with one \<open>RawSend\<close> per
  connection. Between any two of these steps anything else may happen. Shown: whatever two members
  receive of a channel they receive in the same order, and each delivery alone does what the handlers of
  \<open>Chats\<close> do in one step.
\<close>

section \<open>Histories in a common order\<close>

text \<open>
  A system in which observers see numbered events in the order of the numbers: what two of them have both
  seen, they have seen in the same order.
\<close>

locale numbered_system = invariant_system +
  fixes seen :: "'a \<Rightarrow> 'c \<Rightarrow> nat list"
  assumes seen_sorted: "inv s \<Longrightarrow> sorted_wrt (<) (seen s c)"
begin

lemma reach_sorted: "reach init step s \<Longrightarrow> sorted_wrt (<) (seen s c)"
  by (rule seen_sorted [OF reach_inv])

lemma common_order:
  assumes "reach init step s"
  shows "filter (\<lambda>n. n \<in> set (seen s d)) (seen s c) = filter (\<lambda>n. n \<in> set (seen s c)) (seen s d)"
proof (rule sorted_distinct_set_unique)
  show "sorted (filter (\<lambda>n. n \<in> set (seen s d)) (seen s c))" "sorted (filter (\<lambda>n. n \<in> set (seen s c)) (seen s d))"
    using reach_sorted [OF assms] by (auto simp: strict_sorted_iff intro: sorted_wrt_filter)
  show "distinct (filter (\<lambda>n. n \<in> set (seen s d)) (seen s c))" "distinct (filter (\<lambda>n. n \<in> set (seen s c)) (seen s d))"
    using reach_sorted [OF assms] by (simp_all add: strict_sorted_iff)
qed auto

end

section \<open>States and steps\<close>

text \<open>
  A delivery: the connection it comes from, the reply to it, the message for the others, and the delivery
  report after the mutex is released. A notice has neither reply nor report.
\<close>

record chat_job =
  cj_conn :: conn_ref
  cj_reply :: "payload option"
  cj_payload :: payload
  cj_report :: "payload option"

definition message_job :: "conn_ref \<Rightarrow> u64 \<Rightarrow> string \<Rightarrow> RTMDataProfile \<Rightarrow> RTMDataChatsMessage \<Rightarrow> chat_job" where
  "message_job c ref cid profile extra =
     \<lparr>cj_conn = c, cj_reply = Some (PChatsReply (chats_reply ref cid extra)),
      cj_payload = PChats (chats_payload RTMSubtypeNameChatsMessage cid (Some profile) extra),
      cj_report = Some (PChats (chats_payload RTMSubtypeNameChatsSystem cid None (queued_report (cd_ID extra))))\<rparr>"

definition notice_job :: "rtm_env \<Rightarrow> conn_ref \<Rightarrow> string \<Rightarrow> userRecord \<Rightarrow> ChannelOp \<Rightarrow> string \<Rightarrow> chat_job" where
  "notice_job env c cid r op uid =
     \<lparr>cj_conn = c, cj_reply = None,
      cj_payload = PChats (chats_payload RTMSubtypeNameChatsSystem cid (Some (auth_profile (ur_auth r))) (system_message env r op uid)),
      cj_report = None\<rparr>"

text \<open>
  The counter of a goroutine: it wants the mutex; it has it, for the delivery with a number; it has replied
  to the sender; it queues the message for the rest of the connections; it has released the mutex.
\<close>

datatype chat_pc = CIdle | CWant chat_job | CLocked chat_job nat | CReplied chat_job nat
  | CLoop chat_job nat "conn_ref list" | CUnlocked chat_job

text \<open>
  \<open>co_count\<close> counts how often the mutex was taken, \<open>co_data\<close> has the data of each delivery, and
  \<open>co_log\<close> what each connection's queue has accepted of them; the program does not keep them.
\<close>

record chat_sys =
  co_w :: world
  co_pc :: "nat \<Rightarrow> chat_pc"
  co_mutex :: "nat option"
  co_count :: nat
  co_data :: "nat \<Rightarrow> json option"
  co_log :: "conn_ref \<Rightarrow> (nat \<times> payload) list"

fun chat_data :: "payload \<Rightarrow> json option" where
  "chat_data (PChats m) = cm_Data m"
| "chat_data (PChatsReply m) = cy_Data m"
| "chat_data _ = None"

text \<open>A connection is a member of a channel under one id, that of its user.\<close>

definition members_once :: "chan_ref \<Rightarrow> world \<Rightarrow> bool" where
  "members_once h w \<longleftrightarrow> distinct (map snd (ch_connections (w_chans w h)))"

definition chat_init :: "chan_ref \<Rightarrow> chat_sys \<Rightarrow> bool" where
  "chat_init h s \<longleftrightarrow> members_once h (co_w s) \<and> co_pc s = (\<lambda>_. CIdle) \<and> co_mutex s = None \<and> co_count s = 0 \<and> co_log s = (\<lambda>_. [])"

text \<open>One \<open>RawSend\<close> of a delivery.\<close>

definition chat_send :: "nat \<Rightarrow> payload \<Rightarrow> conn_ref \<Rightarrow> chat_sys \<Rightarrow> chat_sys" where
  "chat_send n p d s = s\<lparr>co_w := send_to p d (co_w s),
     co_log := (if fst (w_send d p (co_w s)) = None then (co_log s)(d := co_log s d @ [(n, p)]) else co_log s)\<rparr>"

inductive chat_step :: "chan_ref \<Rightarrow> nat \<Rightarrow> chat_sys \<Rightarrow> chat_sys \<Rightarrow> bool" for h i where
  chat_message: "co_pc s i = CIdle \<Longrightarrow>
    chat_step h i s (s\<lparr>co_pc := (co_pc s)(i := CWant (message_job c ref (ch_id (w_chans (co_w s) h)) profile extra))\<rparr>)"
| chat_notice: "co_pc s i = CIdle \<Longrightarrow> bound_user c (co_w s) = Some u \<Longrightarrow>
    chat_step h i s (s\<lparr>co_pc := (co_pc s)(i := CWant (notice_job env c (ch_id (w_chans (co_w s) h)) (w_users (co_w s) u) op uid))\<rparr>)"
| chat_lock: "co_pc s i = CWant j \<Longrightarrow> co_mutex s = None \<Longrightarrow> n = co_count s \<Longrightarrow>
    chat_step h i s (s\<lparr>co_pc := (co_pc s)(i := CLocked j n), co_mutex := Some i, co_count := Suc n,
      co_data := (co_data s)(n := chat_data (cj_payload j))\<rparr>)"
| chat_noreply: "co_pc s i = CLocked j n \<Longrightarrow> cj_reply j = None \<Longrightarrow>
    chat_step h i s (s\<lparr>co_pc := (co_pc s)(i := CReplied j n)\<rparr>)"
| chat_reply: "co_pc s i = CLocked j n \<Longrightarrow> cj_reply j = Some p \<Longrightarrow> fst (w_send (cj_conn j) p (co_w s)) = None \<Longrightarrow>
    chat_step h i s ((chat_send n p (cj_conn j) s)\<lparr>co_pc := (co_pc s)(i := CReplied j n)\<rparr>)"
| chat_reply_failed: "co_pc s i = CLocked j n \<Longrightarrow> cj_reply j = Some p \<Longrightarrow> fst (w_send (cj_conn j) p (co_w s)) \<noteq> None \<Longrightarrow>
    chat_step h i s ((chat_send n p (cj_conn j) s)\<lparr>co_pc := (co_pc s)(i := CIdle), co_mutex := None\<rparr>)"
| chat_connections: "co_pc s i = CReplied j n \<Longrightarrow> Channel_Connections h (co_w s) = Some (ids, ds) \<Longrightarrow>
    chat_step h i s (s\<lparr>co_pc := (co_pc s)(i := CLoop j n (filter (\<lambda>d. d \<noteq> cj_conn j) ds))\<rparr>)"
| chat_deliver: "co_pc s i = CLoop j n (d # ds) \<Longrightarrow>
    chat_step h i s ((chat_send n (cj_payload j) d s)\<lparr>co_pc := (co_pc s)(i := CLoop j n ds)\<rparr>)"
| chat_unlock: "co_pc s i = CLoop j n [] \<Longrightarrow>
    chat_step h i s (s\<lparr>co_pc := (co_pc s)(i := CUnlocked j), co_mutex := None\<rparr>)"
| chat_report: "co_pc s i = CUnlocked j \<Longrightarrow>
    chat_step h i s (s\<lparr>co_pc := (co_pc s)(i := CIdle),
      co_w := (case cj_report j of None \<Rightarrow> co_w s | Some p \<Rightarrow> send_to p (cj_conn j) (co_w s))\<rparr>)"

text \<open>Everything else: write pumps, joins and leaves, other handlers.\<close>

definition chat_run_step :: "chan_ref \<Rightarrow> chat_sys \<Rightarrow> chat_sys \<Rightarrow> bool" where
  "chat_run_step h s t \<longleftrightarrow> (\<exists>i. chat_step h i s t) \<or> (\<exists>w. members_once h w \<and> t = s\<lparr>co_w := w\<rparr>)"

section \<open>The invariant\<close>

fun holding :: "chat_pc \<Rightarrow> nat option" where
  "holding (CLocked j n) = Some n"
| "holding (CReplied j n) = Some n"
| "holding (CLoop j n ds) = Some n"
| "holding pc = None"

fun pc_job :: "chat_pc \<Rightarrow> chat_job option" where
  "pc_job CIdle = None"
| "pc_job (CWant j) = Some j"
| "pc_job (CLocked j n) = Some j"
| "pc_job (CReplied j n) = Some j"
| "pc_job (CLoop j n ds) = Some j"
| "pc_job (CUnlocked j) = Some j"

text \<open>The connections the current delivery has still to come to.\<close>

fun to_come :: "chat_pc \<Rightarrow> conn_ref \<Rightarrow> bool" where
  "to_come (CReplied j n) d \<longleftrightarrow> d \<noteq> cj_conn j"
| "to_come (CLoop j n ds) d \<longleftrightarrow> d \<in> set ds"
| "to_come pc d \<longleftrightarrow> True"

definition log_nums :: "chat_sys \<Rightarrow> conn_ref \<Rightarrow> nat list" where
  "log_nums s c = map fst (co_log s c)"

definition job_ok :: "chat_job \<Rightarrow> bool" where
  "job_ok j \<longleftrightarrow> (\<forall>p. cj_reply j = Some p \<longrightarrow> chat_data p = chat_data (cj_payload j))"

definition chat_pc_ok :: "chat_sys \<Rightarrow> chat_pc \<Rightarrow> bool" where
  "chat_pc_ok s pc \<longleftrightarrow> (\<forall>j. pc_job pc = Some j \<longrightarrow> job_ok j \<and>
     (\<forall>n. holding pc = Some n \<longrightarrow> Suc n = co_count s \<and> co_data s n = chat_data (cj_payload j) \<and>
        (\<forall>d. to_come pc d \<longrightarrow> n \<notin> set (log_nums s d)))) \<and>
     (case pc of CLoop j n ds \<Rightarrow> distinct ds | _ \<Rightarrow> True)"

definition chat_inv :: "chan_ref \<Rightarrow> chat_sys \<Rightarrow> bool" where
  "chat_inv h s \<longleftrightarrow> members_once h (co_w s) \<and>
     (\<forall>i. co_mutex s = Some i \<longleftrightarrow> holding (co_pc s i) \<noteq> None) \<and>
     (\<forall>i. chat_pc_ok s (co_pc s i)) \<and>
     (\<forall>c. sorted_wrt (<) (log_nums s c) \<and> (\<forall>(n, p) \<in> set (co_log s c). n < co_count s \<and> chat_data p = co_data s n))"

lemma chat_invD:
  assumes "chat_inv h s"
  shows "members_once h (co_w s)" and "co_mutex s = Some i \<longleftrightarrow> holding (co_pc s i) \<noteq> None" and "chat_pc_ok s (co_pc s i)"
    and "sorted_wrt (<) (log_nums s c)" and "(n, p) \<in> set (co_log s c) \<Longrightarrow> n < co_count s \<and> chat_data p = co_data s n"
  using assms by (auto simp: chat_inv_def)

lemma log_below: "chat_inv h s \<Longrightarrow> n \<in> set (log_nums s c) \<Longrightarrow> n < co_count s"
  using chat_invD(5) by (fastforce simp: log_nums_def)

text \<open>A goroutine without the mutex says nothing about the deliveries.\<close>

lemma pc_ok_waiting: "holding pc = None \<Longrightarrow> chat_pc_ok s pc = (\<forall>j. pc_job pc = Some j \<longrightarrow> job_ok j)"
  by (cases pc) (auto simp: chat_pc_ok_def)

lemma pc_ok_cong: "co_count t = co_count s \<Longrightarrow> co_data t = co_data s \<Longrightarrow> co_log t = co_log s \<Longrightarrow> chat_pc_ok t pc = chat_pc_ok s pc"
  by (cases pc) (simp_all add: chat_pc_ok_def log_nums_def)

text \<open>A step of one goroutine: it takes the mutex when it is free, and only with the mutex it changes what is recorded.\<close>

lemma chat_inv_stepI:
  assumes "chat_inv h s" and "co_pc t = (co_pc s)(i := pc1)" and "members_once h (co_w t)"
    and "co_mutex t = (if holding pc1 \<noteq> None then Some i else if holding (co_pc s i) \<noteq> None then None else co_mutex s)"
    and "holding pc1 \<noteq> None \<Longrightarrow> holding (co_pc s i) \<noteq> None \<or> co_mutex s = None"
    and "co_mutex s = Some i \<or> co_mutex s = None \<or> co_count t = co_count s \<and> co_data t = co_data s \<and> co_log t = co_log s"
    and "chat_pc_ok t pc1"
    and "\<And>c. sorted_wrt (<) (log_nums t c)"
    and "\<And>c n p. (n, p) \<in> set (co_log t c) \<Longrightarrow> n < co_count t \<and> chat_data p = co_data t n"
  shows "chat_inv h t"
proof -
  note D = chat_invD [OF assms(1)]
  have "co_mutex t = Some k \<longleftrightarrow> holding (co_pc t k) \<noteq> None" for k
    using D(2) [of k] D(2) [of i] assms(4,5) by (auto simp: assms(2))
  moreover have "chat_pc_ok t (co_pc t k)" for k
  proof (cases "k = i")
    case False
    then have "holding (co_pc s k) = None \<or> co_count t = co_count s \<and> co_data t = co_data s \<and> co_log t = co_log s"
      using D(2) [of k] assms(6) by auto
    then show ?thesis using D(3) [of k] pc_ok_waiting pc_ok_cong [of t s] False by (auto simp: assms(2))
  qed (simp add: assms(2,7))
  ultimately show ?thesis using assms(3,8,9) by (auto simp: chat_inv_def)
qed

lemma chat_quiet_step:
  assumes "chat_inv h s" and "co_pc t = (co_pc s)(i := pc1)" and "members_once h (co_w t)"
    and "co_mutex t = (if holding pc1 \<noteq> None then Some i else if holding (co_pc s i) \<noteq> None then None else co_mutex s)"
    and "holding pc1 \<noteq> None \<Longrightarrow> holding (co_pc s i) \<noteq> None"
    and "co_count t = co_count s" and "co_data t = co_data s" and "co_log t = co_log s" and "chat_pc_ok s pc1"
  shows "chat_inv h t"
  by (rule chat_inv_stepI [OF assms(1-4)])
    (use assms(5-9) chat_invD(4,5) [OF assms(1)] pc_ok_cong [of t s] in \<open>auto simp: log_nums_def\<close>)

lemma members_once_send [simp]: "members_once h (send_to p d w) = members_once h w"
  using same_but_queuesD [OF send_to_same [of w p d]] by (simp add: members_once_def)

lemma chat_send_sel [simp]:
  "co_w (chat_send n p d s) = send_to p d (co_w s)" "co_pc (chat_send n p d s) = co_pc s" "co_mutex (chat_send n p d s) = co_mutex s"
  "co_count (chat_send n p d s) = co_count s" "co_data (chat_send n p d s) = co_data s"
  by (simp_all add: chat_send_def)

text \<open>The holder of the mutex sends.\<close>

lemma chat_send_step:
  assumes "chat_inv h s" and "co_mutex s = Some i" and "holding (co_pc s i) = Some n" and "pc_job (co_pc s i) = Some j"
    and "to_come (co_pc s i) d" and "chat_data p = chat_data (cj_payload j)"
    and "t = (chat_send n p d s)\<lparr>co_pc := (co_pc s)(i := pc1), co_mutex := m\<rparr>" and "m = (if holding pc1 = None then None else Some i)"
    and "pc_job pc1 = Some j \<or> pc1 = CIdle" and "holding pc1 = Some n \<or> pc1 = CIdle"
    and "\<And>c. to_come pc1 c \<Longrightarrow> pc1 = CIdle \<or> to_come (co_pc s i) c \<and> c \<noteq> d"
    and "\<And>ds. pc1 = CLoop j n ds \<Longrightarrow> distinct ds"
  shows "chat_inv h t"
proof -
  note D = chat_invD [OF assms(1)]
  have ok: "job_ok j" "Suc n = co_count s" "co_data s n = chat_data (cj_payload j)" "n \<notin> set (log_nums s d)"
      "\<And>c. to_come (co_pc s i) c \<Longrightarrow> n \<notin> set (log_nums s c)"
    using D(3) [of i] assms(3-5) by (auto simp: chat_pc_ok_def)
  have log: "co_log t c = co_log s c \<or> c = d \<and> co_log t c = co_log s c @ [(n, p)]" for c
    by (simp add: assms(7) chat_send_def)
  have below: "m < n" if "m \<in> set (log_nums s d)" for m
  proof -
    have "m < co_count s" "m \<noteq> n" using log_below [OF assms(1) that] that ok(4) by auto
    then show ?thesis using ok(2) by simp
  qed
  show ?thesis
  proof (rule chat_inv_stepI [OF assms(1), where i = i and ?pc1.0 = pc1])
    show "sorted_wrt (<) (log_nums t c)" for c
      using log [of c] D(4) [of c] below by (auto simp: log_nums_def sorted_wrt_append)
    show "m < co_count t \<and> chat_data q = co_data t m" if "(m, q) \<in> set (co_log t c)" for c m q
      using that log [of c] D(5) [of m q c] ok(2,3) assms(6) by (auto simp: assms(7))
    have "n \<notin> set (log_nums t c)" if "to_come pc1 c" "pc1 \<noteq> CIdle" for c
      using assms(11) [OF that(1)] that(2) log [of c] ok(5) [of c] by (auto simp: log_nums_def)
    then show "chat_pc_ok t pc1"
      using ok assms(9,10,12) by (auto simp: chat_pc_ok_def assms(7) split: chat_pc.splits)
  qed (use assms D(1) in auto)
qed

lemma jobs_ok: "job_ok (message_job c ref cid profile extra)" "job_ok (notice_job env c cid r op uid)"
  by (simp_all add: job_ok_def message_job_def notice_job_def chats_reply_def chats_payload_def)

lemma Channel_Connections_distinct:
  "members_once h w \<Longrightarrow> Channel_Connections h w = Some (ids, ds) \<Longrightarrow> distinct ds"
  by (auto simp: Channel_Connections_def members_once_def split: if_splits)

lemma chat_inv_step:
  assumes "chat_step h i s t" and "chat_inv h s"
  shows "chat_inv h t"
  using assms
proof (induction rule: chat_step.induct)
  case (chat_message s c ref profile extra)
  show ?case
    by (rule chat_quiet_step [OF chat_message(2), where i = i]) (use chat_message chat_invD(1) jobs_ok in \<open>auto simp: pc_ok_waiting\<close>)
next
  case (chat_notice s c u env op uid)
  show ?case
    by (rule chat_quiet_step [OF chat_notice(3), where i = i]) (use chat_notice chat_invD(1) jobs_ok in \<open>auto simp: pc_ok_waiting\<close>)
next
  case (chat_lock s j n)
  note D = chat_invD [OF chat_lock(4)]
  have j: "job_ok j" using D(3) [of i] chat_lock(1) by (simp add: chat_pc_ok_def)
  have fresh: "n \<notin> set (log_nums s c)" for c using log_below [OF chat_lock(4), of n c] chat_lock(3) by auto
  show ?case
    by (rule chat_inv_stepI [OF chat_lock(4), where i = i and ?pc1.0 = "CLocked j n"])
      (use chat_lock D(1,4,5) j fresh in \<open>auto simp: chat_pc_ok_def log_nums_def less_Suc_eq dest: D(5)\<close>)
next
  case (chat_noreply s j n)
  note D = chat_invD [OF chat_noreply(3)]
  show ?case
    by (rule chat_quiet_step [OF chat_noreply(3), where i = i and ?pc1.0 = "CReplied j n"])
      (use chat_noreply D(1) D(2) [of i] D(3) [of i] in \<open>auto simp: chat_pc_ok_def\<close>)
next
  case (chat_reply s j n p)
  note D = chat_invD [OF chat_reply(4)]
  have j: "job_ok j" using D(3) [of i] chat_reply(1) by (simp add: chat_pc_ok_def)
  have m: "co_mutex s = Some i" using D(2) [of i] chat_reply(1) by simp
  show ?case
    by (rule chat_send_step [OF chat_reply(4) m, where n = n and j = j and d = "cj_conn j" and p = p and ?pc1.0 = "CReplied j n" and m = "Some i"])
      (use chat_reply j m in \<open>auto simp: job_ok_def chat_send_def\<close>)
next
  case (chat_reply_failed s j n p)
  note D = chat_invD [OF chat_reply_failed(4)]
  have m: "co_mutex s = Some i" using D(2) [of i] chat_reply_failed(1) by simp
  have j: "job_ok j" using D(3) [of i] chat_reply_failed(1) by (simp add: chat_pc_ok_def)
  show ?case
    by (rule chat_send_step [OF chat_reply_failed(4) m, where n = n and j = j and d = "cj_conn j" and p = p and ?pc1.0 = CIdle and m = None])
      (use chat_reply_failed j in \<open>auto simp: job_ok_def\<close>)
next
  case (chat_connections s j n ids ds)
  note D = chat_invD [OF chat_connections(3)]
  have "distinct ds" by (rule Channel_Connections_distinct [OF D(1) chat_connections(2)])
  then show ?case
    by (intro chat_quiet_step [OF chat_connections(3), where i = i and ?pc1.0 = "CLoop j n (filter (\<lambda>d. d \<noteq> cj_conn j) ds)"])
      (use chat_connections D(1) D(2) [of i] D(3) [of i] in \<open>auto simp: chat_pc_ok_def\<close>)
next
  case (chat_deliver s j n d ds)
  note D = chat_invD [OF chat_deliver(2)]
  have m: "co_mutex s = Some i" using D(2) [of i] chat_deliver(1) by simp
  have "distinct (d # ds)" using D(3) [of i] chat_deliver(1) by (simp add: chat_pc_ok_def)
  then show ?case
    by (intro chat_send_step [OF chat_deliver(2) m, where n = n and j = j and d = d and p = "cj_payload j" and ?pc1.0 = "CLoop j n ds" and m = "Some i"])
      (use chat_deliver m in \<open>auto simp: chat_send_def\<close>)
next
  case (chat_unlock s j n)
  note D = chat_invD [OF chat_unlock(2)]
  have "job_ok j" using D(3) [of i] chat_unlock(1) by (simp add: chat_pc_ok_def)
  then show ?case
    by (intro chat_quiet_step [OF chat_unlock(2), where i = i and ?pc1.0 = "CUnlocked j"])
      (use chat_unlock D(1) in \<open>auto simp: pc_ok_waiting\<close>)
next
  case (chat_report s j)
  note D = chat_invD [OF chat_report(2)]
  show ?case
    by (rule chat_quiet_step [OF chat_report(2), where i = i and ?pc1.0 = CIdle])
      (use chat_report D(1) in \<open>auto simp: pc_ok_waiting split: option.splits\<close>)
qed

lemma chat_run_inv_step:
  assumes "chat_inv h s" and "chat_run_step h s t"
  shows "chat_inv h t"
proof -
  have "chat_inv h (s\<lparr>co_w := w\<rparr>)" if "members_once h w" for w
  proof -
    have "log_nums (s\<lparr>co_w := w\<rparr>) = log_nums s" by (simp add: log_nums_def fun_eq_iff)
    then show ?thesis using assms(1) that by (simp add: chat_inv_def chat_pc_ok_def)
  qed
  then show ?thesis using assms chat_inv_step by (auto simp: chat_run_step_def)
qed

interpretation chats_run: numbered_system "chat_init h" "chat_run_step h" "chat_inv h" log_nums for h
proof
  show "chat_inv h s" if "chat_init h s" for s
    using that by (simp add: chat_init_def chat_inv_def pc_ok_waiting log_nums_def)
  show "chat_inv h t" if "chat_inv h s" "chat_run_step h s t" for s t using that by (rule chat_run_inv_step)
  show "sorted_wrt (<) (log_nums s c)" if "chat_inv h s" for s c using chat_invD(4) [OF that] .
qed

section \<open>One delivery alone\<close>

text \<open>Without anything in between, the steps of a delivery have the effect of the handlers that run it in one step.\<close>

lemma chat_steps1: "chat_step h i s t \<Longrightarrow> (chat_step h i)\<^sup>*\<^sup>* t v \<Longrightarrow> (chat_step h i)\<^sup>*\<^sup>* s v"
  by (rule converse_rtranclp_into_rtranclp)

lemma chat_loop_run:
  assumes "co_pc s i = CLoop j n ds"
  shows "\<exists>t. (chat_step h i)\<^sup>*\<^sup>* s t \<and> co_w t = send_all (cj_payload j) ds (co_w s) \<and> co_pc t i = CLoop j n [] \<and> co_mutex t = co_mutex s"
  using assms
proof (induction ds arbitrary: s)
  case (Cons d ds)
  let ?u = "(chat_send n (cj_payload j) d s)\<lparr>co_pc := (co_pc s)(i := CLoop j n ds)\<rparr>"
  obtain t where t: "(chat_step h i)\<^sup>*\<^sup>* ?u t" "co_w t = send_all (cj_payload j) ds (co_w ?u)" "co_pc t i = CLoop j n []" "co_mutex t = co_mutex ?u"
    using Cons.IH [of ?u] by auto
  then show ?case using chat_steps1 [OF chat_deliver [OF Cons.prems] t(1)] by (auto simp: send_all_def)
qed (auto simp: send_all_def)

lemma chat_finish_run:
  assumes "co_pc s i = CReplied j n" and "Channel_Connections h (co_w s) = Some (ids, ds)" and "w = send_all (cj_payload j) (filter (\<lambda>d. d \<noteq> cj_conn j) ds) (co_w s)"
  shows "\<exists>t. (chat_step h i)\<^sup>*\<^sup>* s t \<and> co_pc t i = CIdle \<and> co_mutex t = None \<and>
    co_w t = (case cj_report j of None \<Rightarrow> w | Some p \<Rightarrow> send_to p (cj_conn j) w)"
proof -
  let ?s1 = "s\<lparr>co_pc := (co_pc s)(i := CLoop j n (filter (\<lambda>d. d \<noteq> cj_conn j) ds))\<rparr>"
  obtain t where t: "(chat_step h i)\<^sup>*\<^sup>* ?s1 t" "co_w t = w" "co_pc t i = CLoop j n []"
    using chat_loop_run [of ?s1 i j n "filter (\<lambda>d. d \<noteq> cj_conn j) ds" h] assms(3) by auto
  let ?t1 = "t\<lparr>co_pc := (co_pc t)(i := CUnlocked j), co_mutex := None\<rparr>"
  let ?t2 = "t\<lparr>co_mutex := None, co_pc := (co_pc t)(i := CIdle), co_w := (case cj_report j of None \<Rightarrow> w | Some p \<Rightarrow> send_to p (cj_conn j) w)\<rparr>"
  have "chat_step h i ?t1 ?t2" using chat_report [of ?t1 i j h] t(2) by (simp cong: option.case_cong)
  then have "(chat_step h i)\<^sup>*\<^sup>* s ?t2"
    using chat_steps1 [OF chat_connections [OF assms(1,2)] t(1)] chat_unlock [OF t(3), of h] by (auto intro: rtranclp.rtrancl_into_rtrancl)
  then show ?thesis by (intro exI [of _ ?t2]) simp
qed

lemma chat_locked_run:
  assumes "co_pc s i = CWant j" and "co_mutex s = None"
  shows "\<exists>t. chat_step h i s t \<and> co_w t = co_w s \<and> co_pc t i = CLocked j (co_count s) \<and> co_mutex t = Some i"
  using chat_lock [OF assms refl, of h] by (intro exI conjI, assumption) simp_all

lemma message_run:
  assumes "co_pc s i = CWant (message_job c ref (ch_id (w_chans (co_w s) h)) profile extra)" and "co_mutex s = None"
    and "chats_deliver c ref h profile extra (co_w s) = (r, w)" and "r \<noteq> HBlocked"
  shows "\<exists>t. (chat_step h i)\<^sup>*\<^sup>* s t \<and> co_pc t i = CIdle \<and> co_mutex t = None \<and> co_w t = w"
proof -
  let ?cid = "ch_id (w_chans (co_w s) h)"
  let ?j = "message_job c ref ?cid profile extra"
  let ?p = "PChatsReply (chats_reply ref ?cid extra)"
  obtain t n where t: "chat_step h i s t" "co_w t = co_w s" "co_pc t i = CLocked ?j n" "co_mutex t = Some i"
    using chat_locked_run [OF assms(1,2)] by blast
  have j: "cj_reply ?j = Some ?p" "cj_conn ?j = c" by (simp_all add: message_job_def)
  show ?thesis
  proof (cases "fst (w_send c ?p (co_w s))")
    case None
    let ?u = "(chat_send n ?p c t)\<lparr>co_pc := (co_pc t)(i := CReplied ?j n)\<rparr>"
    have u: "chat_step h i t ?u" using chat_reply [OF t(3) j(1), of h] None by (simp add: j(2) t(2))
    have ws: "w_send c ?p (co_w s) = (None, send_to ?p c (co_w s))" using None by (simp add: send_to_def prod_eq_iff)
    have "Channel_Connections h (send_to ?p c (co_w s)) \<noteq> None"
    proof
      assume "Channel_Connections h (send_to ?p c (co_w s)) = None"
      then show False using ws assms(3,4) by (simp add: chats_deliver_def Let_def)
    qed
    then obtain ids ds where ds: "Channel_Connections h (send_to ?p c (co_w s)) = Some (ids, ds)" by auto
    have w: "w = send_to (PChats (chats_payload RTMSubtypeNameChatsSystem ?cid None (queued_report (cd_ID extra)))) c
        (send_all (cj_payload ?j) (filter (\<lambda>d. d \<noteq> c) ds) (send_to ?p c (co_w s)))"
      using ws assms(3) ds by (auto simp: chats_deliver_def Let_def message_job_def)
    have "\<exists>v. (chat_step h i)\<^sup>*\<^sup>* ?u v \<and> co_pc v i = CIdle \<and> co_mutex v = None \<and> co_w v = w"
      using chat_finish_run [of ?u i ?j n h ids ds, OF _ _ refl] ds w by (simp add: t(2) message_job_def)
    then show ?thesis using chat_steps1 [OF t(1) chat_steps1 [OF u]] by blast
  next
    case (Some e)
    let ?u = "(chat_send n ?p c t)\<lparr>co_pc := (co_pc t)(i := CIdle), co_mutex := None\<rparr>"
    have u: "chat_step h i t ?u" using chat_reply_failed [OF t(3) j(1), of h] Some by (simp add: j(2) t(2))
    have "w = send_to ?p c (co_w s)" using Some assms(3) by (auto simp: chats_deliver_def send_to_def Let_def split: prod.splits)
    then show ?thesis using chat_steps1 [OF t(1) chat_steps1 [OF u rtranclp.rtrancl_refl]] by (intro exI [of _ ?u]) (simp add: t(2))
  qed
qed

lemma notice_run:
  assumes "co_pc s i = CWant (notice_job env c (ch_id (w_chans (co_w s) h)) (w_users (co_w s) u) op uid)" and "co_mutex s = None"
    and "bound_user c (co_w s) = Some u" and "emitChannelChatsAddOrRemove env c h op uid (co_w s) = (HNil, w)"
  shows "\<exists>t. (chat_step h i)\<^sup>*\<^sup>* s t \<and> co_pc t i = CIdle \<and> co_mutex t = None \<and> co_w t = w"
proof -
  let ?j = "notice_job env c (ch_id (w_chans (co_w s) h)) (w_users (co_w s) u) op uid"
  obtain t n where t: "chat_step h i s t" "co_w t = co_w s" "co_pc t i = CLocked ?j n" "co_mutex t = Some i"
    using chat_locked_run [OF assms(1,2)] by blast
  let ?u = "t\<lparr>co_pc := (co_pc t)(i := CReplied ?j n)\<rparr>"
  have u: "chat_step h i t ?u" by (rule chat_noreply [OF t(3)]) (simp add: notice_job_def)
  obtain ids ds where ds: "Channel_Connections h (co_w s) = Some (ids, ds)"
      and w: "w = send_all (cj_payload ?j) (filter (\<lambda>d. d \<noteq> c) ds) (co_w s)"
    using assms(3,4) by (auto simp: emitChannelChatsAddOrRemove_def notice_job_def Let_def split: option.splits)
  have "\<exists>v. (chat_step h i)\<^sup>*\<^sup>* ?u v \<and> co_pc v i = CIdle \<and> co_mutex v = None \<and> co_w v = w"
    using chat_finish_run [of ?u i ?j n h ids ds, OF _ _ refl] ds w by (simp add: t(2) notice_job_def)
  then show ?thesis using chat_steps1 [OF t(1) chat_steps1 [OF u]] by blast
qed

section \<open>Properties\<close>

text \<open>
  C4. The chat mutex does what its comment says: in every interleaving of chat messages, join and leave
  notices, membership changes and write pumps, each connection's queue accepts the deliveries of a channel in
  the order in which they took the mutex, each at most once; so what two connections have both
  received they have received in the same order, and with the same data, the sender's own message, which
  it gets as the reply, included.
\<close>

theorem chat_order_common:
  assumes "reach (chat_init h) (chat_run_step h) s"
  shows "sorted_wrt (<) (log_nums s c) \<and>
    filter (\<lambda>n. n \<in> set (log_nums s d)) (log_nums s c) = filter (\<lambda>n. n \<in> set (log_nums s c)) (log_nums s d) \<and>
    ((n, p) \<in> set (co_log s c) \<and> (n, q) \<in> set (co_log s d) \<longrightarrow> chat_data p = chat_data q)"
proof -
  note D = chat_invD(5) [OF chats_run.reach_inv [OF assms]]
  show ?thesis
    using chats_run.reach_sorted [OF assms, of c] chats_run.common_order [OF assms, of d c] D [of n p c] D [of n q d] by auto
qed

lemma chat_run_reach: "reach (chat_init h) (chat_run_step h) s \<Longrightarrow> chat_step h i s t \<Longrightarrow> reach (chat_init h) (chat_run_step h) t"
  by (erule next_step) (auto simp: chat_run_step_def)

lemma example_chat_world_ok:
  "members_once 5 example_chat_world" "Channel_Connections 5 (send_to p 2 example_chat_world) = Some ([''bob'', ''al''], [2, Suc 0])"
  "fst (w_send 2 p example_chat_world) = None" "fst (w_send (Suc 0) p (send_to q 2 example_chat_world)) = None"
proof -
  have conn: "\<not> cn_closed (w_conns example_chat_world d)" "cn_send (w_conns example_chat_world d) = []" for d
    by (simp_all add: example_chat_world_def example_two_party_world_def example_users_world_def conn_New_def)
  show "members_once 5 example_chat_world" "Channel_Connections 5 (send_to p 2 example_chat_world) = Some ([''bob'', ''al''], [2, Suc 0])"
    by (simp_all add: members_once_def Channel_Connections_def example_chat_world_def example_channel_def)
  show "fst (w_send 2 p example_chat_world) = None" "fst (w_send (Suc 0) p (send_to q 2 example_chat_world)) = None"
    using conn by (simp_all add: w_send_def RawSend_def send_to_def upd_conn_def sendCap_def)
qed

theorem chat_order_common_witness:
  "\<exists>s p q. log_nums s 1 = [0] \<and> log_nums s 2 = [0] \<and> (0, p) \<in> set (co_log s 1) \<and> (0, q) \<in> set (co_log s 2) \<and> chat_data p = chat_data q"
proof -
  let ?s = "\<lparr>co_w = example_chat_world, co_pc = (\<lambda>_. CIdle), co_mutex = None, co_count = 0, co_data = (\<lambda>_. None), co_log = (\<lambda>_. [])\<rparr>"
  define j where "j = message_job 2 7 (ch_id (w_chans example_chat_world 5)) \<lparr>pr_Name = ''bob''\<rparr> zero_chats_message"
  obtain p where p: "cj_reply j = Some p" "cj_conn j = 2" by (simp add: j_def message_job_def)
  have "reach (chat_init 5) (chat_run_step 5) ?s" by (rule start) (simp add: chat_init_def example_chat_world_ok)
  note this [THEN chat_run_reach, OF chat_message [of _ 0 5 2 7 "\<lparr>pr_Name = ''bob''\<rparr>" zero_chats_message], simplified, folded j_def]
  note this [THEN chat_run_reach, OF chat_lock [of _ 0 j 0], simplified]
  note this [THEN chat_run_reach, OF chat_reply [of _ 0 j 0 p], simplified, simplified p, simplified example_chat_world_ok, simplified]
  note this [THEN chat_run_reach, OF chat_connections [of _ 0 j 0 5 "[''bob'', ''al'']" "[2, Suc 0]"], simplified, simplified p example_chat_world_ok, simplified]
  note this [THEN chat_run_reach, OF chat_deliver [of _ 0 j 0 "Suc 0" "[]"], simplified]
  note run = this [simplified]
  obtain s where s: "reach (chat_init 5) (chat_run_step 5) s" "co_log s 1 = [(0, cj_payload j)]" "co_log s 2 = [(0, p)]"
    by (rule that [OF run]) (simp_all add: chat_send_def example_chat_world_ok)
  from chat_order_common [OF s(1), of 1 2 0 "cj_payload j" p] s(2,3) show ?thesis
    by (intro exI [of _ s] exI [of _ "cj_payload j"] exI [of _ p]) (simp add: log_nums_def)
qed

end
