(* ===== verification/Group_Locks.thy ===== *)
theory Group_Locks
  imports Effects
begin

text \<open>
  The table of channels under interleaving (\<open>src/signaling/rtm/webrtc.go\<close>, \<open>manager.go\<close>, \<open>channel.go\<close>):
  joins of groups, calls, answers and the purge of empty channels, each divided into the operations
  between which other goroutines can run: one call on the concurrent map, or one method of a channel
  under its lock. Shown: the members of a group are always in one channel, the one the table has
  for the group, although a join can find a channel that the purge closes before the join is done.
\<close>

section \<open>States and steps\<close>

text \<open>
  The counter of a goroutine. A join has its channel from \<open>Upsert\<close> (\<open>GFound\<close>), has passed the check of the size
  (\<open>GJoin\<close>, also an answer to a call after its lookup); a call has created its channel (\<open>GCreated\<close>) and
  added the caller (\<open>GCalled\<close>). The purge, which is goroutine 0, looks at a snapshot of the table, cleans
  up what it found empty and old, and removes a channel that it has closed (\<open>GDrop\<close>).
\<close>

datatype group_pc = GIdle | GFound chan_ref string conn_ref | GJoin chan_ref string conn_ref
  | GCreated chan_ref string conn_ref | GCalled chan_ref
  | GScan time "(string \<times> channelRecord) list" "(string \<times> channelRecord) list" | GClean "(string \<times> channelRecord) list"
  | GDrop "string \<times> channelRecord" "(string \<times> channelRecord) list"

record group_sys =
  gs_w :: world
  gs_pc :: "nat \<Rightarrow> group_pc"

definition group_init :: "group_sys \<Rightarrow> bool" where
  "group_init s \<longleftrightarrow> gs_pc s = (\<lambda>_. GIdle) \<and> rm_channels (w_rtm (gs_w s)) = [] \<and>
     (\<forall>h. ch_config (w_chans (gs_w s) h) = None \<and> ch_connections (w_chans (gs_w s) h) = [])"

text \<open>The handlers, in goroutine \<open>i\<close>: a join, a call, an answer, and leaving by hangup or by the end of a connection.\<close>

inductive group_step :: "nat \<Rightarrow> group_sys \<Rightarrow> group_sys \<Rightarrow> bool" for i where
  group_upsert: "gs_pc s i = GIdle \<Longrightarrow> upsert_group_channel now (CreateNamedGroupChannelID gid) gid (gs_w s) = (h, w') \<Longrightarrow>
    group_step i s (s\<lparr>gs_w := w', gs_pc := (gs_pc s)(i := GFound h uid c)\<rparr>)"
| group_refused: "gs_pc s i = GFound h uid c \<Longrightarrow> may_not_create auth \<Longrightarrow> Channel_Size h (gs_w s) = Some 0 \<Longrightarrow>
    group_step i s (s\<lparr>gs_pc := (gs_pc s)(i := GIdle)\<rparr>)"
| group_checked: "gs_pc s i = GFound h uid c \<Longrightarrow> \<not> may_not_create auth \<or> Channel_Size h (gs_w s) = Some (Suc n) \<Longrightarrow>
    group_step i s (s\<lparr>gs_pc := (gs_pc s)(i := GJoin h uid c)\<rparr>)"
| group_add: "gs_pc s i = GJoin h uid c \<Longrightarrow> Channel_Add h uid c (gs_w s) = (r, w') \<Longrightarrow> r \<noteq> HBlocked \<Longrightarrow>
    group_step i s (s\<lparr>gs_w := w', gs_pc := (gs_pc s)(i := GIdle)\<rparr>)"
| call_create: "gs_pc s i = GIdle \<Longrightarrow> CreateRandomChannel rnd None (gs_w s) = (h, w') \<Longrightarrow>
    group_step i s (s\<lparr>gs_w := w', gs_pc := (gs_pc s)(i := GCreated h uid c)\<rparr>)"
| call_add: "gs_pc s i = GCreated h uid c \<Longrightarrow> Channel_Add h uid c (gs_w s) = (r, w') \<Longrightarrow> r \<noteq> HBlocked \<Longrightarrow>
    group_step i s (s\<lparr>gs_w := w', gs_pc := (gs_pc s)(i := (if r = HNil then GCalled h else GIdle))\<rparr>)"
| call_set: "gs_pc s i = GCalled h \<Longrightarrow>
    group_step i s (s\<lparr>gs_w := channels_SetIfAbsent (ch_id (w_chans (gs_w s) h)) \<lparr>cr_when = now, cr_channel = h\<rparr> (gs_w s),
      gs_pc := (gs_pc s)(i := GIdle)\<rparr>)"
| call_answer: "gs_pc s i = GIdle \<Longrightarrow> gm_get (rm_channels (w_rtm (gs_w s))) cid = Some rc \<Longrightarrow>
    group_step i s (s\<lparr>gs_pc := (gs_pc s)(i := GJoin (cr_channel rc) uid c)\<rparr>)"
| group_leave: "\<not> ch_locked (w_chans (gs_w s) h) \<Longrightarrow>
    group_step i s (s\<lparr>gs_w := snd (channel_remove h uid conn (gs_w s))\<rparr>)"

inductive group_purge_step :: "group_sys \<Rightarrow> group_sys \<Rightarrow> bool" where
  purge_snapshot: "gs_pc s 0 = GIdle \<Longrightarrow> group_purge_step s (s\<lparr>gs_pc := (gs_pc s)(0 := GScan deadline (rm_channels (w_rtm (gs_w s))) [])\<rparr>)"
| purge_look: "gs_pc s 0 = GScan deadline (e # es) found \<Longrightarrow> CanBeCleanedUp (cr_channel (snd e)) (gs_w s) = Some ok \<Longrightarrow>
    group_purge_step s (s\<lparr>gs_pc := (gs_pc s)(0 := GScan deadline es (if ok \<and> cr_when (snd e) < deadline then found @ [e] else found))\<rparr>)"
| purge_scanned: "gs_pc s 0 = GScan deadline [] found \<Longrightarrow> group_purge_step s (s\<lparr>gs_pc := (gs_pc s)(0 := GClean found)\<rparr>)"
| purge_cleanup: "gs_pc s 0 = GClean (e # es) \<Longrightarrow> Channel_Cleanup (cr_channel (snd e)) (gs_w s) = Some (ok, w') \<Longrightarrow>
    group_purge_step s (s\<lparr>gs_w := w', gs_pc := (gs_pc s)(0 := (if ok then GDrop e es else GClean es))\<rparr>)"
| purge_drop: "gs_pc s 0 = GDrop e es \<Longrightarrow>
    group_purge_step s (s\<lparr>gs_w := upd_rtm (\<lambda>m. m\<lparr>rm_channels := gm_del (fst e) (rm_channels m)\<rparr>) (gs_w s), gs_pc := (gs_pc s)(0 := GClean es)\<rparr>)"
| purge_done: "gs_pc s 0 = GClean [] \<Longrightarrow> group_purge_step s (s\<lparr>gs_pc := (gs_pc s)(0 := GIdle)\<rparr>)"

text \<open>Everything else leaves the channels and their table alone.\<close>

definition group_run_step :: "group_sys \<Rightarrow> group_sys \<Rightarrow> bool" where
  "group_run_step s t \<longleftrightarrow> (\<exists>i > 0. group_step i s t) \<or> group_purge_step s t \<or>
     (\<exists>w. t = s\<lparr>gs_w := w\<rparr> \<and> w_chans w = w_chans (gs_w s) \<and> rm_channels (w_rtm w) = rm_channels (w_rtm (gs_w s)) \<and>
        w_next (gs_w s) \<le> w_next w)"

section \<open>The invariant\<close>

definition tabled :: "world \<Rightarrow> chan_ref \<Rightarrow> bool" where
  "tabled w h \<longleftrightarrow> (\<exists>r. gm_get (rm_channels (w_rtm w)) (ch_id (w_chans w h)) = Some r \<and> cr_channel r = h)"

definition named_group :: "world \<Rightarrow> chan_ref \<Rightarrow> bool" where
  "named_group w h \<longleftrightarrow> (\<exists>gid. ch_id (w_chans w h) = CreateNamedGroupChannelID gid)"

text \<open>\<open>NewChannel\<close> gives every channel a configuration.\<close>

definition created :: "world \<Rightarrow> chan_ref \<Rightarrow> bool" where
  "created w h \<longleftrightarrow> ch_config (w_chans w h) \<noteq> None"

text \<open>
  No channel is closed with members; a group channel that is not in the table is closed; channels are in
  the table under their id.
\<close>

definition chans_ok :: "world \<Rightarrow> bool" where
  "chans_ok w \<longleftrightarrow> gm_wf (rm_channels (w_rtm w)) \<and>
     (\<forall>h. created w h \<longrightarrow> h < w_next w) \<and>
     (\<forall>h. \<not> created w h \<or> ch_closed (w_chans w h) \<longrightarrow> ch_connections (w_chans w h) = []) \<and>
     (\<forall>h. created w h \<and> named_group w h \<longrightarrow> ch_closed (w_chans w h) \<or> tabled w h) \<and>
     (\<forall>k r. gm_get (rm_channels (w_rtm w)) k = Some r \<longrightarrow> created w (cr_channel r) \<and> ch_id (w_chans w (cr_channel r)) = k)"

definition entries_ok :: "world \<Rightarrow> (string \<times> channelRecord) list \<Rightarrow> bool" where
  "entries_ok w es \<longleftrightarrow> distinct (map fst es) \<and> (\<forall>e \<in> set es. gm_get (rm_channels (w_rtm w)) (fst e) = Some (snd e))"

fun group_pc_ok :: "world \<Rightarrow> group_pc \<Rightarrow> bool" where
  "group_pc_ok w GIdle \<longleftrightarrow> True"
| "group_pc_ok w (GFound h uid c) \<longleftrightarrow> created w h"
| "group_pc_ok w (GJoin h uid c) \<longleftrightarrow> created w h"
| "group_pc_ok w (GCreated h uid c) \<longleftrightarrow> created w h"
| "group_pc_ok w (GCalled h) \<longleftrightarrow> created w h"
| "group_pc_ok w (GScan deadline es found) \<longleftrightarrow> entries_ok w (found @ es)"
| "group_pc_ok w (GClean es) \<longleftrightarrow> entries_ok w es"
| "group_pc_ok w (GDrop e es) \<longleftrightarrow> entries_ok w (e # es) \<and> ch_closed (w_chans w (cr_channel (snd e)))"

fun purging :: "group_pc \<Rightarrow> bool" where
  "purging (GScan deadline es found) \<longleftrightarrow> True"
| "purging (GClean es) \<longleftrightarrow> True"
| "purging (GDrop e es) \<longleftrightarrow> True"
| "purging pc \<longleftrightarrow> False"

definition group_inv :: "group_sys \<Rightarrow> bool" where
  "group_inv s \<longleftrightarrow> chans_ok (gs_w s) \<and> (\<forall>i. group_pc_ok (gs_w s) (gs_pc s i) \<and> (purging (gs_pc s i) \<longrightarrow> i = 0))"

text \<open>What a step of a handler may do to the channels and the table, as seen by the others.\<close>

definition grows :: "world \<Rightarrow> world \<Rightarrow> bool" where
  "grows w w' \<longleftrightarrow> (\<forall>k r. gm_get (rm_channels (w_rtm w)) k = Some r \<longrightarrow> gm_get (rm_channels (w_rtm w')) k = Some r) \<and>
     (\<forall>h. created w h \<longrightarrow> created w' h \<and> (ch_closed (w_chans w h) \<longrightarrow> ch_closed (w_chans w' h)))"

lemma pc_ok_grows: "grows w w' \<Longrightarrow> chans_ok w \<Longrightarrow> group_pc_ok w pc \<Longrightarrow> group_pc_ok w' pc"
  by (cases pc) (fastforce simp: grows_def entries_ok_def chans_ok_def)+

lemma group_inv_stepI:
  assumes "group_inv s" and "gs_pc t = (gs_pc s)(i := pc1)" and "grows (gs_w s) (gs_w t)" and "chans_ok (gs_w t)"
    and "group_pc_ok (gs_w t) pc1" and "purging pc1 \<longrightarrow> i = 0"
  shows "group_inv t"
  using assms pc_ok_grows [OF assms(3)] by (auto simp: group_inv_def)

lemma group_invD:
  assumes "group_inv s"
  shows "chans_ok (gs_w s)" and "group_pc_ok (gs_w s) (gs_pc s i)" and "purging (gs_pc s i) \<Longrightarrow> i = 0"
  using assms by (auto simp: group_inv_def)

lemma grows_refl [simp]: "grows w w"
  by (simp add: grows_def)

subsection \<open>The operations\<close>

lemma chans_okD:
  assumes "chans_ok w"
  shows "gm_wf (rm_channels (w_rtm w))" and "created w h \<Longrightarrow> h < w_next w"
    and "\<not> created w h \<or> ch_closed (w_chans w h) \<Longrightarrow> ch_connections (w_chans w h) = []"
    and "created w h \<Longrightarrow> named_group w h \<Longrightarrow> ch_closed (w_chans w h) \<or> tabled w h"
    and "gm_get (rm_channels (w_rtm w)) k = Some r \<Longrightarrow> created w (cr_channel r) \<and> ch_id (w_chans w (cr_channel r)) = k"
  using assms by (auto simp: chans_ok_def)

text \<open>A change of one channel.\<close>

lemma chan_change:
  assumes "chans_ok w" and "w_chans w' = (w_chans w)(h := ch)" and "w_rtm w' = w_rtm w" and "w_next w' = w_next w"
    and "ch_id ch = ch_id (w_chans w h)" and "ch_config ch = ch_config (w_chans w h)"
    and "ch_closed (w_chans w h) \<Longrightarrow> ch_closed ch" and "ch_closed ch \<or> \<not> created w h \<Longrightarrow> ch_connections ch = []"
  shows "chans_ok w'" and "grows w w'"
proof -
  have id: "ch_id (w_chans w' g) = ch_id (w_chans w g)" for g by (simp add: assms(2,5))
  then have eq: "tabled w' = tabled w" "named_group w' = named_group w" "created w' = created w"
    by (simp_all add: tabled_def named_group_def created_def fun_eq_iff assms(2,3,6))
  show "grows w w'" using assms(7) by (simp add: grows_def eq assms(2,3))
  show "chans_ok w'"
    using chans_okD [OF assms(1)] assms(7,8) id unfolding chans_ok_def eq by (auto simp: assms(2-4))
qed

text \<open>A new channel; one that is not a group channel may stay out of the table.\<close>

lemma NewChannel_chans:
  assumes "chans_ok w" and "NewChannel cid cfg w = (h, w')"
  shows "grows w w'" and "created w' h" and "(\<nexists>gid. cid = CreateNamedGroupChannelID gid) \<Longrightarrow> chans_ok w'"
    and "gm_get (rm_channels (w_rtm w)) cid = None \<Longrightarrow>
      chans_ok (upd_rtm (\<lambda>m. m\<lparr>rm_channels := gm_set cid \<lparr>cr_when = now, cr_channel = h\<rparr> (rm_channels m)\<rparr>) w')"
proof -
  note N = NewChannel_result [OF assms(2)] and D = chans_okD [OF assms(1)]
  have new: "\<not> created w h" using D(2) [of h] N(1) by auto
  have old: "g \<noteq> h \<Longrightarrow> w_chans w' g = w_chans w g" for g by (rule N(9))
  have created: "created w' g \<longleftrightarrow> g = h \<or> created w g" for g
    using N(5) old [of g] by (cases "g = h") (auto simp: created_def)
  have keep: "created w g \<Longrightarrow> w_chans w' g = w_chans w g" for g using old [of g] new by (cases "g = h") auto
  show "grows w w'" "created w' h" by (auto simp: grows_def created keep N(3))
  have named: "named_group w' g \<longleftrightarrow> (if g = h then \<exists>gid. cid = CreateNamedGroupChannelID gid else named_group w g)" for g
    using N(4) old [of g] by (simp add: named_group_def)
  have group: "ch_closed (w_chans w' g) \<or> tabled w' g" if "created w' g" "named_group w' g" "g \<noteq> h" for g
    using D(4) [of g] that old [of g] by (simp add: created named tabled_def N(3))
  have below: "g < w_next w'" if "created w' g" for g using that D(2) [of g] N(1,2) by (auto simp: created)
  have empty: "ch_connections (w_chans w' g) = []" if "\<not> created w' g \<or> ch_closed (w_chans w' g)" for g
    using that D(3) [of g] N(6) old [of g] by (cases "g = h") (auto simp: created)
  have tab: "created w' (cr_channel r) \<and> ch_id (w_chans w' (cr_channel r)) = k" if "gm_get (rm_channels (w_rtm w)) k = Some r" for k r
    using D(5) [OF that] keep by (simp add: created)
  show "chans_ok w'" if "\<nexists>gid. cid = CreateNamedGroupChannelID gid"
    unfolding chans_ok_def N(3)
  proof (intro conjI allI impI)
    show "ch_closed (w_chans w' g) \<or> tabled w' g" if "created w' g \<and> named_group w' g" for g
      using group [of g] that named [of g] \<open>\<nexists>gid. cid = CreateNamedGroupChannelID gid\<close> by (cases "g = h") auto
  qed (use D(1) below empty tab in auto)
  let ?t = "upd_rtm (\<lambda>m. m\<lparr>rm_channels := gm_set cid \<lparr>cr_when = now, cr_channel = h\<rparr> (rm_channels m)\<rparr>) w'"
  have eq: "created ?t = created w'" "named_group ?t = named_group w'" by (simp_all add: created_def named_group_def fun_eq_iff)
  show "chans_ok ?t" if none: "gm_get (rm_channels (w_rtm w)) cid = None"
    unfolding chans_ok_def eq
  proof (intro conjI allI impI)
    show "ch_closed (w_chans ?t g) \<or> tabled ?t g" if "created w' g \<and> named_group w' g" for g
    proof (cases "g = h")
      case False
      then show ?thesis using group [of g] that none by (auto simp: tabled_def N(3))
    qed (simp add: tabled_def N(4))
    show "created w' (cr_channel r)" "ch_id (w_chans ?t (cr_channel r)) = k" if "gm_get (rm_channels (w_rtm ?t)) k = Some r" for k r
      using that tab [of k r] N(3,4) by (auto simp: created split: if_splits)
  qed (use D(1) below empty N(3) in auto)
qed

lemma upsert_chans:
  assumes "chans_ok w" and "upsert_group_channel now cid gid w = (h, w')"
  shows "chans_ok w' \<and> grows w w' \<and> created w' h"
proof (cases "gm_get (rm_channels (w_rtm w)) cid")
  case None
  obtain g w1 where new: "NewChannel cid (Some (group_channel_config gid)) w = (g, w1)" by (cases "NewChannel cid (Some (group_channel_config gid)) w")
  let ?t = "upd_rtm (\<lambda>m. m\<lparr>rm_channels := gm_set cid \<lparr>cr_when = now, cr_channel = g\<rparr> (rm_channels m)\<rparr>) w1"
  have t: "h = g" "w' = ?t" using assms(2) None new by (auto simp: upsert_group_channel_def CreateKnownChannel_def)
  note N = NewChannel_chans [OF assms(1) new]
  have "grows w ?t" using N(1) None by (auto simp: grows_def created_def)
  then show ?thesis using N(2) N(4) [OF None, of now] by (simp add: t created_def)
next
  case (Some r)
  then show ?thesis using assms chans_okD(5) [OF assms(1) Some] by (simp add: upsert_group_channel_def)
qed

lemma random_chans:
  assumes "chans_ok w" and "CreateRandomChannel rnd None w = (h, w')"
  shows "chans_ok w' \<and> grows w w' \<and> created w' h"
proof -
  have "\<nexists>gid. ChannelPrefixStandard @ rnd = CreateNamedGroupChannelID gid"
    by (simp add: ChannelPrefixStandard_def CreateNamedGroupChannelID_def ChannelPrefixNamedGroup_def)
  then show ?thesis using NewChannel_chans [OF assms(1) assms(2) [unfolded CreateRandomChannel_def]] by simp
qed

lemma Channel_Add_chans:
  assumes "chans_ok w" and "created w h" and "Channel_Add h uid c w = (r, w')"
  shows "chans_ok w' \<and> grows w w'"
proof -
  let ?ch = "w_chans w h"
  have same: "w_chans (onGroupReplace h uid d c w) = w_chans w" for d by simp
  have "w' = w \<or> (w_chans w' = (w_chans w)(h := ?ch\<lparr>ch_locked := True\<rparr>) \<or>
      \<not> ch_closed ?ch \<and> w_chans w' = (w_chans w)(h := ?ch\<lparr>ch_connections := gm_set uid c (ch_connections ?ch)\<rparr>)) \<and>
      w_rtm w' = w_rtm w \<and> w_next w' = w_next w"
    using assms(3) by (auto simp: Channel_Add_def Let_def channel_store_chans upd_chan_def split: if_splits option.splits)
  then show ?thesis
    using chan_change [OF assms(1), of w' h "?ch\<lparr>ch_locked := True\<rparr>"] chans_okD(3) [OF assms(1), of h]
      chan_change [OF assms(1), of w' h "?ch\<lparr>ch_connections := gm_set uid c (ch_connections ?ch)\<rparr>"] assms(1,2) by auto
qed

lemma remove_chans_ok:
  assumes "chans_ok w"
  shows "chans_ok (snd (channel_remove h uid conn w)) \<and> grows w (snd (channel_remove h uid conn w))"
proof -
  let ?ch = "w_chans w h" and ?w = "snd (channel_remove h uid conn w)"
  have "?w = w \<or> w_chans ?w = (w_chans w)(h := ?ch\<lparr>ch_connections := gm_del uid (ch_connections ?ch)\<rparr>) \<and> w_rtm ?w = w_rtm w \<and> w_next ?w = w_next w"
    by (auto simp: channel_remove_def Let_def upd_chan_def split: option.splits)
  moreover have "gm_del uid (ch_connections ?ch) = []" if "ch_closed ?ch \<or> \<not> created w h"
    using chans_okD(3) [OF assms, of h] that by auto
  ultimately show ?thesis
    using chan_change [OF assms, of ?w h "?ch\<lparr>ch_connections := gm_del uid (ch_connections ?ch)\<rparr>"] assms by auto
qed

lemma SetIfAbsent_chans:
  assumes "chans_ok w" and "created w h"
  shows "chans_ok (channels_SetIfAbsent (ch_id (w_chans w h)) \<lparr>cr_when = now, cr_channel = h\<rparr> w) \<and>
    grows w (channels_SetIfAbsent (ch_id (w_chans w h)) \<lparr>cr_when = now, cr_channel = h\<rparr> w)"
proof (cases "gm_get (rm_channels (w_rtm w)) (ch_id (w_chans w h))")
  case None
  let ?t = "upd_rtm (\<lambda>m. m\<lparr>rm_channels := gm_set (ch_id (w_chans w h)) \<lparr>cr_when = now, cr_channel = h\<rparr> (rm_channels m)\<rparr>) w"
  have eq: "created ?t = created w" "named_group ?t = named_group w" by (simp_all add: created_def named_group_def fun_eq_iff)
  note D = chans_okD [OF assms(1)]
  have tab: "tabled w g \<Longrightarrow> tabled ?t g" for g using None by (auto simp: tabled_def)
  have "chans_ok ?t"
    unfolding chans_ok_def eq
  proof (intro conjI allI impI)
    show "ch_closed (w_chans ?t g) \<or> tabled ?t g" if "created w g \<and> named_group w g" for g
      using D(4) [of g] tab [of g] that by auto
    show "created w (cr_channel r)" "ch_id (w_chans ?t (cr_channel r)) = k" if "gm_get (rm_channels (w_rtm ?t)) k = Some r" for k r
      using that D(5) [of k r] assms(2) by (auto split: if_splits)
  qed (use D(1-3) in auto)
  moreover have "grows w ?t" using None by (auto simp: grows_def eq)
  ultimately show ?thesis using None by (simp add: channels_SetIfAbsent_def)
qed (use assms(1) in \<open>simp add: channels_SetIfAbsent_def\<close>)

lemma Cleanup_chans:
  assumes "chans_ok w" and "created w h" and "Channel_Cleanup h w = Some (ok, w')"
  shows "chans_ok w' \<and> grows w w' \<and> (ok \<longrightarrow> ch_closed (w_chans w' h))"
proof -
  let ?ch = "w_chans w h"
  have "\<not> ok \<and> w' = w \<or> ok \<and> ch_connections ?ch = [] \<and>
      w_chans w' = (w_chans w)(h := ?ch\<lparr>ch_closed := True, ch_pipeline := None\<rparr>) \<and> w_rtm w' = w_rtm w \<and> w_next w' = w_next w"
    using assms(2,3) by (auto simp: Channel_Cleanup_def Let_def canBeCleanedUp_def created_def upd_chan_def split: if_splits option.splits)
  then show ?thesis
    using chan_change [OF assms(1), of w' h "?ch\<lparr>ch_closed := True, ch_pipeline := None\<rparr>"] assms(1) by auto
qed

text \<open>The purge removes from the table what it has closed.\<close>

lemma drop_chans:
  assumes "chans_ok w" and "entries_ok w (e # es)" and "ch_closed (w_chans w (cr_channel (snd e)))"
    and "w' = upd_rtm (\<lambda>m. m\<lparr>rm_channels := gm_del (fst e) (rm_channels m)\<rparr>) w"
  shows "chans_ok w'" and "entries_ok w' es"
proof -
  note D = chans_okD [OF assms(1)]
  have e: "gm_get (rm_channels (w_rtm w)) (fst e) = Some (snd e)" using assms(2) by (simp add: entries_ok_def)
  have eq: "created w' = created w" "named_group w' = named_group w" by (simp_all add: assms(4) created_def named_group_def fun_eq_iff)
  show "entries_ok w' es" using assms(2) by (auto simp: entries_ok_def assms(4) image_iff)
  show "chans_ok w'"
    unfolding chans_ok_def eq
  proof (intro conjI allI impI)
    show "ch_closed (w_chans w' g) \<or> tabled w' g" if "created w g \<and> named_group w g" for g
      using D(4) [of g] that e assms(3) by (auto simp: tabled_def assms(4))
    show "created w (cr_channel r)" "ch_id (w_chans w' (cr_channel r)) = k" if "gm_get (rm_channels (w_rtm w')) k = Some r" for k r
      using that D(5) [of k r] by (auto simp: assms(4) split: if_splits)
  qed (use D(1-3) in \<open>auto simp: assms(4)\<close>)
qed

lemma purge_other_pcs:
  assumes "\<not> purging pc" and "w_chans w' = w_chans w" and "group_pc_ok w pc"
  shows "group_pc_ok w' pc"
  using assms by (cases pc) (simp_all add: created_def)

subsection \<open>The steps\<close>

lemma group_inv_step:
  assumes "group_step i s t" and "group_inv s"
  shows "group_inv t"
  using assms
proof (induction rule: group_step.induct)
  case (group_upsert s now gid h w' uid c)
  show ?case
    by (rule group_inv_stepI [OF group_upsert(3), where i = i and ?pc1.0 = "GFound h uid c"])
      (use upsert_chans [OF group_invD(1) [OF group_upsert(3)] group_upsert(2)] in simp_all)
next
  case (group_refused s h uid c auth)
  show ?case by (rule group_inv_stepI [OF group_refused(4), where i = i and ?pc1.0 = "GIdle"]) (use group_invD(1) [OF group_refused(4)] in simp_all)
next
  case (group_checked s h uid c auth n)
  show ?case
    by (rule group_inv_stepI [OF group_checked(3), where i = i and ?pc1.0 = "GJoin h uid c"])
      (use group_checked(1) group_invD(1) [OF group_checked(3)] group_invD(2) [OF group_checked(3), of i] in simp_all)
next
  case (group_add s h uid c r w')
  have "created (gs_w s) h" using group_invD(2) [OF group_add(4), of i] group_add(1) by simp
  from Channel_Add_chans [OF group_invD(1) [OF group_add(4)] this group_add(2)] show ?case
    by (intro group_inv_stepI [OF group_add(4), where i = i and ?pc1.0 = "GIdle"]) simp_all
next
  case (call_create s rnd h w' uid c)
  show ?case
    by (rule group_inv_stepI [OF call_create(3), where i = i and ?pc1.0 = "GCreated h uid c"])
      (use random_chans [OF group_invD(1) [OF call_create(3)] call_create(2)] in simp_all)
next
  case (call_add s h uid c r w')
  have h: "created (gs_w s) h" using group_invD(2) [OF call_add(4), of i] call_add(1) by simp
  from Channel_Add_chans [OF group_invD(1) [OF call_add(4)] h call_add(2)] h show ?case
    by (intro group_inv_stepI [OF call_add(4), where i = i and ?pc1.0 = "if r = HNil then GCalled h else GIdle"]) (auto simp: grows_def)
next
  case (call_set s h now)
  have "created (gs_w s) h" using group_invD(2) [OF call_set(2), of i] call_set(1) by simp
  from SetIfAbsent_chans [OF group_invD(1) [OF call_set(2)] this] show ?case
    by (intro group_inv_stepI [OF call_set(2), where i = i and ?pc1.0 = "GIdle"]) simp_all
next
  case (call_answer s cid rc uid c)
  show ?case
    by (rule group_inv_stepI [OF call_answer(3), where i = i and ?pc1.0 = "GJoin (cr_channel rc) uid c"])
      (use group_invD(1) [OF call_answer(3)] chans_okD(5) [OF group_invD(1) [OF call_answer(3)] call_answer(2)] in simp_all)
next
  case (group_leave s h uid conn)
  from remove_chans_ok [OF group_invD(1) [OF group_leave(2)], of h uid conn] show ?case
    by (intro group_inv_stepI [OF group_leave(2), where i = i and ?pc1.0 = "gs_pc s i"])
      (use group_invD [OF group_leave(2)] pc_ok_grows in auto)
qed

lemma group_purge_inv_step:
  assumes "group_purge_step s t" and "group_inv s"
  shows "group_inv t"
  using assms
proof (induction rule: group_purge_step.induct)
  case (purge_snapshot s deadline)
  note D = chans_okD [OF group_invD(1) [OF purge_snapshot(2)]]
  have "entries_ok (gs_w s) (rm_channels (w_rtm (gs_w s)))"
    using D(1) gm_get_in_set [OF D(1)] by (auto simp: entries_ok_def gm_wf_def)
  then show ?case
    by (intro group_inv_stepI [OF purge_snapshot(2), where i = 0 and ?pc1.0 = "GScan deadline (rm_channels (w_rtm (gs_w s))) []"]) (use group_invD(1) [OF purge_snapshot(2)] in simp_all)
next
  case (purge_look s deadline e es found ok)
  show ?case
    by (rule group_inv_stepI [OF purge_look(3), where i = 0 and ?pc1.0 = "GScan deadline es (if ok \<and> cr_when (snd e) < deadline then found @ [e] else found)"])
      (use purge_look(1) group_invD(1) [OF purge_look(3)] group_invD(2) [OF purge_look(3), of 0] in \<open>auto simp: entries_ok_def\<close>)
next
  case (purge_scanned s deadline found)
  show ?case
    by (rule group_inv_stepI [OF purge_scanned(2), where i = 0 and ?pc1.0 = "GClean found"])
      (use purge_scanned(1) group_invD(1) [OF purge_scanned(2)] group_invD(2) [OF purge_scanned(2), of 0] in simp_all)
next
  case (purge_cleanup s e es ok w')
  note I = group_invD(1) [OF purge_cleanup(3)]
  have es: "entries_ok (gs_w s) (e # es)" using group_invD(2) [OF purge_cleanup(3), of 0] purge_cleanup(1) by simp
  then have "created (gs_w s) (cr_channel (snd e))" using chans_okD(5) [OF I, of "fst e" "snd e"] by (simp add: entries_ok_def)
  from Cleanup_chans [OF I this purge_cleanup(2)] es show ?case
    by (intro group_inv_stepI [OF purge_cleanup(3), where i = 0 and ?pc1.0 = "if ok then GDrop e es else GClean es"]) (auto simp: entries_ok_def grows_def)
next
  case (purge_drop s e es)
  let ?w = "upd_rtm (\<lambda>m. m\<lparr>rm_channels := gm_del (fst e) (rm_channels m)\<rparr>) (gs_w s)"
  have "entries_ok (gs_w s) (e # es)" "ch_closed (w_chans (gs_w s) (cr_channel (snd e)))"
    using group_invD(2) [OF purge_drop(2), of 0] purge_drop(1) by simp_all
  note R = drop_chans [OF group_invD(1) [OF purge_drop(2)] this refl]
  have "group_pc_ok ?w (gs_pc s j)" if "j \<noteq> 0" for j
    by (rule purge_other_pcs [where w = "gs_w s"]) (use that group_invD(2,3) [OF purge_drop(2), of j] in auto)
  then show ?case using R group_invD(3) [OF purge_drop(2)] by (auto simp: group_inv_def)
next
  case (purge_done s)
  show ?case by (rule group_inv_stepI [OF purge_done(2), where i = 0 and ?pc1.0 = "GIdle"]) (use group_invD(1) [OF purge_done(2)] in simp_all)
qed

lemma group_run_inv_step:
  assumes "group_inv s" and "group_run_step s t"
  shows "group_inv t"
proof -
  have "group_inv (s\<lparr>gs_w := w\<rparr>)" if "w_chans w = w_chans (gs_w s)" "rm_channels (w_rtm w) = rm_channels (w_rtm (gs_w s))" "w_next (gs_w s) \<le> w_next w" for w
  proof (rule group_inv_stepI [OF assms(1), where i = 0 and ?pc1.0 = "gs_pc s 0"])
    have eq: "created w = created (gs_w s)" "named_group w = named_group (gs_w s)" "tabled w = tabled (gs_w s)"
      by (simp_all add: created_def named_group_def tabled_def fun_eq_iff that)
    show grows: "grows (gs_w s) (gs_w (s\<lparr>gs_w := w\<rparr>))" by (simp add: grows_def eq that)
    show "chans_ok (gs_w (s\<lparr>gs_w := w\<rparr>))"
      using group_invD(1) [OF assms(1)] that(3) unfolding chans_ok_def by (auto simp: eq that(1,2) dest: order.strict_trans2)
    show "group_pc_ok (gs_w (s\<lparr>gs_w := w\<rparr>)) (gs_pc s 0)"
      by (rule pc_ok_grows [OF grows]) (use group_invD [OF assms(1)] in simp_all)
  qed simp_all
  then show ?thesis using assms group_inv_step group_purge_inv_step by (auto simp: group_run_step_def)
qed

interpretation groups_run: invariant_system group_init group_run_step group_inv
proof
  show "group_inv s" if "group_init s" for s
    using that by (simp add: group_init_def group_inv_def chans_ok_def created_def gm_wf_def)
  show "group_inv t" if "group_inv s" "group_run_step s t" for s t using that by (rule group_run_inv_step)
qed

section \<open>Properties\<close>

text \<open>
  C12. In every interleaving of joins, calls, answers, departures and the purge, a channel of a group that has
  members is the channel the table has for the group, and it is not closed; so all members of a group
  are in one channel, and who joins next finds it.
\<close>

theorem group_has_one_channel:
  assumes "reach group_init group_run_step s" and "ch_id (w_chans (gs_w s) h) = CreateNamedGroupChannelID gid"
    and "ch_connections (w_chans (gs_w s) h) \<noteq> []"
  shows "\<exists>r. gm_get (rm_channels (w_rtm (gs_w s))) (CreateNamedGroupChannelID gid) = Some r \<and> cr_channel r = h \<and>
    \<not> ch_closed (w_chans (gs_w s) h) \<and> fst (upsert_group_channel now (CreateNamedGroupChannelID gid) gid (gs_w s)) = h"
proof -
  note D = chans_okD [OF group_invD(1) [OF groups_run.reach_inv [OF assms(1)]]]
  have "created (gs_w s) h" "\<not> ch_closed (w_chans (gs_w s) h)" using D(3) [of h] assms(3) by auto
  moreover have "named_group (gs_w s) h" using assms(2) by (auto simp: named_group_def)
  ultimately show ?thesis using D(4) [of h] assms(2) by (auto simp: tabled_def upsert_group_channel_def)
qed

lemma group_reach:
  "reach group_init group_run_step s \<Longrightarrow> 0 < i \<Longrightarrow> group_step i s t \<Longrightarrow> reach group_init group_run_step t"
  "reach group_init group_run_step s \<Longrightarrow> group_purge_step s t \<Longrightarrow> reach group_init group_run_step t"
  by (erule next_step, auto simp: group_run_step_def)+

text \<open>A group channel that was just created, and the purge of it.\<close>

lemma fresh_group:
  obtains h w where "upsert_group_channel 0 (CreateNamedGroupChannelID gid) gid example_world = (h, w)"
    and "ch_id (w_chans w h) = CreateNamedGroupChannelID gid" and "ch_connections (w_chans w h) = []"
    and "\<not> ch_closed (w_chans w h)" and "\<not> ch_locked (w_chans w h)" and "ch_config (w_chans w h) \<noteq> None"
    and "rm_channels (w_rtm w) = [(CreateNamedGroupChannelID gid, \<lparr>cr_when = 0, cr_channel = h\<rparr>)]"
proof -
  obtain h w1 where new: "NewChannel (CreateNamedGroupChannelID gid) (Some (group_channel_config gid)) example_world = (h, w1)"
    by (cases "NewChannel (CreateNamedGroupChannelID gid) (Some (group_channel_config gid)) example_world")
  note N = NewChannel_result [OF new]
  have empty: "rm_channels (w_rtm example_world) = []" by (simp add: example_world_defs)
  show thesis
    by (rule that [of h "upd_rtm (\<lambda>m. m\<lparr>rm_channels := gm_set (CreateNamedGroupChannelID gid) \<lparr>cr_when = 0, cr_channel = h\<rparr> (rm_channels m)\<rparr>) w1"])
      (use N new empty in \<open>simp_all add: upsert_group_channel_def CreateKnownChannel_def\<close>)
qed

lemma group_start: "reach group_init group_run_step \<lparr>gs_w = example_world, gs_pc = (\<lambda>_. GIdle)\<rparr>"
  by (rule start) (simp add: group_init_def example_world_defs)

theorem group_has_one_channel_witness:
  "\<exists>(s :: group_sys) h. ch_connections (w_chans (gs_w s) h) = [(''bob'', 1)] \<and>
     (\<exists>r. gm_get (rm_channels (w_rtm (gs_w s))) (CreateNamedGroupChannelID ''g'') = Some r \<and> cr_channel r = h)"
proof -
  obtain h w where g: "upsert_group_channel 0 (CreateNamedGroupChannelID ''g'') ''g'' example_world = (h, w)"
      "ch_id (w_chans w h) = CreateNamedGroupChannelID ''g''" "ch_connections (w_chans w h) = []" "\<not> ch_closed (w_chans w h)" "\<not> ch_locked (w_chans w h)"
    by (rule fresh_group)
  obtain w' where add: "Channel_Add h ''bob'' 1 w = (HNil, w')" "ch_connections (w_chans w' h) = [(''bob'', 1)]" "ch_id (w_chans w' h) = CreateNamedGroupChannelID ''g''"
    using g(2-5) by (simp add: Channel_Add_def Let_def channel_store_chans)
  let ?s0 = "\<lparr>gs_w = example_world, gs_pc = (\<lambda>_. GIdle)\<rparr>" and ?s1 = "\<lparr>gs_w = w, gs_pc = (\<lambda>_. GIdle)(1 := GFound h ''bob'' 1)\<rparr>"
  let ?s2 = "\<lparr>gs_w = w, gs_pc = (\<lambda>_. GIdle)(1 := GJoin h ''bob'' 1)\<rparr>" and ?s3 = "\<lparr>gs_w = w', gs_pc = (\<lambda>_. GIdle)\<rparr>"
  have "group_step 1 ?s0 ?s1" using group_upsert [of ?s0 1 0 "''g''" h w "''bob''" 1] g(1) by simp
  moreover have "group_step 1 ?s1 ?s2" using group_checked [of ?s1 1 h "''bob''" 1 None 0] by (simp add: may_not_create_def)
  moreover have "group_step 1 ?s2 ?s3" using group_add [of ?s2 1 h "''bob''" 1 HNil w'] add(1) by (simp add: fun_upd_idem)
  ultimately have "reach group_init group_run_step ?s3" using group_reach(1) group_start by (meson zero_less_one)
  from group_has_one_channel [OF this, of h "''g''" 0] add(2,3) show ?thesis by (intro exI [of _ ?s3] exI [of _ h]) auto
qed

text \<open>
  A join may lose to the purge: it finds the channel, which is empty and old, the purge closes the channel,
  and the join ends with an error instead of a new channel.
\<close>

lemma join_loses_to_purge:
  "\<exists>s h. reach group_init group_run_step s \<and> gs_pc s 1 = GJoin h ''bob'' 1 \<and>
     Channel_Add h ''bob'' 1 (gs_w s) = (HErr (GoErr ''channel is closed''), gs_w s)"
proof -
  obtain h w where g: "upsert_group_channel 0 (CreateNamedGroupChannelID ''g'') ''g'' example_world = (h, w)"
      "ch_connections (w_chans w h) = []" "\<not> ch_locked (w_chans w h)" "ch_config (w_chans w h) \<noteq> None"
      "rm_channels (w_rtm w) = [(CreateNamedGroupChannelID ''g'', \<lparr>cr_when = 0, cr_channel = h\<rparr>)]"
    by (rule fresh_group)
  let ?e = "(CreateNamedGroupChannelID ''g'', \<lparr>cr_when = 0, cr_channel = h\<rparr>)"
  obtain w' where w': "Channel_Cleanup h w = Some (True, w')" "ch_closed (w_chans w' h)" "\<not> ch_locked (w_chans w' h)"
    using g(2-4) by (auto simp: Channel_Cleanup_def canBeCleanedUp_def Let_def split: option.splits)
  obtain auth where auth: "may_not_create auth"
    by (rule that [of "Some (undefined\<lparr>at_CanCreateChannels := False\<rparr>)"]) (simp add: may_not_create_def)
  let ?st = "\<lambda>p0 p1. \<lparr>gs_w = w, gs_pc = (\<lambda>_. GIdle)(0 := p0, 1 := p1)\<rparr>"
  let ?s0 = "\<lparr>gs_w = example_world, gs_pc = (\<lambda>_. GIdle)\<rparr>"
  have "reach group_init group_run_step (?st GIdle (GFound h ''al'' 2))"
    using group_reach(1) [OF group_start _ group_upsert [of ?s0 1 0 "''g''" h w "''al''" 2]] g(1) by (simp add: fun_upd_idem)
  note group_reach(1) [OF this _ group_refused [of _ 1 h "''al''" 2 auth]]
  then have "reach group_init group_run_step (?st GIdle GIdle)" using auth g(2,3) by (simp add: Channel_Size_def)
  from group_reach(2) [OF this purge_snapshot [of _ 1]] have "reach group_init group_run_step (?st (GScan 1 [?e] []) GIdle)"
    by (simp add: g(5) fun_upd_twist)
  from group_reach(2) [OF this purge_look [of _ 1 ?e "[]" "[]" True]] have "reach group_init group_run_step (?st (GScan 1 [] [?e]) GIdle)"
    using g(2-4) by (simp add: CanBeCleanedUp_def canBeCleanedUp_def fun_upd_twist)
  from group_reach(2) [OF this purge_scanned [of _ 1 "[?e]"]] have "reach group_init group_run_step (?st (GClean [?e]) GIdle)"
    by (simp add: fun_upd_twist)
  from group_reach(1) [OF this _ group_upsert [of _ 1 9 "''g''" h w "''bob''" 1]]
  have "reach group_init group_run_step (?st (GClean [?e]) (GFound h ''bob'' 1))"
    by (simp add: upsert_group_channel_def g(5))
  from group_reach(1) [OF this _ group_checked [of _ 1 h "''bob''" 1 None 0]]
  have "reach group_init group_run_step (?st (GClean [?e]) (GJoin h ''bob'' 1))" by (simp add: may_not_create_def)
  from group_reach(2) [OF this purge_cleanup [of _ ?e "[]" True w']]
  have "reach group_init group_run_step \<lparr>gs_w = w', gs_pc = (\<lambda>_. GIdle)(0 := GDrop ?e [], 1 := GJoin h ''bob'' 1)\<rparr>"
    using w'(1) by (simp add: fun_upd_twist)
  then show ?thesis using w'(2,3)
    by - (rule exI [of _ "\<lparr>gs_w = w', gs_pc = (\<lambda>_. GIdle)(0 := GDrop ?e [], 1 := GJoin h ''bob'' 1)\<rparr>"], rule exI [of _ h],
      simp add: Channel_Add_def)
qed

end
