(* ===== verification/Spec2Isabelle.thy ===== *)
theory Spec2Isabelle
  imports Process Requests Mcu_Runs User_Locks Write_Pump Chat_Order Group_Locks
begin

text \<open>
  Verification development of kwmserver, the Kopano Web Meetings signalling server (Go).

  \<^bold>\<open>The program.\<close> Clients authenticate over HTTP and get a connect key, with which they open a websocket
  (\<open>src/signaling/rtm/http.go\<close>, \<open>handlers.go\<close>). Over the websocket they call each other, join groups
  and send chat messages (\<open>webrtc.go\<close>, \<open>channel.go\<close>, \<open>group.go\<close>, \<open>chats.go\<close>); the RTM manager keeps the
  tables of keys, users, connections and channels and purges them (\<open>manager.go\<close>, \<open>events.go\<close>). A channel
  may be routed through a pipeline to an MCU, which connects with a websocket of its own
  (\<open>src/signaling/mcu\<close>). The admin and guest managers issue and check tokens (\<open>src/signaling/admin\<close>,
  \<open>src/signaling/guest\<close>, \<open>src/clients\<close>), \<open>src/turn\<close> produces TURN credentials, and \<open>src/cmd\<close>,
  \<open>src/config\<close> and \<open>src/signaling/server\<close> start and stop everything; the supported build checks a
  licence while the server runs.

  \<^bold>\<open>Theories.\<close>
  \<^item> \<open>Prelude\<close>: Go maps as association lists, tables as locales (\<open>kv_table\<close>, \<open>expiring_table\<close>),
    reachability and \<open>invariant_system\<close>, strings, integers.
  \<^item> \<open>Json\<close>, \<open>Base64\<close>, \<open>Http\<close>: JSON values and decoding into structs, base64, requests and responses.
  \<^item> \<open>Api\<close>: the payload types of \<open>src/signaling/api-v1\<close> with their JSON forms.
  \<^item> \<open>Connection\<close>: \<open>src/signaling/connection\<close>; the bounded send queue, close with its callbacks,
    transactions, pings and pongs, and \<open>RawSend\<close> against \<open>Close\<close> at the level of single lock operations.
  \<^item> \<open>Turn\<close>, \<open>Clients\<close>, \<open>Admin\<close>, \<open>Guest\<close>: the packages of the same names.
  \<^item> \<open>Rtm_State\<close>: the record \<open>world\<close>: managers, and stores for the objects that are shared by pointer.
  \<^item> \<open>Mcu\<close>, \<open>Channel\<close>, \<open>Rtm_Manager\<close>, \<open>Webrtc\<close>, \<open>Chats\<close>, \<open>Events\<close>, \<open>Mcu_Pipeline\<close>, \<open>Rtm_Http\<close>: the operations
    of \<open>src/signaling/rtm\<close> and \<open>src/signaling/mcu\<close>, one definition per Go function or branch of a switch.
  \<^item> \<open>User_Locks\<close>: \<open>OnConnect\<close>, \<open>OnDisconnect\<close> and \<open>purgeInactiveUsers\<close> as lock operations of many goroutines.
  \<^item> \<open>Chat_Order\<close>: deliveries of chat messages and notices to one channel, one \<open>RawSend\<close> at a time.
  \<^item> \<open>Group_Locks\<close>: joins, calls and the channel purge, divided at their locks.
  \<^item> \<open>Write_Pump\<close>: \<open>writePump\<close> of a client's connection from its start to its return.
  \<^item> \<open>Effects\<close>: every WebRTC message decomposed once into elementary effects that its checks allow.
  \<^item> \<open>System\<close>, \<open>Rooms\<close>, \<open>Steps\<close>, \<open>Mcu_Inv\<close>, \<open>Mcu_Steps\<close>, \<open>Running\<close>: the RTM server with its MCU manager as a
    transition system, its invariant (users, keys and connections; members of channels; the channel table;
    pipelines, attach records and the connections of the MCU), and what holds in every reachable state.
  \<^item> \<open>Mcu_Runs\<close>: what holds of the MCU side in every reachable state, an executable scheduler and a run.
  \<^item> \<open>Metrics\<close>: \<open>metrics.go\<close> of \<open>rtm\<close> and \<open>guest\<close>.
  \<^item> \<open>Services\<close>, \<open>Config\<close>, \<open>Server\<close>: services and routes, \<open>serve\<close> from the flags to the configuration,
    \<open>Serve\<close> from the configuration to the running services, and the wait at the end.
  \<^item> \<open>Serve_Run\<close>: \<open>Serve\<close> from the running listener to its return, with the listener goroutine and signals.
  \<^item> \<open>Healthcheck\<close>: the health check command and the URL it asks for.
  \<^item> \<open>License\<close>: the licence checks of \<open>build-supported.go\<close>.
  \<^item> \<open>Requests\<close>: the wrappers of the handlers and the contexts they get.
  \<^item> \<open>Process\<close>: from the command to the end of the process (exit code, panic or uncaught signal), which
    composes configuration, build hook, start, run, health check and version.

  \<^bold>\<open>How the model corresponds to the code.\<close> Structs are records with a prefix per type, enumerations
  are datatypes, \<open>uint64\<close> is a 64-bit word, strings are lists of bytes. An operation takes the \<open>world\<close> and
  returns its result and the new one. A \<open>handler_result\<close> tells a nil error, an error, a panic and a
  goroutine that waits for ever on a leaked lock apart. Nil pointers the code can meet are values: a null
  member decodes to \<open>None\<close>, and a WebRTC message tells whether its embedded envelope was allocated. A goroutine that is started is a pending task in
  \<open>w_tasks\<close>. Iteration over a Go map follows the association list; what a property says of it is about sets,
  membership and counts.

  \<^bold>\<open>What is proved.\<close>
  \<^item> Messages: the source and the profile of what is sent to others are the sender's; a restricted user
    changes only channels of the allowed groups, unless the token allows the empty group name; hashes are
    accepted from both parties and required; chat messages and group updates reach the other members
    exactly once, chat messages within their limits and with the server's meta data; errors go to the client.
  \<^item> Access: which credentials get a connect key, what a key is worth, tokens, guests, clients, basic
    authentication from the flag to the check.
  \<^item> Whole runs: members of channels are connections of the user they are listed under, and open unless
    their goroutine is stuck at a leaked lock; lookups find exactly the live connections, a connection can
    always leave, and the three kinds of input that end the process are named.
  \<^item> Sending: what is queued is written in order and once; the goodbye of the server is queued too late.
  \<^item> Order: what two members both receive of a channel's chat they receive in the same order.
  \<^item> Locks: the members of a group are always in one channel; \<open>RawSend\<close> and \<open>Close\<close> never panic; a connected user stays listed however connects, disconnects and
    the purge interleave; outside the removal of a record these never block each other, and there the order
    of the two locks allows a deadlock, which is proved.
  \<^item> Tables: purges remove exactly what has expired; Add and Remove refine the history of a channel.
  \<^item> Start and stop: routes exist exactly for enabled services; the wait at the end returns; what
    \<open>Serve\<close> returns, and that it can return; exit code and message, or the panic, tell why the process ended;
    the context of a handler ends with the server and not with the client.
  \<^item> Metrics and licence: collecting is exact and waits for nothing but a shard that stays locked, which the
    deadlock of the user table leaves; the check compares exactly the running server
    with the claims, and clients are told the result that was reported last.
  \<^item> MCU: attaching, closed pipelines; in whole runs, a text of the MCU reaches only members of the channel
    it was attached for, a channel with a pipeline forwards to the MCU only, and the control connections are
    listed exactly and used in turn.

  \<^bold>\<open>Granularity.\<close> In the transition system a handler runs as one step; tasks, timers and other
  connections interleave between handlers. Locks are modelled where they decide a property: \<open>RawSend\<close> and
  \<open>Close\<close>, the operations on the user table and on the channel table, and chat deliveries are interleaved per lock
  operation, a lock of a channel that is never released is a flag of the
  channel, and the mutex of the licence reporter separates checks from reports. The phases of clients'
  connections and of the connections of the MCU are kept apart, and a run with or without an MCU manager is
  a run of the same system.

  \<^bold>\<open>Parameters.\<close> HMAC and SHA, JWT parsing and signing, OIDC, regular expressions, the HTML
  sanitizer, random numbers, the clock, the websocket upgrade, the operating system, URL parsing, the claims
  library and the metrics registry are arguments; what a property needs of them is a hypothesis of it, with
  a concrete instance in its witness. What a TURN server accepts is a specification of its own (\<open>turn_accepts\<close>),
  written after the REST draft that \<open>src/turn/config.go\<close> cites.

  \<^bold>\<open>Bounds.\<close> No definition has fuel: all recursion is structural or has a measure. Word counters wrap; the
  property on stopping assumes fewer than \<open>2 ^ 64\<close> connections. The send queue has the capacity of the
  source. A scanned line is limited to 64 KiB as in the Go library. \<open>strings.TrimSpace\<close> takes off the white
  space characters of Unicode in UTF-8.

  \<^bold>\<open>Not modelled.\<close> Reading and writing of websocket frames, TLS, log output and the adapter that passes
  log lines on, the content of the request log, the metrics and profiling listeners once they are started, the parsing of the
  command line, and the registration of the metrics: calls of libraries without decisions of the program.
  \<open>ResponseError\<close> and the envelope types have no record of their own: the former is never used, the latter are embedded
  in the payload types, whose records have their fields.
\<close>

text \<open>
  C24. In every interleaving of any number of threads that call \<open>RawSend\<close> and \<open>Close\<close> of one
  connection, no thread sends on the closed Go channel and no thread closes it a second time, so
  neither operation panics.
\<close>

theorem send_close_no_panic:
  assumes "reach conn_locks_init conn_lock_step s"
  shows "\<not> cl_panic s"
  using conn_lock.reach_inv [OF assms] by (simp add: conn_lock_inv_def)

theorem send_close_no_panic_witness:
  "\<not> cl_panic \<lparr>cl_pc = (\<lambda>_. PcIdle)(0 := C_Locked), cl_readers = {}, cl_writer = Some 0,
     cl_closed = False, cl_chanClosed = False, cl_panic = False\<rparr>"
proof -
  let ?s0 = "\<lparr>cl_pc = (\<lambda>_. PcIdle), cl_readers = {}, cl_writer = None,
     cl_closed = False, cl_chanClosed = False, cl_panic = False\<rparr>"
  have "reach conn_locks_init conn_lock_step ?s0"
    by (rule reach.start) (simp add: conn_locks_init_def)
  from reach.next_step [OF this conn_lock_step.close_lock [of ?s0 0]]
  have "reach conn_locks_init conn_lock_step (?s0\<lparr>cl_pc := (cl_pc ?s0)(0 := C_Locked), cl_writer := Some 0\<rparr>)"
    by simp
  from send_close_no_panic [OF this] show ?thesis
    by simp
qed

end
